(* ===== verification/Fed_Prelude.thy ===== *)
theory Fed_Prelude
  imports Complex_Main "HOL-Library.AList" "HOL-Library.Word" "HOL-Library.Sublist"
begin

text \<open>
  What every theory of the development shares: Python exceptions as values, results that are
  either an exception or a value, insertion-ordered dictionaries as association lists, and the
  few string methods the package calls.

  \<^item> An exception is a value of \<open>exc\<close>, one constructor per class that some
    \<^verbatim>\<open>except\<close> or \<^verbatim>\<open>match\<close> of the package tells apart; a function that may raise
    returns \<open>exc + 'a\<close>.
  \<^item> An operation that talks to the outside (clock, network, DNS, host callbacks) takes the
    outside as a value \<open>w\<close> of an arbitrary type and returns it changed; nothing is assumed
    about how it evolves.
  \<^item> A \<^verbatim>\<open>dict\<close> is an association list with distinct keys: \<open>map_of\<close> looks a key up,
    \<open>AList.update\<close> stores (in place, or at the end when the key is new, as Python does), and
    \<open>AList.delete\<close> removes.
  \<^item> A \<^verbatim>\<open>str\<close> is a \<open>string\<close>; case conversion is the one of ASCII.
\<close>

named_theorems result_simps \<open>equations about results and exceptions\<close>
named_theorems dict_simps \<open>equations about association-list dictionaries\<close>
named_theorems string_defs \<open>definitions of the string helpers, for evaluation\<close>

section \<open>Bytes, time and exceptions\<close>

type_synonym byte = "8 word"
type_synonym bytes = "byte list"

type_synonym ('k, 'v) dict = "('k \<times> 'v) list"

text \<open>
  The exception classes. The subclass relation that matters for the package's handlers is
  \<open>is_value_error\<close> (\<^verbatim>\<open>except ValueError\<close>); a handler that catches \<^verbatim>\<open>Exception\<close>
  catches all of them. The \<^verbatim>\<open>httpx\<close> constructors carry the concrete class name, since
  subclasses such as \<^verbatim>\<open>ReadTimeout\<close> are matched by their base class.
\<close>

datatype exc =
    SSRFError string
  | ManifestVerificationError string
  | ResponseSignatureError string
  | MissingRevocationsEndpointError string
  | UnauthorizedPeerRequest string
  | UnauthorizedCertificateIdentity string
  | ValidationError string
  | JSONDecodeError string
  | HttpxTimeoutException string string
  | AsyncTimeoutError
  | HttpxHTTPStatusError string
  | HttpxTransportError string string
  | HttpxHTTPError string string
  | ValueError string
  | KeyError string
  | OverflowError string
  | InvalidSignature
  | OtherException string string

fun exc_class_name :: "exc \<Rightarrow> string" where
  "exc_class_name (SSRFError _) = ''SSRFError''"
| "exc_class_name (ManifestVerificationError _) = ''ManifestVerificationError''"
| "exc_class_name (ResponseSignatureError _) = ''ResponseSignatureError''"
| "exc_class_name (MissingRevocationsEndpointError _) = ''MissingRevocationsEndpointError''"
| "exc_class_name (UnauthorizedPeerRequest _) = ''UnauthorizedPeerRequest''"
| "exc_class_name (UnauthorizedCertificateIdentity _) = ''UnauthorizedCertificateIdentity''"
| "exc_class_name (ValidationError _) = ''ValidationError''"
| "exc_class_name (JSONDecodeError _) = ''JSONDecodeError''"
| "exc_class_name (HttpxTimeoutException c _) = c"
| "exc_class_name AsyncTimeoutError = ''TimeoutError''"
| "exc_class_name (HttpxHTTPStatusError _) = ''HTTPStatusError''"
| "exc_class_name (HttpxTransportError c _) = c"
| "exc_class_name (HttpxHTTPError c _) = c"
| "exc_class_name (ValueError _) = ''ValueError''"
| "exc_class_name (KeyError _) = ''KeyError''"
| "exc_class_name (OverflowError _) = ''OverflowError''"
| "exc_class_name InvalidSignature = ''InvalidSignature''"
| "exc_class_name (OtherException c _) = c"

fun exc_str :: "exc \<Rightarrow> string" where
  "exc_str (SSRFError m) = m"
| "exc_str (ManifestVerificationError m) = m"
| "exc_str (ResponseSignatureError m) = m"
| "exc_str (MissingRevocationsEndpointError m) = m"
| "exc_str (UnauthorizedPeerRequest m) = m"
| "exc_str (UnauthorizedCertificateIdentity m) = m"
| "exc_str (ValidationError m) = m"
| "exc_str (JSONDecodeError m) = m"
| "exc_str (HttpxTimeoutException _ m) = m"
| "exc_str AsyncTimeoutError = []"
| "exc_str (HttpxHTTPStatusError m) = m"
| "exc_str (HttpxTransportError _ m) = m"
| "exc_str (HttpxHTTPError _ m) = m"
| "exc_str (ValueError m) = m"
| "exc_str (KeyError m) = [CHR 0x27] @ m @ [CHR 0x27]"
| "exc_str (OverflowError m) = m"
| "exc_str InvalidSignature = []"
| "exc_str (OtherException _ m) = m"

fun is_value_error :: "exc \<Rightarrow> bool" where
  "is_value_error (SSRFError _) = True"
| "is_value_error (ManifestVerificationError _) = True"
| "is_value_error (ResponseSignatureError _) = True"
| "is_value_error (MissingRevocationsEndpointError _) = True"
| "is_value_error (UnauthorizedPeerRequest _) = True"
| "is_value_error (UnauthorizedCertificateIdentity _) = True"
| "is_value_error (ValidationError _) = True"
| "is_value_error (JSONDecodeError _) = True"
| "is_value_error (ValueError _) = True"
| "is_value_error _ = False"

section \<open>Results\<close>

type_synonym 'a result = "exc + 'a"

text \<open>An effectful call: it may raise, and it changes the outside world.\<close>

type_synonym ('w, 'a) io = "'w \<Rightarrow> 'a result \<times> 'w"

fun rbind :: "'a result \<Rightarrow> ('a \<Rightarrow> 'b result) \<Rightarrow> 'b result" where
  "rbind (Inl e) f = Inl e"
| "rbind (Inr x) f = f x"

lemma rbind_eq_Inr [result_simps]: "rbind r f = Inr y \<longleftrightarrow> (\<exists>x. r = Inr x \<and> f x = Inr y)"
  by (cases r) auto

lemma rbind_eq_Inl [result_simps]:
  "rbind r f = Inl e \<longleftrightarrow> r = Inl e \<or> (\<exists>x. r = Inr x \<and> f x = Inl e)"
  by (cases r) auto

lemma rbind_cong [fundef_cong]:
  "r = r' \<Longrightarrow> (\<And>x. r' = Inr x \<Longrightarrow> f x = g x) \<Longrightarrow> rbind r f = rbind r' g"
  by (cases r') auto

section \<open>Effects in sequence\<close>

text \<open>
  An action of type \<open>('w, 'a) io\<close> runs in a state \<open>'w\<close>: the outside world, a store behind a port,
  or an object with attributes. Sequencing stops at the first exception and keeps the state
  reached there.
\<close>

definition io_bind :: "('w, 'a) io \<Rightarrow> ('a \<Rightarrow> ('w, 'b) io) \<Rightarrow> ('w, 'b) io" where
  "io_bind m f w = (case m w of (Inl e, w') \<Rightarrow> (Inl e, w') | (Inr x, w') \<Rightarrow> f x w')"

definition io_lift :: "'a result \<Rightarrow> ('w, 'a) io" where
  "io_lift r w = (r, w)"

definition never_raises :: "('w, 'a) io \<Rightarrow> bool" where
  "never_raises m \<longleftrightarrow> (\<forall>w. \<exists>x w'. m w = (Inr x, w'))"

lemma never_raisesD: "never_raises m \<Longrightarrow> \<exists>x w'. m w = (Inr x, w')"
  by (simp add: never_raises_def)

lemma never_raises_lift [intro]: "never_raises (io_lift (Inr x))"
  by (simp add: never_raises_def io_lift_def)

lemma never_raises_bind [intro]:
  assumes "never_raises m" "\<And>x. never_raises (f x)"
  shows "never_raises (io_bind m f)"
  unfolding never_raises_def
proof
  fix w
  obtain x w1 where "m w = (Inr x, w1)" using never_raisesD [OF assms(1)] by blast
  moreover obtain y w' where "f x w1 = (Inr y, w')" using never_raisesD [OF assms(2)] by blast
  ultimately show "\<exists>y w'. io_bind m f w = (Inr y, w')"
    by (simp add: io_bind_def)
qed

lemma io_bind_Inr:
  "io_bind m f w = (Inr y, w') \<longleftrightarrow> (\<exists>x w1. m w = (Inr x, w1) \<and> f x w1 = (Inr y, w'))"
  by (auto simp: io_bind_def split: prod.splits sum.splits)

lemma io_lift_Inr: "io_lift r w = (Inr y, w') \<longleftrightarrow> r = Inr y \<and> w' = w"
  by (auto simp: io_lift_def)

lemmas io_simps = io_bind_Inr io_lift_Inr

lemma io_lift_apply [simp]: "io_lift r w = (r, w)"
  by (simp add: io_lift_def)

lemma io_bind_cases [consumes 1, case_names raised went]:
  assumes "io_bind m f w = (q, w')"
  obtains e where "m w = (Inl e, w')" "q = Inl e"
  | x w1 where "m w = (Inr x, w1)" "f x w1 = (q, w')"
  using assms by (auto simp: io_bind_def split: prod.splits sum.splits)

lemma io_bind_go: "m w = (Inr x, w1) \<Longrightarrow> io_bind m f w = f x w1"
  by (simp add: io_bind_def)

lemma io_bind_stop: "m w = (Inl e, w1) \<Longrightarrow> io_bind m f w = (Inl e, w1)"
  by (simp add: io_bind_def)

section \<open>Dictionaries\<close>

abbreviation dict_get :: "('k, 'v) dict \<Rightarrow> 'k \<Rightarrow> 'v option" where
  "dict_get d k \<equiv> map_of d k"

abbreviation dict_set :: "'k \<Rightarrow> 'v \<Rightarrow> ('k, 'v) dict \<Rightarrow> ('k, 'v) dict" where
  "dict_set k v d \<equiv> AList.update k v d"

abbreviation dict_pop :: "'k \<Rightarrow> ('k, 'v) dict \<Rightarrow> ('k, 'v) dict" where
  "dict_pop k d \<equiv> AList.delete k d"

abbreviation dict_keys :: "('k, 'v) dict \<Rightarrow> 'k list" where
  "dict_keys d \<equiv> map fst d"

abbreviation dict_values :: "('k, 'v) dict \<Rightarrow> 'v list" where
  "dict_values d \<equiv> map snd d"

definition dict_wf :: "('k, 'v) dict \<Rightarrow> bool" where
  "dict_wf d \<longleftrightarrow> distinct (dict_keys d)"

text \<open>\<^verbatim>\<open>dict(pairs)\<close> and the dict comprehensions: later pairs overwrite earlier ones.\<close>

definition dict_of_pairs :: "('k \<times> 'v) list \<Rightarrow> ('k, 'v) dict" where
  "dict_of_pairs ps = fold (\<lambda>(k, v). AList.update k v) ps []"

text \<open>\<^verbatim>\<open>d.update(e)\<close>\<close>

definition dict_update :: "('k, 'v) dict \<Rightarrow> ('k, 'v) dict \<Rightarrow> ('k, 'v) dict" where
  "dict_update d e = fold (\<lambda>(k, v). AList.update k v) e d"

text \<open>\<^verbatim>\<open>d == e\<close>: the same keys with equal values, whatever the order.\<close>

definition dict_eq_by :: "('v \<Rightarrow> 'v \<Rightarrow> bool) \<Rightarrow> ('k, 'v) dict \<Rightarrow> ('k, 'v) dict \<Rightarrow> bool" where
  "dict_eq_by eq d e \<longleftrightarrow>
     length d = length e \<and>
     list_all (\<lambda>(k, v). case map_of e k of None \<Rightarrow> False | Some v' \<Rightarrow> eq v v') d"

lemma dict_wf_Nil [simp]: "dict_wf []"
  by (simp add: dict_wf_def)

lemma dict_wf_set [simp]: "dict_wf d \<Longrightarrow> dict_wf (dict_set k v d)"
  by (simp add: dict_wf_def distinct_update)

lemma dict_wf_pop [simp]: "dict_wf d \<Longrightarrow> dict_wf (dict_pop k d)"
  by (simp add: dict_wf_def distinct_delete)

lemma dict_get_set [dict_simps, simp]:
  "dict_get (dict_set k v d) k' = (if k' = k then Some v else dict_get d k')"
  by (simp add: update_conv')

lemma dict_get_pop [dict_simps, simp]:
  "dict_get (dict_pop k d) k' = (if k' = k then None else dict_get d k')"
  by (simp add: delete_conv')

lemma set_dict_set:
  "dict_wf d \<Longrightarrow> set (dict_set k v d) = insert (k, v) {kv \<in> set d. fst kv \<noteq> k}"
  by (induction d) (auto simp: dict_wf_def image_iff)

lemma dict_get_Some_iff: "dict_wf d \<Longrightarrow> dict_get d k = Some v \<longleftrightarrow> (k, v) \<in> set d"
  by (simp add: dict_wf_def)

lemma set_dict_values: "dict_wf d \<Longrightarrow> set (dict_values d) = {v. \<exists>k. dict_get d k = Some v}"
  by (force simp: dict_get_Some_iff)

lemma map_of_fold_update:
  "map_of (fold (\<lambda>(k, v). AList.update k v) ps d) = map_of d ++ map_of (rev ps)"
  by (induction ps arbitrary: d) (auto simp: update_conv' map_add_def fun_eq_iff split: option.splits)

lemma dict_get_of_pairs [dict_simps]: "dict_get (dict_of_pairs ps) k = map_of (rev ps) k"
  by (simp add: dict_of_pairs_def map_of_fold_update)

lemma map_of_rev_wf: "dict_wf d \<Longrightarrow> map_of (rev d) = map_of d"
  by (rule map_of_inject_set [THEN iffD2]) (simp_all add: dict_wf_def rev_map [symmetric])

lemma dict_get_update [dict_simps]:
  "dict_wf e \<Longrightarrow> dict_get (dict_update d e) k =
     (case dict_get e k of None \<Rightarrow> dict_get d k | Some v \<Rightarrow> Some v)"
  by (simp add: dict_update_def map_of_fold_update map_add_def map_of_rev_wf split: option.splits)

lemma dict_wf_fold_update: "dict_wf d \<Longrightarrow> dict_wf (fold (\<lambda>(k, v). AList.update k v) ps d)"
  by (induction ps arbitrary: d) auto

lemma dict_wf_of_pairs [simp]: "dict_wf (dict_of_pairs ps)"
  by (simp add: dict_of_pairs_def dict_wf_fold_update)

text \<open>On dictionaries with distinct keys, Python's equality is equality of the maps.\<close>

lemma dict_eq_by_iff:
  assumes "dict_wf d" "dict_wf e"
  shows "dict_eq_by (=) d e \<longleftrightarrow> map_of d = map_of e"
proof
  assume eq: "dict_eq_by (=) d e"
  have sub: "set d \<subseteq> set e"
  proof
    fix kv assume kv: "kv \<in> set d"
    obtain k v where [simp]: "kv = (k, v)" by (cases kv)
    from eq kv have "map_of e k = Some v"
      by (fastforce simp: dict_eq_by_def list_all_iff split: option.splits)
    then show "kv \<in> set e" by (simp add: map_of_SomeD)
  qed
  have "distinct d" "distinct e"
    using assms by (auto simp: dict_wf_def distinct_map)
  with eq have "card (set d) = card (set e)"
    by (simp add: dict_eq_by_def distinct_card)
  with sub have "set d = set e"
    by (simp add: card_subset_eq)
  then show "map_of d = map_of e"
    using assms by (simp add: dict_wf_def map_of_inject_set)
next
  assume eq: "map_of d = map_of e"
  then have "set d = set e"
    using assms by (simp add: dict_wf_def map_of_inject_set)
  moreover have "distinct d" "distinct e"
    using assms by (auto simp: dict_wf_def distinct_map)
  ultimately have "length d = length e"
    by (metis distinct_card)
  moreover have "map_of e (fst kv) = Some (snd kv)" if "kv \<in> set d" for kv
    using dict_get_Some_iff [OF assms(1), of "fst kv" "snd kv"] that eq by simp
  ultimately show "dict_eq_by (=) d e"
    by (fastforce simp: dict_eq_by_def list_all_iff)
qed

section \<open>Strings\<close>

definition lower_char :: "char \<Rightarrow> char" where [string_defs]:
  "lower_char c = (let n = (of_char c :: nat) in if 65 \<le> n \<and> n \<le> 90 then char_of (n + 32) else c)"

definition upper_char :: "char \<Rightarrow> char" where [string_defs]:
  "upper_char c = (let n = (of_char c :: nat) in if 97 \<le> n \<and> n \<le> 122 then char_of (n - 32) else c)"

definition str_lower :: "string \<Rightarrow> string" where [string_defs]:
  "str_lower s = map lower_char s"

definition str_upper :: "string \<Rightarrow> string" where [string_defs]:
  "str_upper s = map upper_char s"

definition str_lstrip :: "char \<Rightarrow> string \<Rightarrow> string" where [string_defs]:
  "str_lstrip c s = dropWhile (\<lambda>x. x = c) s"

definition str_rstrip :: "char \<Rightarrow> string \<Rightarrow> string" where [string_defs]:
  "str_rstrip c s = rev (dropWhile (\<lambda>x. x = c) (rev s))"

definition str_endswith :: "string \<Rightarrow> string \<Rightarrow> bool" where [string_defs]:
  "str_endswith s t \<longleftrightarrow> length t \<le> length s \<and> drop (length s - length t) s = t"

definition str_startswith :: "string \<Rightarrow> string \<Rightarrow> bool" where [string_defs]:
  "str_startswith s t \<longleftrightarrow> take (length t) s = t"

lemma str_endswith_iff: "str_endswith s t \<longleftrightarrow> (\<exists>u. s = u @ t)"
proof
  assume e: "str_endswith s t"
  then have "s = take (length s - length t) s @ t"
    unfolding str_endswith_def by (metis append_take_drop_id)
  then show "\<exists>u. s = u @ t" ..
qed (auto simp: str_endswith_def)

lemma str_startswith_iff: "str_startswith s t \<longleftrightarrow> (\<exists>u. s = t @ u)"
  unfolding str_startswith_def by (metis append_eq_conv_conj append_take_drop_id)

lemma str_rstrip_decomp: "\<exists>n. s = str_rstrip c s @ replicate n c"
proof -
  have "rev s = takeWhile (\<lambda>x. x = c) (rev s) @ dropWhile (\<lambda>x. x = c) (rev s)"
    by simp
  then have "s = rev (dropWhile (\<lambda>x. x = c) (rev s)) @ rev (takeWhile (\<lambda>x. x = c) (rev s))"
    by (metis rev_append rev_rev_ident)
  moreover have "\<forall>x \<in> set (rev (takeWhile (\<lambda>x. x = c) (rev s))). x = c"
    by (auto dest: set_takeWhileD)
  then have "rev (takeWhile (\<lambda>x. x = c) (rev s)) =
      replicate (length (takeWhile (\<lambda>x. x = c) (rev s))) c"
    by (metis length_rev replicate_length_same)
  ultimately show ?thesis
    by (metis str_rstrip_def)
qed

lemma str_rstrip_not_last: "str_rstrip c s \<noteq> [] \<Longrightarrow> last (str_rstrip c s) \<noteq> c"
  using hd_dropWhile [of "\<lambda>x. x = c" "rev s"] by (simp add: str_rstrip_def last_rev)

lemma str_rstrip_id: "s = [] \<or> last s \<noteq> c \<Longrightarrow> str_rstrip c s = s"
  by (cases s rule: rev_cases) (auto simp: str_rstrip_def)

lemma str_lstrip_not_hd: "str_lstrip c s \<noteq> [] \<Longrightarrow> hd (str_lstrip c s) \<noteq> c"
  using hd_dropWhile [of "\<lambda>x. x = c" s] by (simp add: str_lstrip_def)

lemma lower_char_idem [simp]: "lower_char (lower_char c) = lower_char c"
proof (cases "65 \<le> (of_char c :: nat) \<and> (of_char c :: nat) \<le> 90")
  case True
  then have "(of_char (char_of ((of_char c :: nat) + 32) :: char) :: nat) = of_char c + 32"
    by simp
  with True show ?thesis
    by (simp add: lower_char_def Let_def)
next
  case False
  then show ?thesis
    by (auto simp: lower_char_def Let_def)
qed

lemma str_lower_idem [simp]: "str_lower (str_lower s) = str_lower s"
  by (simp add: str_lower_def)

end
