(* ===== verification/Base64url.thy ===== *)
theory Base64url
  imports Fed_Prelude
begin

text \<open>
  The base64url text encoding of \<^verbatim>\<open>crypto.py\<close> (\<open>b64u_encode\<close>, \<open>b64u_decode\<close>), over the
  standard library's \<^verbatim>\<open>base64\<close> codec. The decoder is Python's lenient one: it skips
  characters outside the alphabet, stops at a completed padding, and raises a
  \<^verbatim>\<open>binascii.Error\<close> (a \<^verbatim>\<open>ValueError\<close>) when the data characters do not fill a group.
\<close>

section \<open>The standard library codec\<close>

definition byte_of :: "nat \<Rightarrow> byte" where
  "byte_of n = of_nat n"

definition b64_alphabet :: string where
  "b64_alphabet = ''ABCDEFGHIJKLMNOPQRSTUVWXYZabcdefghijklmnopqrstuvwxyz0123456789-_''"

definition b64_char :: "nat \<Rightarrow> char" where
  "b64_char v = b64_alphabet ! v"

text \<open>Decoding first maps \<open>-\<close> and \<open>_\<close> to \<open>+\<close> and \<open>/\<close>, so both spellings are read.\<close>

definition b64_index :: "char \<Rightarrow> nat option" where
  "b64_index c = map_of (zip b64_alphabet [0..<64] @ [(CHR ''+'', 62), (CHR ''/'', 63)]) c"

fun urlsafe_b64encode :: "bytes \<Rightarrow> string" where
  "urlsafe_b64encode [] = []"
| "urlsafe_b64encode [a] =
     [b64_char (unat a div 4), b64_char (unat a mod 4 * 16), CHR ''='', CHR ''='']"
| "urlsafe_b64encode [a, b] =
     [b64_char (unat a div 4), b64_char (unat a mod 4 * 16 + unat b div 16),
      b64_char (unat b mod 16 * 4), CHR ''='']"
| "urlsafe_b64encode (a # b # c # r) =
     [b64_char (unat a div 4), b64_char (unat a mod 4 * 16 + unat b div 16),
      b64_char (unat b mod 16 * 4 + unat c div 64), b64_char (unat c mod 64)]
     @ urlsafe_b64encode r"

text \<open>
  The decoder's loop: \<open>q\<close> is the position in the group of four, \<open>l\<close> the bits left over
  from the previous character, \<open>p\<close> the padding characters seen in this group.
\<close>

fun a2b_base64 :: "string \<Rightarrow> nat \<Rightarrow> nat \<Rightarrow> nat \<Rightarrow> bytes result" where
  "a2b_base64 [] q l p =
     (if q = 0 then Inr []
      else if q = 1 then Inl (ValueError ''Invalid base64-encoded string'')
      else Inl (ValueError ''Incorrect padding''))"
| "a2b_base64 (c # cs) q l p =
     (if c = CHR ''='' then
        (if 2 \<le> q \<and> 4 \<le> q + Suc p then Inr []
         else a2b_base64 cs q l (if 2 \<le> q then Suc p else p))
      else (case b64_index c of
        None \<Rightarrow> a2b_base64 cs q l p
      | Some v \<Rightarrow>
          if q = 0 then a2b_base64 cs 1 v 0
          else if q = 1 then
            rbind (a2b_base64 cs 2 (v mod 16) 0) (\<lambda>r. Inr (byte_of (l * 4 + v div 16) # r))
          else if q = 2 then
            rbind (a2b_base64 cs 3 (v mod 4) 0) (\<lambda>r. Inr (byte_of (l * 16 + v div 4) # r))
          else rbind (a2b_base64 cs 0 0 0) (\<lambda>r. Inr (byte_of (l * 64 + v) # r))))"

definition urlsafe_b64decode :: "string \<Rightarrow> bytes result" where
  "urlsafe_b64decode s =
     (if list_all (\<lambda>c. (of_char c :: nat) < 128) s then a2b_base64 s 0 0 0
      else Inl (ValueError ''string argument should contain only ASCII characters''))"

section \<open>The package's helpers\<close>

definition b64u_encode :: "bytes \<Rightarrow> string" where
  "b64u_encode raw = str_rstrip (CHR ''='') (urlsafe_b64encode raw)"

definition b64u_decode :: "string \<Rightarrow> bytes result" where
  "b64u_decode s = urlsafe_b64decode (s @ replicate (nat ((- int (length s)) mod 4)) (CHR ''=''))"

section \<open>The alphabet\<close>

lemma b64_index_char: "v < 64 \<Longrightarrow> b64_index (b64_char v) = Some v"
proof -
  have "list_all (\<lambda>v. b64_index (b64_char v) = Some v) [0..<64]" by code_simp
  then show "v < 64 \<Longrightarrow> b64_index (b64_char v) = Some v" by (simp add: list_all_iff)
qed

lemma b64_char_facts:
  "v < 64 \<Longrightarrow> b64_char v \<noteq> CHR ''='' \<and> b64_char v \<noteq> CHR '':'' \<and> (of_char (b64_char v) :: nat) < 128"
proof -
  have "list_all (\<lambda>v. b64_char v \<noteq> CHR ''='' \<and> b64_char v \<noteq> CHR '':''
     \<and> (of_char (b64_char v) :: nat) < 128) [0..<64]" by code_simp
  then show "v < 64 \<Longrightarrow> b64_char v \<noteq> CHR ''='' \<and> b64_char v \<noteq> CHR '':''
     \<and> (of_char (b64_char v) :: nat) < 128" by (simp add: list_all_iff)
qed

lemma b64_char_in_alphabet: "v < 64 \<Longrightarrow> b64_char v \<in> set b64_alphabet"
  unfolding b64_char_def by (rule nth_mem) (simp add: b64_alphabet_def)

lemma b64_char_neq:
  "v < 64 \<Longrightarrow> b64_char v \<noteq> CHR ''=''" "v < 64 \<Longrightarrow> CHR ''='' \<noteq> b64_char v"
  "v < 64 \<Longrightarrow> b64_char v \<noteq> CHR '':''" "v < 64 \<Longrightarrow> CHR '':'' \<noteq> b64_char v"
  "v < 64 \<Longrightarrow> (of_char (b64_char v) :: nat) < 128"
  using b64_char_facts [of v] by auto

lemma unat_byte_less: "unat (a :: byte) < 256"
proof -
  have "unat a < 2 ^ LENGTH(8)" by (rule unsigned_less)
  then show ?thesis by simp
qed

lemma sextet_bounds:
  fixes a b c :: byte
  shows "unat a div 4 < 64" "unat a mod 4 * 16 < 64" "unat a mod 4 * 16 + unat b div 16 < 64"
    "unat b mod 16 * 4 < 64" "unat b mod 16 * 4 + unat c div 64 < 64" "unat c mod 64 < 64"
  using unat_byte_less [of a] unat_byte_less [of b] unat_byte_less [of c] by auto

text \<open>The high bits of a byte, moved into the next sextet and back.\<close>

lemma byte_regroup:
  fixes a :: byte
  shows "unat a div 16 div 16 = 0" "unat a div 16 mod 16 = unat a div 16"
    "unat a div 64 div 4 = 0" "unat a div 64 mod 4 = unat a div 64"
  using unat_byte_less [of a] by auto

lemma byte_of_unat: "byte_of (unat a) = a"
  by (simp add: byte_of_def)

lemmas sextet_simps = b64_index_char b64_char_neq sextet_bounds byte_regroup byte_of_unat
  b64_char_in_alphabet

section \<open>Round trip\<close>

lemma a2b_base64_encode: "a2b_base64 (urlsafe_b64encode bs) 0 l p = Inr bs"
proof (induction bs arbitrary: l p rule: urlsafe_b64encode.induct)
  case (2 a)
  then show ?case
    by (simp add: sextet_simps)
next
  case (3 a b)
  then show ?case
    by (simp add: sextet_simps)
next
  case (4 a b c r)
  then show ?case
    by (simp add: sextet_simps)
qed simp

lemma length_urlsafe_b64encode: "length (urlsafe_b64encode bs) mod 4 = 0"
  by (induction bs rule: urlsafe_b64encode.induct) auto

lemma ascii_urlsafe_b64encode:
  "list_all (\<lambda>c. (of_char c :: nat) < 128) (urlsafe_b64encode bs)"
  by (induction bs rule: urlsafe_b64encode.induct) (simp_all add: sextet_simps)

text \<open>The encoding is data characters, then at most two padding characters.\<close>

lemma urlsafe_b64encode_split:
  "\<exists>d n. urlsafe_b64encode bs = d @ replicate n (CHR ''='') \<and> n \<le> 2 \<and> set d \<subseteq> set b64_alphabet
     \<and> CHR ''='' \<notin> set d \<and> CHR '':'' \<notin> set d"
proof (induction bs rule: urlsafe_b64encode.induct)
  case 1
  then show ?case by (intro exI [of _ "[]"] exI [of _ 0]) simp
next
  case (2 a)
  then show ?case
    by (intro exI [of _ "[b64_char (unat a div 4), b64_char (unat a mod 4 * 16)]"] exI [of _ 2])
      (auto simp: numeral_2_eq_2 sextet_simps)
next
  case (3 a b)
  then show ?case
    by (intro exI [of _ "[b64_char (unat a div 4), b64_char (unat a mod 4 * 16 + unat b div 16),
        b64_char (unat b mod 16 * 4)]"] exI [of _ 1])
      (auto simp: sextet_simps)
next
  case (4 a b c r)
  then obtain d n where dn: "urlsafe_b64encode r = d @ replicate n (CHR ''='')" "n \<le> 2"
    "set d \<subseteq> set b64_alphabet" "CHR ''='' \<notin> set d" "CHR '':'' \<notin> set d"
    by blast
  then show ?case
    by (intro exI [of _ "[b64_char (unat a div 4), b64_char (unat a mod 4 * 16 + unat b div 16),
        b64_char (unat b mod 16 * 4 + unat c div 64), b64_char (unat c mod 64)] @ d"] exI [of _ n])
      (auto simp: sextet_simps)
qed

lemma str_rstrip_replicate: "c \<notin> set d \<Longrightarrow> str_rstrip c (d @ replicate n c) = d"
proof -
  assume c: "c \<notin> set d"
  have "dropWhile (\<lambda>x. x = c) (rev d) = rev d"
    using c by (auto simp: dropWhile_eq_self_iff hd_rev)
  then show ?thesis
    by (simp add: str_rstrip_def dropWhile_append)
qed

lemma b64u_encode_pad:
  "b64u_encode bs @ replicate (nat ((- int (length (b64u_encode bs))) mod 4)) (CHR ''='')
     = urlsafe_b64encode bs"
proof -
  obtain d n where dn: "urlsafe_b64encode bs = d @ replicate n (CHR ''='')" "n \<le> 2"
    "CHR ''='' \<notin> set d"
    using urlsafe_b64encode_split by blast
  then have enc: "b64u_encode bs = d"
    by (simp add: b64u_encode_def str_rstrip_replicate)
  have "(length d + n) mod 4 = 0"
    using length_urlsafe_b64encode [of bs] dn(1) by simp
  then have "(int (length d) + int n) mod 4 = 0"
    by presburger
  then have "(- int (length d)) mod 4 = int n"
    using dn(2) by presburger
  then show ?thesis
    by (simp add: enc dn(1))
qed

lemma b64u_decode_encode [simp]: "b64u_decode (b64u_encode bs) = Inr bs"
  by (simp add: b64u_decode_def b64u_encode_pad urlsafe_b64decode_def ascii_urlsafe_b64encode
      a2b_base64_encode)

lemma b64u_encode_inject [simp]: "b64u_encode a = b64u_encode b \<longleftrightarrow> a = b"
  by (metis b64u_decode_encode sum.inject(2))

lemma set_b64u_encode:
  "set (b64u_encode bs) \<subseteq> set b64_alphabet \<and> CHR '':'' \<notin> set (b64u_encode bs)"
proof -
  obtain d n where dn: "urlsafe_b64encode bs = d @ replicate n (CHR ''='')"
    "set d \<subseteq> set b64_alphabet" "CHR ''='' \<notin> set d" "CHR '':'' \<notin> set d"
    using urlsafe_b64encode_split by blast
  then show ?thesis
    by (simp add: b64u_encode_def str_rstrip_replicate)
qed

text \<open>Decoding raises nothing but \<^verbatim>\<open>ValueError\<close>.\<close>

lemma a2b_base64_error: "a2b_base64 s q l p = Inl e \<Longrightarrow> is_value_error e"
  by (induction s q l p rule: a2b_base64.induct)
    (auto simp: result_simps split: if_splits option.splits)

lemma b64u_decode_error: "b64u_decode s = Inl e \<Longrightarrow> is_value_error e"
  by (auto simp: b64u_decode_def urlsafe_b64decode_def dest: a2b_base64_error split: if_splits)

end
