(* ===== verification/Sha256.thy ===== *)
theory Sha256
  imports Fed_Prelude
begin

unbundle bit_operations_syntax

text \<open>
  \<^verbatim>\<open>hashlib.sha256\<close> as the standard (FIPS 180-4) defines it, on lists of bytes, and the two
  places where the package prints a digest: \<open>sha256_hex\<close> (\<^verbatim>\<open>signing.py\<close>), which binds a
  signed request to its body, and \<open>certificate_thumbprint\<close> (\<^verbatim>\<open>certauth.py\<close>).
\<close>

section \<open>The compression function\<close>

type_synonym word32 = "32 word"

text \<open>
  The constants of the standard are the first 32 bits of the fractional parts of the cube roots
  (\<open>sha_K\<close>) and square roots (\<open>sha_H0\<close>) of the first primes; \<open>int_root e n\<close> is the integer
  \<open>e\<close>-th root, one bit at a time.
\<close>

definition sha_primes :: "int list" where
  "sha_primes =
    [2, 3, 5, 7, 11, 13, 17, 19, 23, 29, 31, 37, 41, 43, 47, 53,
     59, 61, 67, 71, 73, 79, 83, 89, 97, 101, 103, 107, 109, 113, 127, 131,
     137, 139, 149, 151, 157, 163, 167, 173, 179, 181, 191, 193, 197, 199, 211, 223,
     227, 229, 233, 239, 241, 251, 257, 263, 269, 271, 277, 281, 283, 293, 307, 311]"

definition int_root :: "nat \<Rightarrow> int \<Rightarrow> int" where
  "int_root e n = fold (\<lambda>b x. if (x + 2 ^ b) ^ e \<le> n then x + 2 ^ b else x) (rev [0..<40]) 0"

definition sha_K :: "word32 list" where
  "sha_K = map (\<lambda>p. of_int (int_root 3 (p * 2 ^ 96))) sha_primes"

definition sha_H0 :: "word32 list" where
  "sha_H0 = map (\<lambda>p. of_int (int_root 2 (p * 2 ^ 64))) (take 8 sha_primes)"

definition rotr :: "nat \<Rightarrow> word32 \<Rightarrow> word32" where
  "rotr n x = drop_bit n x OR push_bit (32 - n) x"

definition sha_ch :: "word32 \<Rightarrow> word32 \<Rightarrow> word32 \<Rightarrow> word32" where
  "sha_ch x y z = (x AND y) XOR (NOT x AND z)"

definition sha_maj :: "word32 \<Rightarrow> word32 \<Rightarrow> word32 \<Rightarrow> word32" where
  "sha_maj x y z = (x AND y) XOR (x AND z) XOR (y AND z)"

definition big_sigma0 :: "word32 \<Rightarrow> word32" where
  "big_sigma0 x = rotr 2 x XOR rotr 13 x XOR rotr 22 x"

definition big_sigma1 :: "word32 \<Rightarrow> word32" where
  "big_sigma1 x = rotr 6 x XOR rotr 11 x XOR rotr 25 x"

definition small_sigma0 :: "word32 \<Rightarrow> word32" where
  "small_sigma0 x = rotr 7 x XOR rotr 18 x XOR drop_bit 3 x"

definition small_sigma1 :: "word32 \<Rightarrow> word32" where
  "small_sigma1 x = rotr 17 x XOR rotr 19 x XOR drop_bit 10 x"

text \<open>
  The message schedule keeps the last sixteen words, oldest first; each round consumes the
  oldest word and appends the next one.
\<close>

fun sha_next_word :: "word32 list \<Rightarrow> word32" where
  "sha_next_word ws = small_sigma1 (ws ! 14) + ws ! 9 + small_sigma0 (ws ! 1) + ws ! 0"

fun sha_round :: "word32 \<Rightarrow> word32 \<Rightarrow> word32 list \<Rightarrow> word32 list" where
  "sha_round k w [a, b, c, d, e, f, g, h] =
     (let t1 = h + big_sigma1 e + sha_ch e f g + k + w;
          t2 = big_sigma0 a + sha_maj a b c
      in [t1 + t2, a, b, c, d + t1, e, f, g])"
| "sha_round k w st = st"

fun sha_rounds :: "word32 list \<Rightarrow> word32 list \<Rightarrow> word32 list \<Rightarrow> word32 list" where
  "sha_rounds [] ws st = st"
| "sha_rounds (k # ks) ws st =
     sha_rounds ks (tl ws @ [sha_next_word ws]) (sha_round k (hd ws) st)"

fun word32_of_bytes :: "bytes \<Rightarrow> word32 list" where
  "word32_of_bytes (a # b # c # d # r) =
     (push_bit 24 (ucast a) OR push_bit 16 (ucast b) OR push_bit 8 (ucast c) OR ucast d)
     # word32_of_bytes r"
| "word32_of_bytes _ = []"

definition bytes_of_word32 :: "word32 \<Rightarrow> bytes" where
  "bytes_of_word32 w =
     [ucast (drop_bit 24 w), ucast (drop_bit 16 w), ucast (drop_bit 8 w), ucast w]"

definition sha_block :: "bytes \<Rightarrow> word32 list \<Rightarrow> word32 list" where
  "sha_block blk h = map2 (+) h (sha_rounds sha_K (word32_of_bytes blk) h)"

function sha_blocks :: "bytes \<Rightarrow> word32 list \<Rightarrow> word32 list" where
  "sha_blocks m h = (if m = [] then h else sha_blocks (drop 64 m) (sha_block (take 64 m) h))"
  by pat_completeness auto
termination
  by (relation "measure (\<lambda>(m, h). length m)") auto

declare sha_blocks.simps [simp del]

section \<open>Padding and the digest\<close>

definition be64 :: "nat \<Rightarrow> bytes" where
  "be64 n = (let w = (of_nat n :: 64 word) in
     map (\<lambda>k. ucast (drop_bit k w)) [56, 48, 40, 32, 24, 16, 8, 0])"

definition sha_pad :: "bytes \<Rightarrow> bytes" where
  "sha_pad m = m @ [0x80] @ replicate (nat ((55 - int (length m)) mod 64)) 0 @ be64 (8 * length m)"

definition sha256 :: "bytes \<Rightarrow> bytes" where
  "sha256 m = concat (map bytes_of_word32 (sha_blocks (sha_pad m) sha_H0))"

definition hex_digit :: "nat \<Rightarrow> char" where
  "hex_digit n = ''0123456789abcdef'' ! n"

definition hexdigest :: "bytes \<Rightarrow> string" where
  "hexdigest bs = concat (map (\<lambda>b. [hex_digit (unat b div 16), hex_digit (unat b mod 16)]) bs)"

definition sha256_hex :: "bytes \<Rightarrow> string" where
  "sha256_hex data = ''sha256:'' @ hexdigest (sha256 data)"

definition certificate_thumbprint :: "bytes \<Rightarrow> string" where
  "certificate_thumbprint cert_der = ''sha256:'' @ hexdigest (sha256 cert_der)"

section \<open>Shape of a digest\<close>

lemma mod_64_of_int: "int n mod 64 = 0 \<Longrightarrow> n mod 64 = 0"
  by presburger

lemma sha_pad_blocks: "length (sha_pad m) mod 64 = 0"
proof (rule mod_64_of_int)
  let ?l = "int (length m)"
  have "length (be64 (8 * length m)) = 8"
    by (simp add: be64_def Let_def)
  then have "int (length (sha_pad m)) = ?l + 9 + (55 - ?l) mod 64"
    by (simp add: sha_pad_def)
  also have "\<dots> mod 64 = (?l + 9 + (55 - ?l)) mod 64"
    by (rule mod_add_right_eq)
  also have "\<dots> = 0"
    by simp
  finally show "int (length (sha_pad m)) mod 64 = 0" .
qed

lemma length_sha_round: "length st = 8 \<Longrightarrow> length (sha_round k w st) = 8"
  by (induction k w st rule: sha_round.induct) (auto simp: Let_def)

lemma length_sha_rounds: "length st = 8 \<Longrightarrow> length (sha_rounds ks ws st) = 8"
  by (induction ks ws st rule: sha_rounds.induct) (auto simp: length_sha_round)

lemma length_sha_blocks: "length h = 8 \<Longrightarrow> length (sha_blocks m h) = 8"
proof (induction m h rule: sha_blocks.induct)
  case (1 m h)
  then show ?case
    by (subst sha_blocks.simps) (simp add: sha_block_def length_sha_rounds)
qed

lemma length_concat_const: "(\<And>x. x \<in> set xs \<Longrightarrow> length (f x) = n) \<Longrightarrow>
    length (concat (map f xs)) = n * length xs"
  by (induction xs) auto

lemma length_sha256: "length (sha256 m) = 32"
proof -
  have "length (sha_blocks (sha_pad m) sha_H0) = 8"
    by (rule length_sha_blocks) (simp add: sha_H0_def sha_primes_def)
  moreover have "length (concat (map bytes_of_word32 ws)) = 4 * length ws" for ws
    by (rule length_concat_const) (simp add: bytes_of_word32_def)
  ultimately show ?thesis
    by (simp only: sha256_def)
qed

lemma length_hexdigest: "length (hexdigest bs) = 2 * length bs"
  unfolding hexdigest_def by (rule length_concat_const) simp

lemma hex_digit_inject:
  assumes "i < 16" "j < 16" "hex_digit i = hex_digit j"
  shows "i = j"
proof -
  have "distinct ''0123456789abcdef''" by simp
  with assms show ?thesis
    by (simp add: hex_digit_def nth_eq_iff_index_eq)
qed

lemma byte_nibbles:
  fixes a b :: byte
  assumes "unat a div 16 = unat b div 16" "unat a mod 16 = unat b mod 16"
  shows "a = b"
  using assms by (metis div_mult_mod_eq word_unat_eq_iff)

lemma nibble_bounds: "unat (a :: byte) div 16 < 16"
proof -
  have "unat a < 2 ^ LENGTH(8)" by (rule unsigned_less)
  then show ?thesis by simp
qed

lemma hexdigest_inject: "hexdigest a = hexdigest b \<longleftrightarrow> a = b"
proof (induction a arbitrary: b)
  case Nil
  then show ?case by (cases b) (auto simp: hexdigest_def)
next
  case (Cons x a)
  show ?case
  proof (cases b)
    case Nil
    then show ?thesis by (simp add: hexdigest_def)
  next
    case b: (Cons y b')
    have "hexdigest (x # a) = hexdigest (y # b') \<longleftrightarrow>
        hex_digit (unat x div 16) = hex_digit (unat y div 16) \<and>
        hex_digit (unat x mod 16) = hex_digit (unat y mod 16) \<and> hexdigest a = hexdigest b'"
      by (simp add: hexdigest_def)
    then show ?thesis
      using Cons.IH [of b'] b byte_nibbles [of x y]
      by (auto dest!: hex_digit_inject [rotated 2] simp: nibble_bounds)
  qed
qed

text \<open>The printed digest loses nothing: equal texts are equal digests.\<close>

lemma sha256_hex_inject: "sha256_hex a = sha256_hex b \<longleftrightarrow> sha256 a = sha256 b"
  by (simp add: sha256_hex_def hexdigest_inject)

end
