(* ===== verification/Py_Time.thy ===== *)
theory Py_Time
  imports Fed_Prelude
begin

text \<open>
  Timestamps (\<^verbatim>\<open>_time.py\<close>) over the standard library's \<^verbatim>\<open>datetime\<close>. An aware
  \<^verbatim>\<open>datetime\<close> is its UTC instant in microseconds since 0001-01-01T00:00:00Z, a
  \<^verbatim>\<open>timedelta\<close> a number of microseconds; the package never looks at an offset, it only
  compares, subtracts and prints in UTC. Arithmetic raises \<^verbatim>\<open>OverflowError\<close> outside
  Python's range, as the code's own additions can.

  \<open>iso_z\<close> prints whole seconds; \<open>parse_iso_z\<close> reads that form back. The calendar follows
  the proleptic Gregorian ordinals of the standard library, and the round trip is proved for
  every representable instant.
\<close>

section \<open>Instants and durations\<close>

type_synonym datetime = int
type_synonym timedelta = int

definition usec :: int where "usec = 1000000"

definition day_usec :: int where "day_usec = 86400 * 1000000"

text \<open>The last instant is the end of 9999-12-31, whose ordinal is 3652059.\<close>

definition dt_ok :: "datetime \<Rightarrow> bool" where
  "dt_ok t \<longleftrightarrow> 0 \<le> t \<and> t < 3652059 * day_usec"

definition td_ok :: "timedelta \<Rightarrow> bool" where
  "td_ok d \<longleftrightarrow> - (999999999 * day_usec) \<le> d \<and> d < 1000000000 * day_usec"

definition dt_add :: "datetime \<Rightarrow> timedelta \<Rightarrow> datetime result" where
  "dt_add t d =
     (if dt_ok (t + d) then Inr (t + d) else Inl (OverflowError ''date value out of range''))"

definition dt_sub :: "datetime \<Rightarrow> timedelta \<Rightarrow> datetime result" where
  "dt_sub t d =
     (if dt_ok (t - d) then Inr (t - d) else Inl (OverflowError ''date value out of range''))"

definition td_seconds :: "int \<Rightarrow> timedelta result" where
  "td_seconds s = (if td_ok (s * usec) then Inr (s * usec)
     else Inl (OverflowError ''days out of range for timedelta''))"

definition td_mul :: "timedelta \<Rightarrow> int \<Rightarrow> timedelta result" where
  "td_mul d n = (if td_ok (d * n) then Inr (d * n)
     else Inl (OverflowError ''days out of range for timedelta''))"

text \<open>\<^verbatim>\<open>dt.replace(microsecond=0)\<close>\<close>

definition trunc_sec :: "datetime \<Rightarrow> datetime" where
  "trunc_sec t = t div usec * usec"

lemma trunc_sec_le: "trunc_sec t \<le> t" "t < trunc_sec t + usec"
  using minus_mod_eq_div_mult [of t usec] pos_mod_bound [of usec t]
    pos_mod_sign [of usec t]
  by (simp_all add: trunc_sec_def usec_def)

lemma trunc_sec_idem [simp]: "trunc_sec (trunc_sec t) = trunc_sec t"
  by (simp add: trunc_sec_def usec_def)

lemma trunc_sec_ok: "dt_ok t \<Longrightarrow> dt_ok (trunc_sec t)"
  using trunc_sec_le [of t] by (simp add: dt_ok_def trunc_sec_def usec_def)

section \<open>The calendar\<close>

definition is_leap :: "int \<Rightarrow> bool" where
  "is_leap y \<longleftrightarrow> y mod 4 = 0 \<and> (y mod 100 \<noteq> 0 \<or> y mod 400 = 0)"

definition days_before_year :: "int \<Rightarrow> int" where
  "days_before_year y =
     (y - 1) * 365 + (y - 1) div 4 - (y - 1) div 100 + (y - 1) div 400"

definition days_in_month :: "bool \<Rightarrow> int \<Rightarrow> int" where
  "days_in_month leap m =
     (if m = 2 then (if leap then 29 else 28)
      else if m = 4 \<or> m = 6 \<or> m = 9 \<or> m = 11 then 30 else 31)"

definition days_before_month :: "bool \<Rightarrow> int \<Rightarrow> int" where
  "days_before_month leap m =
     (if m = 1 then 0 else if m = 2 then 31 else if m = 3 then 59 else if m = 4 then 90
      else if m = 5 then 120 else if m = 6 then 151 else if m = 7 then 181
      else if m = 8 then 212 else if m = 9 then 243 else if m = 10 then 273
      else if m = 11 then 304 else 334)
     + (if 2 < m \<and> leap then 1 else 0)"

definition ymd2ord :: "int \<Rightarrow> int \<Rightarrow> int \<Rightarrow> int" where
  "ymd2ord y m d = days_before_year y + days_before_month (is_leap y) m + d"

text \<open>Month and day of the \<open>n\<close>-th day (from 0) of a year.\<close>

definition month_day :: "bool \<Rightarrow> int \<Rightarrow> int \<times> int" where
  "month_day leap n =
     (let month = (n + 50) div 32; preceding = days_before_month leap month
      in if n < preceding
         then (month - 1, n - (preceding - days_in_month leap (month - 1)) + 1)
         else (month, n - preceding + 1))"

definition ord2ymd :: "int \<Rightarrow> int \<times> int \<times> int" where
  "ord2ymd n0 =
     (let n = n0 - 1;
          n400 = n div 146097; n = n mod 146097;
          n100 = n div 36524; n = n mod 36524;
          n4 = n div 1461; n = n mod 1461;
          n1 = n div 365; n = n mod 365;
          year = n400 * 400 + 1 + n100 * 100 + n4 * 4 + n1
      in if n1 = 4 \<or> n100 = 4 then (year - 1, 12, 31)
         else (let leap = n1 = 3 \<and> (n4 \<noteq> 24 \<or> n100 = 3)
               in case month_day leap n of (m, d) \<Rightarrow> (year, m, d)))"

definition month_day_ok :: "bool \<Rightarrow> int \<Rightarrow> bool" where
  "month_day_ok leap n \<longleftrightarrow>
     (case month_day leap n of (m, d) \<Rightarrow>
        1 \<le> m \<and> m \<le> 12 \<and> 1 \<le> d \<and> d \<le> days_in_month leap m \<and> days_before_month leap m + d = n + 1)"

lemma month_day_correct:
  assumes "0 \<le> n" "n < (if leap then 366 else 365)"
  shows "month_day_ok leap n"
proof -
  have c: "list_all (month_day_ok True) [0..365]" "list_all (month_day_ok False) [0..364]"
    by code_simp+
  show ?thesis
  proof (cases leap)
    case True
    with assms c(1) show ?thesis by (simp add: list_all_iff)
  next
    case False
    with assms c(2) show ?thesis by (simp add: list_all_iff)
  qed
qed

lemma radix:
  fixes r k q :: int
  assumes "0 \<le> r" "r < k"
  shows "(r + q * k) div k = q" "(r + q * k) mod k = r"
  using assms by auto

lemma mod_400_100: "(y :: int) mod 400 = 0 \<Longrightarrow> y mod 100 = 0"
  by presburger

text \<open>A year written in the mixed radix of the Gregorian cycle.\<close>

lemma days_of_cycle:
  fixes a b c d :: int
  assumes "0 \<le> b" "b < 4" "0 \<le> c" "c < 25" "0 \<le> d" "d < 4"
  shows "days_before_year (a * 400 + 1 + b * 100 + c * 4 + d)
           = 146097 * a + 36524 * b + 1461 * c + 365 * d"
proof -
  let ?x = "a * 400 + b * 100 + c * 4 + d"
  have "?x = d + (a * 100 + b * 25 + c) * 4"
    by (simp add: algebra_simps)
  then have d4: "?x div 4 = a * 100 + b * 25 + c"
    using radix(1) [of d 4 "a * 100 + b * 25 + c"] assms by metis
  have "?x = (c * 4 + d) + (a * 4 + b) * 100"
    by (simp add: algebra_simps)
  moreover have "0 \<le> c * 4 + d" "c * 4 + d < 100"
    using assms by linarith+
  ultimately have d100: "?x div 100 = a * 4 + b"
    using radix(1) [of "c * 4 + d" 100 "a * 4 + b"] by metis
  have "?x = (b * 100 + c * 4 + d) + a * 400"
    by (simp add: algebra_simps)
  moreover have "0 \<le> b * 100 + c * 4 + d" "b * 100 + c * 4 + d < 400"
    using assms by linarith+
  ultimately have d400: "?x div 400 = a"
    using radix(1) [of "b * 100 + c * 4 + d" 400 a] by metis
  have x: "a * 400 + 1 + b * 100 + c * 4 + d - 1 = ?x"
    by (simp add: algebra_simps)
  show "days_before_year (a * 400 + 1 + b * 100 + c * 4 + d)
           = 146097 * a + 36524 * b + 1461 * c + 365 * d"
    unfolding days_before_year_def x d4 d100 d400 by (simp add: algebra_simps)
qed

lemma leap_bool:
  "(d \<Longrightarrow> A = c) \<Longrightarrow> (d \<Longrightarrow> c \<Longrightarrow> B = b) \<Longrightarrow> (B \<Longrightarrow> A) \<Longrightarrow>
     (d \<and> (\<not> A \<or> B)) = (d \<and> (\<not> c \<or> b))"
  by blast

lemma mod_shift: "y = r + q * n \<Longrightarrow> y mod n = r mod (n :: int)"
  by (simp only: mod_mult_self1)

lemma leap_of_cycle:
  fixes a b c d :: int
  assumes "0 \<le> b" "b < 4" "0 \<le> c" "c < 25" "0 \<le> d" "d < 4"
  shows "is_leap (a * 400 + 1 + b * 100 + c * 4 + d) \<longleftrightarrow> d = 3 \<and> (c \<noteq> 24 \<or> b = 3)"
proof -
  let ?y = "a * 400 + 1 + b * 100 + c * 4 + d"
  have y4: "?y mod 4 = (d + 1) mod 4"
    by (rule mod_shift [of _ _ "a * 100 + b * 25 + c"]) (simp add: algebra_simps)
  have "(d + 1) mod 4 = 0 \<longleftrightarrow> d = 3"
    using assms(5,6) by presburger
  then have m4: "?y mod 4 = 0 \<longleftrightarrow> d = 3"
    unfolding y4 .
  have m100: "?y mod 100 = 0 \<longleftrightarrow> c = 24" if "d = 3"
  proof -
    have y100: "?y mod 100 = (c * 4 + 4) mod 100"
      by (rule mod_shift [of _ _ "a * 4 + b"]) (use that in \<open>simp add: algebra_simps\<close>)
    have "(c * 4 + 4) mod 100 = 0 \<longleftrightarrow> c = 24"
      using assms(3,4) by presburger
    then show ?thesis
      unfolding y100 .
  qed
  have m400: "?y mod 400 = 0 \<longleftrightarrow> b = 3" if "d = 3" "c = 24"
  proof -
    have y400: "?y mod 400 = (b * 100 + 100) mod 400"
      by (rule mod_shift [of _ _ a]) (use that in \<open>simp add: algebra_simps\<close>)
    have "b = 0 \<or> b = 1 \<or> b = 2 \<or> b = 3"
      using assms(1,2) by linarith
    then have "(b * 100 + 100) mod 400 = 0 \<longleftrightarrow> b = 3"
      by (elim disjE) simp_all
    then show ?thesis
      unfolding y400 .
  qed
  have m: "?y mod 400 = 0 \<Longrightarrow> ?y mod 100 = 0"
    by (rule mod_400_100)
  show "is_leap ?y \<longleftrightarrow> d = 3 \<and> (c \<noteq> 24 \<or> b = 3)"
    unfolding is_leap_def m4 by (rule leap_bool [OF m100 m400 m])
qed

text \<open>What a day number decodes to: a real date with that ordinal.\<close>

definition date_ok :: "int \<Rightarrow> int \<Rightarrow> int \<Rightarrow> bool" where
  "date_ok y m d \<longleftrightarrow>
     1 \<le> y \<and> y \<le> 9999 \<and> 1 \<le> m \<and> m \<le> 12 \<and> 1 \<le> d \<and> d \<le> days_in_month (is_leap y) m"

lemma year_of_cycle_bound:
  fixes a b c d :: int
  assumes "0 \<le> b" "b < 4" "0 \<le> c" "c < 25" "0 \<le> d" "d < 4"
    and "146097 * a + 36524 * b + 1461 * c + 365 * d \<le> 3652058"
  shows "a * 400 + 1 + b * 100 + c * 4 + d \<le> 9999"
proof (rule ccontr)
  assume "\<not> ?thesis"
  then have y: "9999 \<le> 400 * a + 100 * b + 4 * c + d" by linarith
  have "24 \<le> a" using y assms by linarith
  moreover have "a < 25" using y assms by linarith
  ultimately have a: "a = 24" by linarith
  have "3 \<le> b" using y assms a by linarith
  with assms have b: "b = 3" by linarith
  have "24 \<le> c" using y assms a b by linarith
  with assms have c: "c = 24" by linarith
  show False using y assms a b c by linarith
qed

text \<open>A day of a year given in the radix of the cycle, and the ordinal it comes from.\<close>

lemma cycle_date:
  fixes a b c d r :: int
  assumes bounds: "0 \<le> a" "0 \<le> b" "b < 4" "0 \<le> c" "c < 25" "0 \<le> d" "d < 4"
    and n: "n - 1 = 146097 * a + 36524 * b + 1461 * c + 365 * d + r" "n \<le> 3652059"
    and r: "0 \<le> r" "r < (if d = 3 \<and> (c \<noteq> 24 \<or> b = 3) then 366 else 365)"
    and md: "month_day (d = 3 \<and> (c \<noteq> 24 \<or> b = 3)) r = (m, e)"
    and y: "y = a * 400 + 1 + b * 100 + c * 4 + d"
  shows "date_ok y m e \<and> ymd2ord y m e = n"
proof -
  have leap: "is_leap y \<longleftrightarrow> d = 3 \<and> (c \<noteq> 24 \<or> b = 3)"
    unfolding y by (rule leap_of_cycle) (use bounds in auto)
  have days: "days_before_year y = 146097 * a + 36524 * b + 1461 * c + 365 * d"
    unfolding y by (rule days_of_cycle) (use bounds in auto)
  have "month_day_ok (is_leap y) r"
    using month_day_correct [of r "is_leap y"] r leap by simp
  then have m: "1 \<le> m" "m \<le> 12" "1 \<le> e" "e \<le> days_in_month (is_leap y) m"
    "days_before_month (is_leap y) m + e = r + 1"
    using md leap by (simp_all add: month_day_ok_def)
  have "y \<le> 9999"
    unfolding y by (rule year_of_cycle_bound) (use bounds n r in linarith)+
  moreover have "1 \<le> y"
    unfolding y using bounds by linarith
  moreover have "ymd2ord y m e = n"
    unfolding ymd2ord_def days using m(5) n(1) by linarith
  ultimately show ?thesis
    using m by (simp add: date_ok_def)
qed

lemma month_day_last: "month_day True 365 = (12, 31)"
  by (simp add: month_day_def days_before_month_def)

text \<open>The four divisions of \<open>ord2ymd\<close>, with the bounds their remainders have.\<close>

lemma cycle_split:
  fixes k :: int
  assumes "0 \<le> k"
  obtains a r1 b r2 c r3 d r4 where
    "k div 146097 = a" "k mod 146097 = r1" "r1 div 36524 = b" "r1 mod 36524 = r2"
    "r2 div 1461 = c" "r2 mod 1461 = r3" "r3 div 365 = d" "r3 mod 365 = r4"
    "k = 146097 * a + r1" "r1 = 36524 * b + r2" "r2 = 1461 * c + r3" "r3 = 365 * d + r4"
    "0 \<le> a" "0 \<le> r1" "r1 < 146097" "0 \<le> b" "0 \<le> r2" "r2 < 36524" "0 \<le> c" "0 \<le> r3" "r3 < 1461"
    "0 \<le> d" "0 \<le> r4" "r4 < 365"
proof -
  have split: "x = k * (x div k) + x mod k" "0 \<le> x mod k" "x mod k < k" "0 \<le> x \<Longrightarrow> 0 \<le> x div k"
    if "0 < k" for x k :: int
    using that by (simp_all add: pos_imp_zdiv_nonneg_iff)
  let ?r1 = "k mod 146097" let ?r2 = "?r1 mod 36524" let ?r3 = "?r2 mod 1461"
  show thesis
    by (rule that [of "k div 146097" ?r1 "?r1 div 36524" ?r2 "?r2 div 1461" ?r3 "?r3 div 365"
          "?r3 mod 365"])
      (use split [of 146097 k] split [of 36524 ?r1] split [of 1461 ?r2] split [of 365 ?r3] assms
        in \<open>simp_all only: refl if_True zero_less_numeral simp_thms\<close>)
qed

lemma ord2ymd_correct:
  assumes "1 \<le> n" "n \<le> 3652059" and o: "ord2ymd n = (y, m, e)"
  shows "date_ok y m e \<and> ymd2ord y m e = n"
proof -
  have "0 \<le> n - 1" using assms by simp
  then obtain a r1 b r2 c r3 d r4 where dm:
    "(n - 1) div 146097 = a" "(n - 1) mod 146097 = r1" "r1 div 36524 = b" "r1 mod 36524 = r2"
    "r2 div 1461 = c" "r2 mod 1461 = r3" "r3 div 365 = d" "r3 mod 365 = r4"
    and s: "n - 1 = 146097 * a + r1" "r1 = 36524 * b + r2" "r2 = 1461 * c + r3" "r3 = 365 * d + r4"
    "0 \<le> a" "0 \<le> r1" "r1 < 146097" "0 \<le> b" "0 \<le> r2" "r2 < 36524" "0 \<le> c" "0 \<le> r3" "r3 < 1461"
    "0 \<le> d" "0 \<le> r4" "r4 < 365"
    by (rule cycle_split)
  let ?y = "a * 400 + 1 + b * 100 + c * 4 + d"
  have res: "(y, m, e) = (if d = 4 \<or> b = 4 then (?y - 1, 12, 31)
      else (case month_day (d = 3 \<and> (c \<noteq> 24 \<or> b = 3)) r4 of (m, e) \<Rightarrow> (?y, m, e)))"
    using o unfolding ord2ymd_def Let_def dm by (rule sym)
  have c25: "c < 25" using s by linarith
  consider (century) "b = 4" | (quad) "b < 4" "d = 4" | (plain) "b < 4" "d < 4"
    using s by linarith
  then show ?thesis
  proof cases
    case century
    then have z: "c = 0" "d = 0" "r4 = 0" "r1 = 146096" using s by linarith+
    have "y = a * 400 + 1 + 3 * 100 + 24 * 4 + 3" "m = 12" "e = 31"
      using res century z by simp_all
    moreover have "n - 1 = 146097 * a + 36524 * 3 + 1461 * 24 + 365 * 3 + 365"
      using s z by linarith
    ultimately show ?thesis
      using s(5) assms(2) month_day_last by (intro cycle_date [of a 3 24 3 n 365]) simp_all
  next
    case quad
    then have z: "r4 = 0" "r3 = 1460" "c < 24" using s by linarith+
    have "y = a * 400 + 1 + b * 100 + c * 4 + 3" "m = 12" "e = 31"
      using res quad by simp_all
    moreover have "n - 1 = 146097 * a + 36524 * b + 1461 * c + 365 * 3 + 365"
      using s z by linarith
    ultimately show ?thesis
      using s(5,8,11) quad z assms(2) month_day_last
      by (intro cycle_date [of a b c 3 n 365]) simp_all
  next
    case plain
    then have "(y, m, e) = (case month_day (d = 3 \<and> (c \<noteq> 24 \<or> b = 3)) r4 of (m, e) \<Rightarrow> (?y, m, e))"
      using res by simp
    then have "y = ?y" "month_day (d = 3 \<and> (c \<noteq> 24 \<or> b = 3)) r4 = (m, e)"
      by (simp_all only: split: prod.splits) auto
    moreover have "n - 1 = 146097 * a + 36524 * b + 1461 * c + 365 * d + r4"
      using s by linarith
    moreover have "r4 < (if d = 3 \<and> (c \<noteq> 24 \<or> b = 3) then 366 else 365)"
      using s by simp
    ultimately show ?thesis
      using s(5,8,11,14,15) plain c25 assms(2) by (intro cycle_date [of a b c d n r4])
  qed
qed

section \<open>Printing and reading timestamps\<close>

definition digit :: "int \<Rightarrow> char" where
  "digit n = char_of (48 + nat n)"

definition digit_val :: "char \<Rightarrow> int option" where
  "digit_val c = (let n = (of_char c :: nat) in if 48 \<le> n \<and> n \<le> 57 then Some (int n - 48) else None)"

definition dec2 :: "int \<Rightarrow> string" where
  "dec2 n = [digit (n div 10), digit (n mod 10)]"

definition dec4 :: "int \<Rightarrow> string" where
  "dec4 n = [digit (n div 1000), digit (n div 100 mod 10), digit (n div 10 mod 10), digit (n mod 10)]"

text \<open>\<^verbatim>\<open>dt.astimezone(UTC).replace(microsecond=0).isoformat().replace("+00:00", "Z")\<close>\<close>

definition iso_instant :: "datetime \<Rightarrow> string" where
  "iso_instant t =
     (let s = t div usec; sod = s mod 86400
      in case ord2ymd (s div 86400 + 1) of (y, m, d) \<Rightarrow>
        dec4 y @ ''-'' @ dec2 m @ ''-'' @ dec2 d @ ''T'' @
        dec2 (sod div 3600) @ '':'' @ dec2 (sod div 60 mod 60) @ '':'' @ dec2 (sod mod 60) @ ''Z'')"

definition iso_z :: "datetime option \<Rightarrow> string option" where
  "iso_z dt = (case dt of None \<Rightarrow> None | Some t \<Rightarrow> Some (iso_instant t))"

fun digits_val :: "string \<Rightarrow> int \<Rightarrow> int option" where
  "digits_val [] acc = Some acc"
| "digits_val (c # cs) acc =
     (case digit_val c of None \<Rightarrow> None | Some v \<Rightarrow> digits_val cs (acc * 10 + v))"

definition slice_val :: "string \<Rightarrow> nat \<Rightarrow> nat \<Rightarrow> int option" where
  "slice_val s i n = digits_val (take n (drop i s)) 0"

text \<open>Reading the printed form: the fixed layout, real dates and times only.\<close>

definition parse_iso_z :: "string \<Rightarrow> datetime option" where
  "parse_iso_z s =
     (if length s = 20 \<and> s ! 4 = CHR ''-'' \<and> s ! 7 = CHR ''-'' \<and> s ! 10 = CHR ''T'' \<and>
         s ! 13 = CHR '':'' \<and> s ! 16 = CHR '':'' \<and> s ! 19 = CHR ''Z''
      then (case (slice_val s 0 4, slice_val s 5 2, slice_val s 8 2,
                  slice_val s 11 2, slice_val s 14 2, slice_val s 17 2) of
        (Some y, Some m, Some d, Some H, Some M, Some S) \<Rightarrow>
          if date_ok y m d \<and> H < 24 \<and> M < 60 \<and> S < 60
          then Some (((ymd2ord y m d - 1) * 86400 + H * 3600 + M * 60 + S) * usec) else None
      | _ \<Rightarrow> None)
      else None)"

lemma digit_val_digit: "0 \<le> n \<Longrightarrow> n < 10 \<Longrightarrow> digit_val (digit n) = Some n"
  by (simp add: digit_val_def digit_def Let_def)

lemma digits_val_dec2: "0 \<le> n \<Longrightarrow> n < 100 \<Longrightarrow> digits_val (dec2 n) 0 = Some n"
  by (simp add: dec2_def digit_val_digit pos_imp_zdiv_nonneg_iff)

lemma digits_val_4:
  assumes "0 \<le> a" "a < 10" "0 \<le> b" "b < 10" "0 \<le> c" "c < 10" "0 \<le> d" "d < 10"
  shows "digits_val [digit a, digit b, digit c, digit d] 0 = Some (((a * 10 + b) * 10 + c) * 10 + d)"
  using assms by (simp add: digit_val_digit)

lemma digits_val_dec4: "0 \<le> n \<Longrightarrow> n < 10000 \<Longrightarrow> digits_val (dec4 n) 0 = Some n"
proof -
  assume n: "0 \<le> n" "n < 10000"
  have e1: "n div 1000 = n div 100 div 10" and e2: "n div 100 = n div 10 div 10"
    using zdiv_zmult2_eq [of 10 n 100] zdiv_zmult2_eq [of 10 n 10] by simp_all
  have "n div 1000 * 10 + n div 100 mod 10 = n div 100"
    unfolding e1 by (rule div_mult_mod_eq)
  moreover have "n div 100 * 10 + n div 10 mod 10 = n div 10"
    unfolding e2 by (rule div_mult_mod_eq)
  ultimately have "((n div 1000 * 10 + n div 100 mod 10) * 10 + n div 10 mod 10) * 10 + n mod 10 = n"
    by (simp only: div_mult_mod_eq)
  moreover have "digits_val (dec4 n) 0 =
      Some (((n div 1000 * 10 + n div 100 mod 10) * 10 + n div 10 mod 10) * 10 + n mod 10)"
    unfolding dec4_def
    by (rule digits_val_4) (use n in \<open>simp_all add: pos_imp_zdiv_nonneg_iff\<close>)
  ultimately show ?thesis
    by (simp only:)
qed

lemma length_dec [simp]: "length (dec2 n) = 2" "length (dec4 n) = 4"
  by (simp_all add: dec2_def dec4_def)

text \<open>A text assembled in the layout is read back field by field.\<close>

lemma parse_layout:
  assumes d: "date_ok y m d" and t: "0 \<le> H" "H < 24" "0 \<le> M" "M < 60" "0 \<le> S" "S < 60"
    and s: "s = dec4 y @ ''-'' @ dec2 m @ ''-'' @ dec2 d @ ''T'' @
                dec2 H @ '':'' @ dec2 M @ '':'' @ dec2 S @ ''Z''"
  shows "parse_iso_z s = Some (((ymd2ord y m d - 1) * 86400 + H * 3600 + M * 60 + S) * usec)"
proof -
  have dm: "0 \<le> y" "y < 10000" "0 \<le> m" "m < 100" "0 \<le> d" "d < 100"
    using d by (auto simp: date_ok_def days_in_month_def split: if_splits)
  have layout: "length s = 20" "s ! 4 = CHR ''-''" "s ! 7 = CHR ''-''" "s ! 10 = CHR ''T''"
    "s ! 13 = CHR '':''" "s ! 16 = CHR '':''" "s ! 19 = CHR ''Z''"
    by (simp_all add: s nth_append nth_Cons')
  have "slice_val s 0 4 = Some y" "slice_val s 5 2 = Some m" "slice_val s 8 2 = Some d"
    "slice_val s 11 2 = Some H" "slice_val s 14 2 = Some M" "slice_val s 17 2 = Some S"
    using dm t by (simp_all add: s slice_val_def digits_val_dec2 digits_val_dec4 drop_Cons')
  with layout d t show ?thesis
    by (simp add: parse_iso_z_def)
qed

lemma second_of_day:
  fixes sod :: int
  assumes "0 \<le> sod" "sod < 86400"
  shows "sod div 3600 * 3600 + sod div 60 mod 60 * 60 + sod mod 60 = sod"
    "0 \<le> sod div 3600" "sod div 3600 < 24"
proof -
  have e: "sod div 3600 = sod div 60 div 60"
    using zdiv_zmult2_eq [of 60 sod 60] by simp
  have "sod div 60 div 60 * 60 + sod div 60 mod 60 = sod div 60"
    by (rule div_mult_mod_eq)
  moreover have "sod div 60 * 60 + sod mod 60 = sod"
    by (rule div_mult_mod_eq)
  ultimately show "sod div 3600 * 3600 + sod div 60 mod 60 * 60 + sod mod 60 = sod"
    unfolding e by linarith
  show "0 \<le> sod div 3600" "sod div 3600 < 24"
    using assms by (simp_all add: pos_imp_zdiv_nonneg_iff)
qed

lemma join_day:
  fixes q :: int
  shows "o1 = q + 1 \<Longrightarrow> A + B + C = r \<Longrightarrow> q * 86400 + r = s \<Longrightarrow>
    (o1 - 1) * 86400 + A + B + C = s"
  by simp

lemma parse_iso_instant:
  assumes "dt_ok t"
  shows "parse_iso_z (iso_instant t) = Some (trunc_sec t)"
proof -
  let ?s = "t div usec"
  have "0 \<le> ?s" "?s < 3652059 * 86400"
    using assms by (auto simp: dt_ok_def usec_def day_usec_def pos_imp_zdiv_nonneg_iff)
  then have day: "1 \<le> ?s div 86400 + 1" "?s div 86400 + 1 \<le> 3652059"
    by (simp_all add: pos_imp_zdiv_nonneg_iff)
  obtain y m d where o: "ord2ymd (?s div 86400 + 1) = (y, m, d)"
    by (metis prod_cases3)
  have date: "date_ok y m d" "ymd2ord y m d = ?s div 86400 + 1"
    using ord2ymd_correct [OF day o] by auto
  let ?r = "?s mod 86400"
  have r: "0 \<le> ?r" "?r < 86400" by simp_all
  have "iso_instant t = dec4 y @ ''-'' @ dec2 m @ ''-'' @ dec2 d @ ''T'' @
      dec2 (?r div 3600) @ '':'' @ dec2 (?r div 60 mod 60) @ '':'' @ dec2 (?r mod 60) @ ''Z''"
    unfolding iso_instant_def Let_def o by simp
  then have "parse_iso_z (iso_instant t) =
      Some (((ymd2ord y m d - 1) * 86400 + ?r div 3600 * 3600 + ?r div 60 mod 60 * 60 + ?r mod 60) * usec)"
    using second_of_day(2,3) [OF r] by (intro parse_layout [OF date(1)]) simp_all
  also have "(ymd2ord y m d - 1) * 86400 + ?r div 3600 * 3600 + ?r div 60 mod 60 * 60 + ?r mod 60 = ?s"
    by (rule join_day [OF date(2) second_of_day(1) [OF r] div_mult_mod_eq])
  finally show ?thesis
    by (simp add: trunc_sec_def)
qed

lemma iso_instant_trunc [simp]: "iso_instant (trunc_sec t) = iso_instant t"
  by (simp add: iso_instant_def trunc_sec_def usec_def)

end
