(* ===== verification/Json.thy ===== *)
theory Json
  imports Py_Time "HOL-Library.Monad_Syntax"
begin

text \<open>
  JSON values as \<^verbatim>\<open>model_dump(mode="json")\<close> produces and \<^verbatim>\<open>model_validate\<close>
  reads them: an object is an insertion-ordered dictionary, a number is an integer or the bit
  pattern of a double. Encoders build the list of the fields that are not \<^verbatim>\<open>None\<close>
  (\<^verbatim>\<open>exclude_none=True\<close>); decoders read well-typed fields and fail otherwise.
\<close>

datatype json =
    JNull
  | JBool bool
  | JInt int
  | JFloat "64 word"
  | JStr string
  | JArr "json list"
  | JObj "(string \<times> json) list"

type_synonym obj = "(string, json) dict"

text \<open>Equality of JSON values as RFC 8785 sees them: the order of object members is irrelevant.\<close>

fun json_equiv :: "json \<Rightarrow> json \<Rightarrow> bool" where
  "json_equiv (JArr xs) (JArr ys) = list_all2 json_equiv xs ys"
| "json_equiv (JObj d) (JObj e) =
     (length d = length e \<and>
      list_all (\<lambda>(k, v). case map_of e k of None \<Rightarrow> False | Some v' \<Rightarrow> json_equiv v v') d)"
| "json_equiv a b = (a = b)"

lemma json_equiv_JStr [simp]: "json_equiv (JStr s) b \<longleftrightarrow> b = JStr s"
  by (cases b) auto

lemma json_equiv_JInt [simp]: "json_equiv (JInt i) b \<longleftrightarrow> b = JInt i"
  by (cases b) auto

lemma json_equiv_JBool [simp]: "json_equiv (JBool i) b \<longleftrightarrow> b = JBool i"
  by (cases b) auto

lemma json_equiv_JNull [simp]: "json_equiv JNull b \<longleftrightarrow> b = JNull"
  by (cases b) auto

lemma json_equiv_get:
  assumes "json_equiv (JObj d) (JObj e)" and "map_of d k = Some v"
  shows "\<exists>v'. map_of e k = Some v' \<and> json_equiv v v'"
proof -
  from assms have "case map_of e k of None \<Rightarrow> False | Some v' \<Rightarrow> json_equiv v v'"
    by (force simp: list_all_iff dest: map_of_SomeD)
  then show ?thesis by (cases "map_of e k") auto
qed

lemma json_equiv_strs: "json_equiv (JArr (map JStr xs)) (JArr (map JStr ys)) \<longleftrightarrow> xs = ys"
  by (simp add: list_all2_conv_all_nth list_eq_iff_nth_eq) (auto simp: list_eq_iff_nth_eq)

section \<open>Encoding fields\<close>

definition opt_field :: "string \<Rightarrow> ('a \<Rightarrow> json) \<Rightarrow> 'a option \<Rightarrow> obj" where
  "opt_field k enc v = (case v of None \<Rightarrow> [] | Some x \<Rightarrow> [(k, enc x)])"

text \<open>Extra members kept by \<^verbatim>\<open>extra="allow"\<close>; \<^verbatim>\<open>exclude_none\<close> drops the null ones.\<close>

definition drop_null :: "obj \<Rightarrow> obj" where
  "drop_null d = filter (\<lambda>(k, v). v \<noteq> JNull) d"

definition json_time :: "datetime \<Rightarrow> json" where
  "json_time t = JStr (iso_instant t)"

definition json_strs :: "string list \<Rightarrow> json" where
  "json_strs xs = JArr (map JStr xs)"

definition json_str_dict :: "(string, string) dict \<Rightarrow> json" where
  "json_str_dict d = JObj (map (\<lambda>(k, v). (k, JStr v)) d)"

lemma map_of_opt_field [simp]:
  "map_of (opt_field k enc v) k' = (if k' = k then map_option enc v else None)"
  by (simp add: opt_field_def split: option.splits)

lemma opt_field_simps [simp]: "opt_field k enc None = []" "opt_field k enc (Some x) = [(k, enc x)]"
  by (simp_all add: opt_field_def)

lemma fst_opt_field: "fst ` set (opt_field k enc v) = (if v = None then {} else {k})"
  by (cases v) auto

lemma drop_null_idem [simp]: "drop_null (drop_null d) = drop_null d"
  by (simp add: drop_null_def)

lemma fst_drop_null: "fst ` set (drop_null d) \<subseteq> fst ` set d"
  by (auto simp: drop_null_def)

lemma distinct_drop_null: "distinct (map fst d) \<Longrightarrow> distinct (map fst (drop_null d))"
  by (induction d) (auto simp: drop_null_def)

section \<open>Decoding fields\<close>

definition dec_str :: "json \<Rightarrow> string option" where
  "dec_str j = (case j of JStr s \<Rightarrow> Some s | _ \<Rightarrow> None)"

definition dec_int :: "json \<Rightarrow> int option" where
  "dec_int j = (case j of JInt i \<Rightarrow> Some i | _ \<Rightarrow> None)"

definition dec_bool :: "json \<Rightarrow> bool option" where
  "dec_bool j = (case j of JBool b \<Rightarrow> Some b | _ \<Rightarrow> None)"

definition dec_time :: "json \<Rightarrow> datetime option" where
  "dec_time j = (case j of JStr s \<Rightarrow> parse_iso_z s | _ \<Rightarrow> None)"

definition dec_obj :: "json \<Rightarrow> obj option" where
  "dec_obj j = (case j of JObj d \<Rightarrow> Some d | _ \<Rightarrow> None)"

fun dec_all :: "('a \<Rightarrow> 'b option) \<Rightarrow> 'a list \<Rightarrow> 'b list option" where
  "dec_all f [] = Some []"
| "dec_all f (x # xs) = do { y \<leftarrow> f x; ys \<leftarrow> dec_all f xs; Some (y # ys) }"

lemma dec_all_cong [fundef_cong]:
  "xs = ys \<Longrightarrow> (\<And>x. x \<in> set ys \<Longrightarrow> f x = g x) \<Longrightarrow> dec_all f xs = dec_all g ys"
  by (induction ys arbitrary: xs) auto

definition dec_list :: "(json \<Rightarrow> 'a option) \<Rightarrow> json \<Rightarrow> 'a list option" where
  "dec_list f j = (case j of JArr xs \<Rightarrow> dec_all f xs | _ \<Rightarrow> None)"

definition dec_str_dict :: "json \<Rightarrow> (string, string) dict option" where
  "dec_str_dict j = do { d \<leftarrow> dec_obj j;
     dec_all (\<lambda>(k, v). do { s \<leftarrow> dec_str v; Some (k, s) }) d }"

text \<open>A required field, an optional field, a field with a default.\<close>

definition req :: "(json \<Rightarrow> 'a option) \<Rightarrow> string \<Rightarrow> obj \<Rightarrow> 'a option" where
  "req dec k d = do { j \<leftarrow> map_of d k; dec j }"

definition opt :: "(json \<Rightarrow> 'a option) \<Rightarrow> string \<Rightarrow> obj \<Rightarrow> 'a option option" where
  "opt dec k d = (case map_of d k of
       None \<Rightarrow> Some None
     | Some j \<Rightarrow> if j = JNull then Some None else map_option Some (dec j))"

definition dflt :: "(json \<Rightarrow> 'a option) \<Rightarrow> 'a \<Rightarrow> string \<Rightarrow> obj \<Rightarrow> 'a option" where
  "dflt dec v k d = (case map_of d k of None \<Rightarrow> Some v | Some j \<Rightarrow> dec j)"

lemma dec_simps [simp]:
  "dec_str (JStr s) = Some s" "dec_int (JInt i) = Some i" "dec_bool (JBool b) = Some b"
  "dec_obj (JObj d) = Some d" "dec_time (json_time t) = parse_iso_z (iso_instant t)"
  by (simp_all add: dec_str_def dec_int_def dec_bool_def dec_obj_def dec_time_def json_time_def)

lemma dec_all_map: "(\<And>x. x \<in> set xs \<Longrightarrow> f (g x) = Some (h x)) \<Longrightarrow>
    dec_all f (map g xs) = Some (map h xs)"
  by (induction xs) auto

lemma dec_list_strs [simp]: "dec_list dec_str (json_strs xs) = Some xs"
  by (simp add: dec_list_def json_strs_def dec_all_map [where h = id, simplified])

lemma dec_list_JArr [simp]: "dec_list f (JArr xs) = dec_all f xs"
  by (simp add: dec_list_def)

lemma dec_str_dict_json [simp]: "dec_str_dict (json_str_dict d) = Some d"
  by (simp add: dec_str_dict_def json_str_dict_def dec_all_map [where h = id, simplified]
      split: prod.splits)

lemma json_not_null [simp]:
  "json_strs xs \<noteq> JNull" "json_time t \<noteq> JNull" "json_str_dict s \<noteq> JNull"
  by (simp_all add: json_strs_def json_time_def json_str_dict_def)

lemmas field_simps_json = req_def opt_def dflt_def map_of_append map_add_def

end
