(* ===== verification/Models.thy ===== *)
theory Models
  imports Json
begin

text \<open>
  The wire models of \<^verbatim>\<open>models.py\<close> and \<^verbatim>\<open>operations.py\<close>: one record per class with
  the class's fields, its JSON dump (\<^verbatim>\<open>model_dump(mode="json", exclude_none=True)\<close>: the
  fields in declaration order without the \<^verbatim>\<open>None\<close> ones, timestamps through \<open>iso_z\<close>),
  and the reading of well-typed JSON back into the record (defaults filled in, extra members
  ignored, kept or refused as the class's configuration says).

  Pydantic itself is not modelled: where the package validates foreign data, the validator is a
  parameter, and these decoders state what the class declarations say about well-typed input.
\<close>

section \<open>Signatures, keys and manifest parts\<close>

record signature =
  sig_key_id :: string
  sig_alg :: string
  sig_sig :: string

definition signature_json :: "signature \<Rightarrow> json" where
  "signature_json s = JObj [(''key_id'', JStr (sig_key_id s)), (''alg'', JStr (sig_alg s)),
     (''sig'', JStr (sig_sig s))]"

definition dec_signature :: "json \<Rightarrow> signature option" where
  "dec_signature j = do { d \<leftarrow> dec_obj j;
     k \<leftarrow> req dec_str ''key_id'' d; a \<leftarrow> dflt dec_str ''EdDSA'' ''alg'' d; s \<leftarrow> req dec_str ''sig'' d;
     Some \<lparr>sig_key_id = k, sig_alg = a, sig_sig = s\<rparr> }"

type_synonym jwk = "(string, string) dict"

record public_key =
  pk_key_id :: string
  pk_use :: string
  pk_alg :: string
  pk_public_jwk :: jwk

definition public_key_json :: "public_key \<Rightarrow> json" where
  "public_key_json k = JObj [(''key_id'', JStr (pk_key_id k)), (''use'', JStr (pk_use k)),
     (''alg'', JStr (pk_alg k)), (''public_jwk'', json_str_dict (pk_public_jwk k))]"

definition dec_public_key :: "json \<Rightarrow> public_key option" where
  "dec_public_key j = do { d \<leftarrow> dec_obj j;
     k \<leftarrow> req dec_str ''key_id'' d; u \<leftarrow> dflt dec_str ''sig'' ''use'' d;
     a \<leftarrow> dflt dec_str ''EdDSA'' ''alg'' d; w \<leftarrow> req dec_str_dict ''public_jwk'' d;
     Some \<lparr>pk_key_id = k, pk_use = u, pk_alg = a, pk_public_jwk = w\<rparr> }"

text \<open>Extra members of an \<^verbatim>\<open>extra="allow"\<close> class: distinct names, none a declared field.\<close>

definition extra_ok :: "string list \<Rightarrow> obj \<Rightarrow> bool" where
  "extra_ok fs e \<longleftrightarrow> distinct (map fst e) \<and> list_all (\<lambda>kv. fst kv \<notin> set fs) e"

definition dec_extra :: "string list \<Rightarrow> obj \<Rightarrow> obj" where
  "dec_extra fs d = filter (\<lambda>(k, v). k \<notin> set fs) d"

record membership =
  mb_introduce_url :: string
  mb_members_url :: string
  mb_revocations_url :: "string option"
  mb_extra :: obj

definition membership_fields :: "string list" where
  "membership_fields = [''introduce_url'', ''members_url'', ''revocations_url'']"

definition membership_json :: "membership \<Rightarrow> json" where
  "membership_json m = JObj ([(''introduce_url'', JStr (mb_introduce_url m)),
     (''members_url'', JStr (mb_members_url m))]
     @ opt_field ''revocations_url'' JStr (mb_revocations_url m) @ drop_null (mb_extra m))"

definition dec_membership :: "json \<Rightarrow> membership option" where
  "dec_membership j = do { d \<leftarrow> dec_obj j;
     i \<leftarrow> req dec_str ''introduce_url'' d; m \<leftarrow> req dec_str ''members_url'' d;
     r \<leftarrow> opt dec_str ''revocations_url'' d;
     Some \<lparr>mb_introduce_url = i, mb_members_url = m, mb_revocations_url = r,
       mb_extra = dec_extra membership_fields d\<rparr> }"

record disclosure =
  dc_default :: string
  dc_supports_partner_scopes :: bool

definition disclosure_json :: "disclosure \<Rightarrow> json" where
  "disclosure_json d = JObj [(''default'', JStr (dc_default d)),
     (''supports_partner_scopes'', JBool (dc_supports_partner_scopes d))]"

definition dec_disclosure :: "json \<Rightarrow> disclosure option" where
  "dec_disclosure j = do { d \<leftarrow> dec_obj j;
     f \<leftarrow> req dec_str ''default'' d; b \<leftarrow> req dec_bool ''supports_partner_scopes'' d;
     Some \<lparr>dc_default = f, dc_supports_partner_scopes = b\<rparr> }"

record manifest_limits =
  ml_max_operation_rps_per_peer :: "int option"
  ml_max_operation_timeout_ms :: "int option"
  ml_max_operation_items :: "int option"

definition limits_json :: "manifest_limits \<Rightarrow> json" where
  "limits_json l = JObj (opt_field ''max_operation_rps_per_peer'' JInt (ml_max_operation_rps_per_peer l)
     @ opt_field ''max_operation_timeout_ms'' JInt (ml_max_operation_timeout_ms l)
     @ opt_field ''max_operation_items'' JInt (ml_max_operation_items l))"

definition dec_limits :: "json \<Rightarrow> manifest_limits option" where
  "dec_limits j = do { d \<leftarrow> dec_obj j;
     a \<leftarrow> opt dec_int ''max_operation_rps_per_peer'' d;
     b \<leftarrow> opt dec_int ''max_operation_timeout_ms'' d;
     c \<leftarrow> opt dec_int ''max_operation_items'' d;
     Some \<lparr>ml_max_operation_rps_per_peer = a, ml_max_operation_timeout_ms = b,
       ml_max_operation_items = c\<rparr> }"

text \<open>
  \<^verbatim>\<open>AdmissionEvidence = DomainProofEvidence | GenericAdmissionEvidence\<close>: an object is a
  domain proof when its type says so (or is missing) and it has a domain, and otherwise a
  host-owned evidence tagged by its type.
\<close>

datatype admission_evidence =
    DomainProofEvidence string obj
  | GenericAdmissionEvidence string obj

fun evidence_json :: "admission_evidence \<Rightarrow> json" where
  "evidence_json (DomainProofEvidence dn e) =
     JObj ([(''type'', JStr ''domain_proof''), (''domain'', JStr dn)] @ drop_null e)"
| "evidence_json (GenericAdmissionEvidence t e) = JObj ((''type'', JStr t) # drop_null e)"

definition dec_evidence :: "json \<Rightarrow> admission_evidence option" where
  "dec_evidence j = do { d \<leftarrow> dec_obj j;
     t \<leftarrow> dflt dec_str ''domain_proof'' ''type'' d;
     (case (t = ''domain_proof'', req dec_str ''domain'' d) of
        (True, Some dn) \<Rightarrow> Some (DomainProofEvidence dn (dec_extra [''type'', ''domain''] d))
      | _ \<Rightarrow> (case map_of d ''type'' of
          None \<Rightarrow> None
        | Some _ \<Rightarrow> Some (GenericAdmissionEvidence t (dec_extra [''type''] d)))) }"

fun evidence_ok :: "admission_evidence \<Rightarrow> bool" where
  "evidence_ok (DomainProofEvidence dn e) = extra_ok [''type'', ''domain''] e"
| "evidence_ok (GenericAdmissionEvidence t e) =
     (extra_ok [''type''] e \<and> (t = ''domain_proof'' \<longrightarrow> req dec_str ''domain'' e = None))"

fun evidence_norm :: "admission_evidence \<Rightarrow> admission_evidence" where
  "evidence_norm (DomainProofEvidence dn e) = DomainProofEvidence dn (drop_null e)"
| "evidence_norm (GenericAdmissionEvidence t e) = GenericAdmissionEvidence t (drop_null e)"

subsection \<open>Reading the parts back\<close>

lemma map_of_extra: "extra_ok fs e \<Longrightarrow> k \<in> set fs \<Longrightarrow> map_of (drop_null e) k = None"
  by (force simp: extra_ok_def list_all_iff drop_null_def map_of_eq_None_iff)

lemma map_of_drop_null:
  "distinct (map fst e) \<Longrightarrow> map_of (drop_null e) k =
     (case map_of e k of None \<Rightarrow> None | Some v \<Rightarrow> if v = JNull then None else Some v)"
  by (induction e) (force simp: drop_null_def split: option.splits dest: map_of_SomeD)+

lemma dec_extra_drop: "extra_ok fs e \<Longrightarrow> dec_extra fs (drop_null e) = drop_null e"
  by (auto simp: extra_ok_def list_all_iff drop_null_def dec_extra_def intro!: filter_cong)

lemma dec_extra_append [simp]:
  "dec_extra fs (xs @ ys) = dec_extra fs xs @ dec_extra fs ys"
  by (simp add: dec_extra_def)

lemma dec_extra_Cons [simp]:
  "dec_extra fs (x # xs) = (if fst x \<in> set fs then dec_extra fs xs else x # dec_extra fs xs)"
  by (simp add: dec_extra_def split: prod.splits)

lemma dec_extra_opt [simp]: "k \<in> set fs \<Longrightarrow> dec_extra fs (opt_field k enc v) = []"
  by (cases v) (simp_all add: dec_extra_def)

lemma dec_extra_Nil [simp]: "dec_extra fs [] = []"
  by (simp add: dec_extra_def)

lemma dec_signature_json [simp]: "dec_signature (signature_json s) = Some s"
  by (simp add: dec_signature_def signature_json_def field_simps_json)

lemma dec_public_key_json [simp]: "dec_public_key (public_key_json k) = Some k"
  by (simp add: dec_public_key_def public_key_json_def field_simps_json)

lemma dec_disclosure_json [simp]: "dec_disclosure (disclosure_json k) = Some k"
  by (simp add: dec_disclosure_def disclosure_json_def field_simps_json)

lemma dec_limits_json [simp]: "dec_limits (limits_json l) = Some l"
  by (cases "ml_max_operation_rps_per_peer l"; cases "ml_max_operation_timeout_ms l";
      cases "ml_max_operation_items l")
    (simp_all add: dec_limits_def limits_json_def field_simps_json)

lemma dec_membership_json:
  "extra_ok membership_fields (mb_extra m) \<Longrightarrow>
     dec_membership (membership_json m) = Some (m\<lparr>mb_extra := drop_null (mb_extra m)\<rparr>)"
  by (cases "mb_revocations_url m")
    (simp_all add: dec_membership_def membership_json_def field_simps_json map_of_extra
      dec_extra_drop membership_fields_def)

lemma dec_evidence_json: "evidence_ok e \<Longrightarrow> dec_evidence (evidence_json e) = Some (evidence_norm e)"
proof (induction e)
  case (DomainProofEvidence dn e)
  then show ?case
    by (simp add: dec_evidence_def field_simps_json dec_extra_drop)
next
  case (GenericAdmissionEvidence t e)
  then have "t = ''domain_proof'' \<Longrightarrow> req dec_str ''domain'' (drop_null e) = None"
    by (auto simp: req_def map_of_drop_null extra_ok_def split: option.splits)
  then show ?case
    using GenericAdmissionEvidence
    by (cases "t = ''domain_proof''") (simp_all add: dec_evidence_def field_simps_json dec_extra_drop)
qed

lemma parts_not_null [simp]:
  "signature_json s \<noteq> JNull" "membership_json m \<noteq> JNull" "disclosure_json d \<noteq> JNull"
  "limits_json l \<noteq> JNull" "evidence_json e \<noteq> JNull" "public_key_json k \<noteq> JNull"
  by (simp_all add: signature_json_def membership_json_def disclosure_json_def limits_json_def
      public_key_json_def) (cases e; simp)

end
