(* ===== verification/Wire.thy ===== *)
theory Wire
  imports Models
begin

text \<open>
  The messages of the protocol: the manifest (\<^verbatim>\<open>models.py\<close>), the signed request envelope,
  the introduction, membership, revocation and operation messages, each with its dump, its
  decoder, the condition under which the decoder reads the dump back (\<open>*_ok\<close>), and what is read
  (\<open>*_norm\<close>: timestamps are cut to whole seconds and null extra members disappear).
\<close>

definition times_ok :: "datetime option \<Rightarrow> bool" where
  "times_ok t \<longleftrightarrow> (case t of None \<Rightarrow> True | Some t \<Rightarrow> dt_ok t)"

lemma times_ok_simps [simp]: "times_ok None" "times_ok (Some t) = dt_ok t"
  by (simp_all add: times_ok_def)

definition opt_map_dec :: "('a \<Rightarrow> json) \<Rightarrow> (json \<Rightarrow> 'b option) \<Rightarrow> ('a \<Rightarrow> 'b) \<Rightarrow> 'a option \<Rightarrow> bool" where
  "opt_map_dec enc dec nrm v \<longleftrightarrow>
     (\<forall>x. v = Some x \<longrightarrow> enc x \<noteq> JNull \<and> dec (enc x) = Some (nrm x))"

text \<open>A field reads back as what was written.\<close>

lemma opt_back:
  "map_of d k = map_option enc v \<Longrightarrow> opt_map_dec enc dec nrm v \<Longrightarrow>
     opt dec k d = Some (map_option nrm v)"
  by (cases v) (auto simp: opt_map_dec_def opt_def)

lemma opt_back_id:
  "map_of d k = map_option enc v \<Longrightarrow> opt_map_dec enc dec (\<lambda>x. x) v \<Longrightarrow> opt dec k d = Some v"
  using opt_back [of d k enc v dec "\<lambda>x. x"] by (simp add: option.map_ident)

lemma req_back: "map_of d k = Some j \<Longrightarrow> dec j = Some v \<Longrightarrow> req dec k d = Some v"
  by (simp add: req_def)

lemma dflt_back: "map_of d k = Some j \<Longrightarrow> dec j = Some v \<Longrightarrow> dflt dec u k d = Some v"
  by (simp add: dflt_def)

lemma opt_back_simps:
  "opt_map_dec JStr dec_str (\<lambda>x. x) v"
  "opt_map_dec disclosure_json dec_disclosure (\<lambda>x. x) dv"
  "opt_map_dec limits_json dec_limits (\<lambda>x. x) lv"
  "opt_map_dec signature_json dec_signature (\<lambda>x. x) sv"
  "opt_map_dec JInt dec_int (\<lambda>x. x) iv"
  "times_ok tv \<Longrightarrow> opt_map_dec json_time dec_time trunc_sec tv"
  "(\<And>e. ev = Some e \<Longrightarrow> evidence_ok e) \<Longrightarrow> opt_map_dec evidence_json dec_evidence evidence_norm ev"
  by (auto simp: opt_map_dec_def parse_iso_instant dec_evidence_json)

lemma dec_all_public_keys [simp]: "dec_all dec_public_key (map public_key_json ks) = Some ks"
  by (simp add: dec_all_map [where h = id, simplified])

section \<open>The manifest\<close>

record manifest =
  mf_node_id :: string
  mf_org_id :: string
  mf_bu_id :: "string option"
  mf_federations :: "string list"
  mf_endpoint :: string
  mf_manifest_url :: "string option"
  mf_protocol_versions :: "string list"
  mf_revision :: int
  mf_public_keys :: "public_key list"
  mf_auth_methods :: "string list"
  mf_membership :: membership
  mf_extensions :: obj
  mf_admission_evidence :: "admission_evidence option"
  mf_disclosure :: "disclosure option"
  mf_limits :: "manifest_limits option"
  mf_issued_at :: "datetime option"
  mf_expires_at :: "datetime option"
  mf_signature :: "signature option"

definition dump_manifest :: "manifest \<Rightarrow> obj" where
  "dump_manifest m =
     [(''node_id'', JStr (mf_node_id m)), (''org_id'', JStr (mf_org_id m))]
     @ opt_field ''bu_id'' JStr (mf_bu_id m)
     @ [(''federations'', json_strs (mf_federations m)), (''endpoint'', JStr (mf_endpoint m))]
     @ opt_field ''manifest_url'' JStr (mf_manifest_url m)
     @ [(''protocol_versions'', json_strs (mf_protocol_versions m)),
        (''revision'', JInt (mf_revision m)),
        (''public_keys'', JArr (map public_key_json (mf_public_keys m))),
        (''auth_methods'', json_strs (mf_auth_methods m)),
        (''membership'', membership_json (mf_membership m)),
        (''extensions'', JObj (mf_extensions m))]
     @ opt_field ''admission_evidence'' evidence_json (mf_admission_evidence m)
     @ opt_field ''disclosure'' disclosure_json (mf_disclosure m)
     @ opt_field ''limits'' limits_json (mf_limits m)
     @ opt_field ''issued_at'' json_time (mf_issued_at m)
     @ opt_field ''expires_at'' json_time (mf_expires_at m)
     @ opt_field ''signature'' signature_json (mf_signature m)"

definition dec_manifest :: "json \<Rightarrow> manifest option" where
  "dec_manifest j = do { d \<leftarrow> dec_obj j;
     node_id \<leftarrow> req dec_str ''node_id'' d;
     org_id \<leftarrow> req dec_str ''org_id'' d;
     bu_id \<leftarrow> opt dec_str ''bu_id'' d;
     federations \<leftarrow> dflt (dec_list dec_str) [] ''federations'' d;
     endpoint \<leftarrow> req dec_str ''endpoint'' d;
     manifest_url \<leftarrow> opt dec_str ''manifest_url'' d;
     protocol_versions \<leftarrow> dflt (dec_list dec_str) [] ''protocol_versions'' d;
     revision \<leftarrow> dflt dec_int 0 ''revision'' d;
     public_keys \<leftarrow> dflt (dec_list dec_public_key) [] ''public_keys'' d;
     auth_methods \<leftarrow> dflt (dec_list dec_str) [''signed_http''] ''auth_methods'' d;
     membership \<leftarrow> req dec_membership ''membership'' d;
     extensions \<leftarrow> dflt dec_obj [] ''extensions'' d;
     admission_evidence \<leftarrow> opt dec_evidence ''admission_evidence'' d;
     disclosure \<leftarrow> opt dec_disclosure ''disclosure'' d;
     limits \<leftarrow> opt dec_limits ''limits'' d;
     issued_at \<leftarrow> opt dec_time ''issued_at'' d;
     expires_at \<leftarrow> opt dec_time ''expires_at'' d;
     signature \<leftarrow> opt dec_signature ''signature'' d;
     Some \<lparr>mf_node_id = node_id, mf_org_id = org_id, mf_bu_id = bu_id,
       mf_federations = federations, mf_endpoint = endpoint, mf_manifest_url = manifest_url,
       mf_protocol_versions = protocol_versions, mf_revision = revision,
       mf_public_keys = public_keys, mf_auth_methods = auth_methods,
       mf_membership = membership, mf_extensions = extensions,
       mf_admission_evidence = admission_evidence, mf_disclosure = disclosure,
       mf_limits = limits, mf_issued_at = issued_at, mf_expires_at = expires_at,
       mf_signature = signature\<rparr> }"

definition manifest_ok :: "manifest \<Rightarrow> bool" where
  "manifest_ok m \<longleftrightarrow>
     extra_ok membership_fields (mb_extra (mf_membership m)) \<and>
     (case mf_admission_evidence m of None \<Rightarrow> True | Some e \<Rightarrow> evidence_ok e) \<and>
     times_ok (mf_issued_at m) \<and> times_ok (mf_expires_at m)"

definition manifest_norm :: "manifest \<Rightarrow> manifest" where
  "manifest_norm m = m\<lparr>
     mf_membership := (mf_membership m)\<lparr>mb_extra := drop_null (mb_extra (mf_membership m))\<rparr>,
     mf_admission_evidence := map_option evidence_norm (mf_admission_evidence m),
     mf_issued_at := map_option trunc_sec (mf_issued_at m),
     mf_expires_at := map_option trunc_sec (mf_expires_at m)\<rparr>"

text \<open>Looking a field up in a dumped manifest.\<close>

lemma dump_manifest_get:
  "map_of (dump_manifest m) ''node_id'' = Some (JStr (mf_node_id m))"
  "map_of (dump_manifest m) ''org_id'' = Some (JStr (mf_org_id m))"
  "map_of (dump_manifest m) ''bu_id'' = map_option JStr (mf_bu_id m)"
  "map_of (dump_manifest m) ''federations'' = Some (json_strs (mf_federations m))"
  "map_of (dump_manifest m) ''endpoint'' = Some (JStr (mf_endpoint m))"
  "map_of (dump_manifest m) ''manifest_url'' = map_option JStr (mf_manifest_url m)"
  "map_of (dump_manifest m) ''protocol_versions'' = Some (json_strs (mf_protocol_versions m))"
  "map_of (dump_manifest m) ''revision'' = Some (JInt (mf_revision m))"
  "map_of (dump_manifest m) ''public_keys'' = Some (JArr (map public_key_json (mf_public_keys m)))"
  "map_of (dump_manifest m) ''auth_methods'' = Some (json_strs (mf_auth_methods m))"
  "map_of (dump_manifest m) ''membership'' = Some (membership_json (mf_membership m))"
  "map_of (dump_manifest m) ''extensions'' = Some (JObj (mf_extensions m))"
  "map_of (dump_manifest m) ''admission_evidence'' = map_option evidence_json (mf_admission_evidence m)"
  "map_of (dump_manifest m) ''disclosure'' = map_option disclosure_json (mf_disclosure m)"
  "map_of (dump_manifest m) ''limits'' = map_option limits_json (mf_limits m)"
  "map_of (dump_manifest m) ''issued_at'' = map_option json_time (mf_issued_at m)"
  "map_of (dump_manifest m) ''expires_at'' = map_option json_time (mf_expires_at m)"
  "map_of (dump_manifest m) ''signature'' = map_option signature_json (mf_signature m)"
  by (simp_all add: dump_manifest_def map_of_append map_add_def split: option.splits)

lemma dec_dump_manifest:
  assumes "manifest_ok m"
  shows "dec_manifest (JObj (dump_manifest m)) = Some (manifest_norm m)"
proof -
  have ok: "extra_ok membership_fields (mb_extra (mf_membership m))"
    "\<And>e. mf_admission_evidence m = Some e \<Longrightarrow> evidence_ok e"
    "times_ok (mf_issued_at m)" "times_ok (mf_expires_at m)"
    using assms by (auto simp: manifest_ok_def)
  note get = dump_manifest_get [of m]
  note fields =
    req_back [where dec = dec_str, OF get(1) dec_simps(1)]
    req_back [where dec = dec_str, OF get(2) dec_simps(1)]
    opt_back_id [where dec = dec_str, OF get(3) opt_back_simps(1)]
    dflt_back [where dec = "dec_list dec_str", OF get(4) dec_list_strs]
    req_back [where dec = dec_str, OF get(5) dec_simps(1)]
    opt_back_id [where dec = dec_str, OF get(6) opt_back_simps(1)]
    dflt_back [where dec = "dec_list dec_str", OF get(7) dec_list_strs]
    dflt_back [where dec = dec_int, OF get(8) dec_simps(2)]
    dflt_back [where dec = "dec_list dec_public_key", OF get(9) trans [OF dec_list_JArr dec_all_public_keys]]
    dflt_back [where dec = "dec_list dec_str", OF get(10) dec_list_strs]
    req_back [where dec = dec_membership, OF get(11) dec_membership_json [OF ok(1)]]
    dflt_back [where dec = dec_obj, OF get(12) dec_simps(4)]
    opt_back [where dec = dec_evidence, OF get(13) opt_back_simps(7) [OF ok(2)]]
    opt_back_id [where dec = dec_disclosure, OF get(14) opt_back_simps(2)]
    opt_back_id [where dec = dec_limits, OF get(15) opt_back_simps(3)]
    opt_back [where dec = dec_time, OF get(16) opt_back_simps(6) [OF ok(3)]]
    opt_back [where dec = dec_time, OF get(17) opt_back_simps(6) [OF ok(4)]]
    opt_back_id [where dec = dec_signature, OF get(18) opt_back_simps(4)]
  show ?thesis
    by (simp add: dec_manifest_def fields manifest_norm_def)
qed

lemma manifest_norm_dump: "dump_manifest (manifest_norm m) = dump_manifest m"
proof -
  have "opt_field k json_time (map_option trunc_sec t) = opt_field k json_time t" for k t
    by (cases t) (simp_all add: json_time_def)
  moreover have "evidence_json (evidence_norm e) = evidence_json e" for e
    by (cases e) simp_all
  then have "opt_field k evidence_json (map_option evidence_norm t) = opt_field k evidence_json t"
    for k t by (cases t) simp_all
  ultimately show ?thesis
    by (simp add: dump_manifest_def manifest_norm_def membership_json_def)
qed

section \<open>Signed requests\<close>

record signed_request =
  sr_federation_id :: string
  sr_request_id :: string
  sr_source_node_id :: string
  sr_target_node_id :: string
  sr_method :: string
  sr_path :: string
  sr_timestamp :: datetime
  sr_nonce :: string
  sr_body_sha256 :: string
  sr_source_manifest_revision :: int
  sr_signature :: "signature option"

definition dump_signed_request :: "signed_request \<Rightarrow> obj" where
  "dump_signed_request r =
     [(''federation_id'', JStr (sr_federation_id r)), (''request_id'', JStr (sr_request_id r)),
      (''source_node_id'', JStr (sr_source_node_id r)),
      (''target_node_id'', JStr (sr_target_node_id r)), (''method'', JStr (sr_method r)),
      (''path'', JStr (sr_path r)), (''timestamp'', json_time (sr_timestamp r)),
      (''nonce'', JStr (sr_nonce r)), (''body_sha256'', JStr (sr_body_sha256 r)),
      (''source_manifest_revision'', JInt (sr_source_manifest_revision r))]
     @ opt_field ''signature'' signature_json (sr_signature r)"

definition dec_signed_request :: "json \<Rightarrow> signed_request option" where
  "dec_signed_request j = do { d \<leftarrow> dec_obj j;
     federation_id \<leftarrow> req dec_str ''federation_id'' d;
     request_id \<leftarrow> req dec_str ''request_id'' d;
     source_node_id \<leftarrow> req dec_str ''source_node_id'' d;
     target_node_id \<leftarrow> req dec_str ''target_node_id'' d;
     method \<leftarrow> req dec_str ''method'' d;
     path \<leftarrow> req dec_str ''path'' d;
     timestamp \<leftarrow> req dec_time ''timestamp'' d;
     nonce \<leftarrow> req dec_str ''nonce'' d;
     body_sha256 \<leftarrow> req dec_str ''body_sha256'' d;
     source_manifest_revision \<leftarrow> dflt dec_int 0 ''source_manifest_revision'' d;
     signature \<leftarrow> opt dec_signature ''signature'' d;
     Some \<lparr>sr_federation_id = federation_id, sr_request_id = request_id,
       sr_source_node_id = source_node_id, sr_target_node_id = target_node_id,
       sr_method = method, sr_path = path, sr_timestamp = timestamp, sr_nonce = nonce,
       sr_body_sha256 = body_sha256, sr_source_manifest_revision = source_manifest_revision,
       sr_signature = signature\<rparr> }"

definition signed_request_ok :: "signed_request \<Rightarrow> bool" where
  "signed_request_ok r \<longleftrightarrow> dt_ok (sr_timestamp r)"

definition signed_request_norm :: "signed_request \<Rightarrow> signed_request" where
  "signed_request_norm r = r\<lparr>sr_timestamp := trunc_sec (sr_timestamp r)\<rparr>"

lemma dec_dump_signed_request:
  "signed_request_ok r \<Longrightarrow>
     dec_signed_request (JObj (dump_signed_request r)) = Some (signed_request_norm r)"
  by (cases "sr_signature r")
    (simp_all add: dec_signed_request_def dump_signed_request_def signed_request_ok_def
      signed_request_norm_def field_simps_json parse_iso_instant)

section \<open>Introductions\<close>

record introduce_request =
  iq_federation_id :: string
  iq_manifest_url :: string
  iq_manifest :: manifest
  iq_requested_disclosure :: string
  iq_nonce :: string
  iq_timestamp :: datetime

definition dump_introduce_request :: "introduce_request \<Rightarrow> obj" where
  "dump_introduce_request r =
     [(''federation_id'', JStr (iq_federation_id r)), (''manifest_url'', JStr (iq_manifest_url r)),
      (''manifest'', JObj (dump_manifest (iq_manifest r))),
      (''requested_disclosure'', JStr (iq_requested_disclosure r)),
      (''nonce'', JStr (iq_nonce r)), (''timestamp'', json_time (iq_timestamp r))]"

definition dec_introduce_request :: "json \<Rightarrow> introduce_request option" where
  "dec_introduce_request j = do { d \<leftarrow> dec_obj j;
     federation_id \<leftarrow> req dec_str ''federation_id'' d;
     manifest_url \<leftarrow> req dec_str ''manifest_url'' d;
     manifest \<leftarrow> req dec_manifest ''manifest'' d;
     requested_disclosure \<leftarrow> dflt dec_str ''federation'' ''requested_disclosure'' d;
     nonce \<leftarrow> req dec_str ''nonce'' d;
     timestamp \<leftarrow> req dec_time ''timestamp'' d;
     Some \<lparr>iq_federation_id = federation_id, iq_manifest_url = manifest_url,
       iq_manifest = manifest, iq_requested_disclosure = requested_disclosure,
       iq_nonce = nonce, iq_timestamp = timestamp\<rparr> }"

lemma dec_dump_introduce_request:
  "manifest_ok (iq_manifest r) \<Longrightarrow> dt_ok (iq_timestamp r) \<Longrightarrow>
     dec_introduce_request (JObj (dump_introduce_request r)) =
       Some (r\<lparr>iq_manifest := manifest_norm (iq_manifest r),
               iq_timestamp := trunc_sec (iq_timestamp r)\<rparr>)"
  by (simp add: dec_introduce_request_def dump_introduce_request_def field_simps_json
      parse_iso_instant dec_dump_manifest)

record introduce_response =
  ir_accepted :: bool
  ir_accepted_node_id :: "string option"
  ir_accepted_manifest_revision :: "int option"
  ir_accepted_until :: "datetime option"
  ir_reason :: "string option"
  ir_membership_cursor :: "string option"
  ir_known_peer_count :: "int option"
  ir_signature :: "signature option"

definition dump_introduce_response :: "introduce_response \<Rightarrow> obj" where
  "dump_introduce_response r =
     [(''accepted'', JBool (ir_accepted r))]
     @ opt_field ''accepted_node_id'' JStr (ir_accepted_node_id r)
     @ opt_field ''accepted_manifest_revision'' JInt (ir_accepted_manifest_revision r)
     @ opt_field ''accepted_until'' json_time (ir_accepted_until r)
     @ opt_field ''reason'' JStr (ir_reason r)
     @ opt_field ''membership_cursor'' JStr (ir_membership_cursor r)
     @ opt_field ''known_peer_count'' JInt (ir_known_peer_count r)
     @ opt_field ''signature'' signature_json (ir_signature r)"

definition dec_introduce_response :: "json \<Rightarrow> introduce_response option" where
  "dec_introduce_response j = do { d \<leftarrow> dec_obj j;
     accepted \<leftarrow> req dec_bool ''accepted'' d;
     accepted_node_id \<leftarrow> opt dec_str ''accepted_node_id'' d;
     accepted_manifest_revision \<leftarrow> opt dec_int ''accepted_manifest_revision'' d;
     accepted_until \<leftarrow> opt dec_time ''accepted_until'' d;
     reason \<leftarrow> opt dec_str ''reason'' d;
     membership_cursor \<leftarrow> opt dec_str ''membership_cursor'' d;
     known_peer_count \<leftarrow> opt dec_int ''known_peer_count'' d;
     signature \<leftarrow> opt dec_signature ''signature'' d;
     Some \<lparr>ir_accepted = accepted, ir_accepted_node_id = accepted_node_id,
       ir_accepted_manifest_revision = accepted_manifest_revision,
       ir_accepted_until = accepted_until, ir_reason = reason,
       ir_membership_cursor = membership_cursor, ir_known_peer_count = known_peer_count,
       ir_signature = signature\<rparr> }"

definition introduce_response_ok :: "introduce_response \<Rightarrow> bool" where
  "introduce_response_ok r \<longleftrightarrow> times_ok (ir_accepted_until r)"

definition introduce_response_norm :: "introduce_response \<Rightarrow> introduce_response" where
  "introduce_response_norm r = r\<lparr>ir_accepted_until := map_option trunc_sec (ir_accepted_until r)\<rparr>"

lemma dump_introduce_response_get:
  "map_of (dump_introduce_response r) ''accepted'' = Some (JBool (ir_accepted r))"
  "map_of (dump_introduce_response r) ''accepted_node_id'' = map_option JStr (ir_accepted_node_id r)"
  "map_of (dump_introduce_response r) ''accepted_manifest_revision'' =
     map_option JInt (ir_accepted_manifest_revision r)"
  "map_of (dump_introduce_response r) ''accepted_until'' = map_option json_time (ir_accepted_until r)"
  "map_of (dump_introduce_response r) ''reason'' = map_option JStr (ir_reason r)"
  "map_of (dump_introduce_response r) ''membership_cursor'' = map_option JStr (ir_membership_cursor r)"
  "map_of (dump_introduce_response r) ''known_peer_count'' = map_option JInt (ir_known_peer_count r)"
  "map_of (dump_introduce_response r) ''signature'' = map_option signature_json (ir_signature r)"
  by (simp_all add: dump_introduce_response_def map_of_append map_add_def split: option.splits)

lemma dec_dump_introduce_response:
  assumes "introduce_response_ok r"
  shows "dec_introduce_response (JObj (dump_introduce_response r)) = Some (introduce_response_norm r)"
proof -
  note get = dump_introduce_response_get [of r]
  have t: "times_ok (ir_accepted_until r)"
    using assms by (simp add: introduce_response_ok_def)
  note fields = req_back [where dec = dec_bool, OF get(1) dec_simps(3)]
    opt_back_id [where dec = dec_str, OF get(2) opt_back_simps(1)]
    opt_back_id [where dec = dec_int, OF get(3) opt_back_simps(5)]
    opt_back [where dec = dec_time, OF get(4) opt_back_simps(6) [OF t]]
    opt_back_id [where dec = dec_str, OF get(5) opt_back_simps(1)]
    opt_back_id [where dec = dec_str, OF get(6) opt_back_simps(1)]
    opt_back_id [where dec = dec_int, OF get(7) opt_back_simps(5)]
    opt_back_id [where dec = dec_signature, OF get(8) opt_back_simps(4)]
  show ?thesis
    by (simp add: dec_introduce_response_def fields introduce_response_norm_def)
qed

section \<open>Membership and revocation messages\<close>

record member_ref =
  rf_node_id :: string
  rf_org_id :: "string option"
  rf_manifest_url :: string
  rf_manifest_revision :: "int option"
  rf_disclosure :: string

definition member_ref_json :: "member_ref \<Rightarrow> json" where
  "member_ref_json r = JObj ([(''node_id'', JStr (rf_node_id r))]
     @ opt_field ''org_id'' JStr (rf_org_id r)
     @ [(''manifest_url'', JStr (rf_manifest_url r))]
     @ opt_field ''manifest_revision'' JInt (rf_manifest_revision r)
     @ [(''disclosure'', JStr (rf_disclosure r))])"

definition dec_member_ref :: "json \<Rightarrow> member_ref option" where
  "dec_member_ref j = do { d \<leftarrow> dec_obj j;
     node_id \<leftarrow> req dec_str ''node_id'' d; org_id \<leftarrow> opt dec_str ''org_id'' d;
     manifest_url \<leftarrow> req dec_str ''manifest_url'' d;
     manifest_revision \<leftarrow> opt dec_int ''manifest_revision'' d;
     disclosure \<leftarrow> dflt dec_str ''federation'' ''disclosure'' d;
     Some \<lparr>rf_node_id = node_id, rf_org_id = org_id, rf_manifest_url = manifest_url,
       rf_manifest_revision = manifest_revision, rf_disclosure = disclosure\<rparr> }"

lemma dec_member_ref_json [simp]: "dec_member_ref (member_ref_json r) = Some r"
  by (cases "rf_org_id r"; cases "rf_manifest_revision r")
    (simp_all add: dec_member_ref_def member_ref_json_def field_simps_json)

record members_response =
  mr_source_node_id :: string
  mr_cursor :: "string option"
  mr_members :: "member_ref list"
  mr_signature :: "signature option"

definition dump_members_response :: "members_response \<Rightarrow> obj" where
  "dump_members_response r =
     [(''source_node_id'', JStr (mr_source_node_id r))]
     @ opt_field ''cursor'' JStr (mr_cursor r)
     @ [(''members'', JArr (map member_ref_json (mr_members r)))]
     @ opt_field ''signature'' signature_json (mr_signature r)"

definition dec_members_response :: "json \<Rightarrow> members_response option" where
  "dec_members_response j = do { d \<leftarrow> dec_obj j;
     source_node_id \<leftarrow> req dec_str ''source_node_id'' d;
     cursor \<leftarrow> opt dec_str ''cursor'' d;
     members \<leftarrow> dflt (dec_list dec_member_ref) [] ''members'' d;
     signature \<leftarrow> opt dec_signature ''signature'' d;
     Some \<lparr>mr_source_node_id = source_node_id, mr_cursor = cursor, mr_members = members,
       mr_signature = signature\<rparr> }"

lemma dec_dump_members_response:
  "dec_members_response (JObj (dump_members_response r)) = Some r"
proof -
  have "dec_all dec_member_ref (map member_ref_json rs) = Some rs" for rs
    by (simp add: dec_all_map [where h = id, simplified])
  then show ?thesis
    by (cases "mr_cursor r"; cases "mr_signature r")
      (simp_all add: dec_members_response_def dump_members_response_def field_simps_json)
qed

record revocation_notice =
  rn_federation_id :: string
  rn_revoked_node_id :: string
  rn_reason :: string
  rn_issued_at :: datetime
  rn_expires_at :: "datetime option"
  rn_issuer :: string
  rn_signature :: "signature option"

definition dump_revocation_notice :: "revocation_notice \<Rightarrow> obj" where
  "dump_revocation_notice n =
     [(''federation_id'', JStr (rn_federation_id n)),
      (''revoked_node_id'', JStr (rn_revoked_node_id n)), (''reason'', JStr (rn_reason n)),
      (''issued_at'', json_time (rn_issued_at n))]
     @ opt_field ''expires_at'' json_time (rn_expires_at n)
     @ [(''issuer'', JStr (rn_issuer n))]
     @ opt_field ''signature'' signature_json (rn_signature n)"

definition dec_revocation_notice :: "json \<Rightarrow> revocation_notice option" where
  "dec_revocation_notice j = do { d \<leftarrow> dec_obj j;
     federation_id \<leftarrow> req dec_str ''federation_id'' d;
     revoked_node_id \<leftarrow> req dec_str ''revoked_node_id'' d;
     reason \<leftarrow> req dec_str ''reason'' d;
     issued_at \<leftarrow> req dec_time ''issued_at'' d;
     expires_at \<leftarrow> opt dec_time ''expires_at'' d;
     issuer \<leftarrow> req dec_str ''issuer'' d;
     signature \<leftarrow> opt dec_signature ''signature'' d;
     Some \<lparr>rn_federation_id = federation_id, rn_revoked_node_id = revoked_node_id,
       rn_reason = reason, rn_issued_at = issued_at, rn_expires_at = expires_at,
       rn_issuer = issuer, rn_signature = signature\<rparr> }"

definition revocation_notice_ok :: "revocation_notice \<Rightarrow> bool" where
  "revocation_notice_ok n \<longleftrightarrow> dt_ok (rn_issued_at n) \<and> times_ok (rn_expires_at n)"

definition revocation_notice_norm :: "revocation_notice \<Rightarrow> revocation_notice" where
  "revocation_notice_norm n = n\<lparr>rn_issued_at := trunc_sec (rn_issued_at n),
     rn_expires_at := map_option trunc_sec (rn_expires_at n)\<rparr>"

lemma dec_dump_revocation_notice:
  "revocation_notice_ok n \<Longrightarrow>
     dec_revocation_notice (JObj (dump_revocation_notice n)) = Some (revocation_notice_norm n)"
  by (cases "rn_expires_at n"; cases "rn_signature n")
    (simp_all add: dec_revocation_notice_def dump_revocation_notice_def revocation_notice_ok_def
      revocation_notice_norm_def field_simps_json parse_iso_instant)

record revocations_response =
  rr_source_node_id :: string
  rr_cursor :: "string option"
  rr_notices :: "revocation_notice list"
  rr_signature :: "signature option"

definition dump_revocations_response :: "revocations_response \<Rightarrow> obj" where
  "dump_revocations_response r =
     [(''source_node_id'', JStr (rr_source_node_id r))]
     @ opt_field ''cursor'' JStr (rr_cursor r)
     @ [(''notices'', JArr (map (\<lambda>n. JObj (dump_revocation_notice n)) (rr_notices r)))]
     @ opt_field ''signature'' signature_json (rr_signature r)"

definition dec_revocations_response :: "json \<Rightarrow> revocations_response option" where
  "dec_revocations_response j = do { d \<leftarrow> dec_obj j;
     source_node_id \<leftarrow> req dec_str ''source_node_id'' d;
     cursor \<leftarrow> opt dec_str ''cursor'' d;
     notices \<leftarrow> dflt (dec_list dec_revocation_notice) [] ''notices'' d;
     signature \<leftarrow> opt dec_signature ''signature'' d;
     Some \<lparr>rr_source_node_id = source_node_id, rr_cursor = cursor, rr_notices = notices,
       rr_signature = signature\<rparr> }"

definition revocations_response_ok :: "revocations_response \<Rightarrow> bool" where
  "revocations_response_ok r \<longleftrightarrow> list_all revocation_notice_ok (rr_notices r)"

definition revocations_response_norm :: "revocations_response \<Rightarrow> revocations_response" where
  "revocations_response_norm r = r\<lparr>rr_notices := map revocation_notice_norm (rr_notices r)\<rparr>"

lemma dec_dump_revocations_response:
  assumes "revocations_response_ok r"
  shows "dec_revocations_response (JObj (dump_revocations_response r)) =
    Some (revocations_response_norm r)"
proof -
  have "dec_all dec_revocation_notice (map (\<lambda>n. JObj (dump_revocation_notice n)) (rr_notices r)) =
      Some (map revocation_notice_norm (rr_notices r))"
    by (rule dec_all_map)
      (use assms in \<open>simp add: revocations_response_ok_def list_all_iff dec_dump_revocation_notice\<close>)
  then show ?thesis
    by (cases "rr_cursor r"; cases "rr_signature r")
      (simp_all add: dec_revocations_response_def dump_revocations_response_def
        revocations_response_norm_def field_simps_json)
qed

end
