(* ===== verification/Operation_Models.thy ===== *)
theory Operation_Models
  imports Wire
begin

text \<open>
  The operation envelopes of \<^verbatim>\<open>operations.py\<close> and the two unsigned probe responses of
  \<^verbatim>\<open>models.py\<close>. The envelope classes refuse unknown members (\<^verbatim>\<open>extra="forbid"\<close>),
  the provenance and the probe responses keep them. Host payloads are arbitrary JSON objects.
\<close>

definition only_fields :: "string list \<Rightarrow> obj \<Rightarrow> unit option" where
  "only_fields fs d = (if list_all (\<lambda>kv. fst kv \<in> set fs) d then Some () else None)"

lemma list_all_opt_field [simp]:
  "list_all P (opt_field k enc v) \<longleftrightarrow> (case v of None \<Rightarrow> True | Some x \<Rightarrow> P (k, enc x))"
  by (cases v) auto

section \<open>Requests\<close>

record operation_request =
  oq_operation_id :: string
  oq_operation :: string
  oq_payload :: obj
  oq_metadata :: obj

definition dump_operation_request :: "operation_request \<Rightarrow> obj" where
  "dump_operation_request r =
     [(''operation_id'', JStr (oq_operation_id r)), (''operation'', JStr (oq_operation r)),
      (''payload'', JObj (oq_payload r)), (''metadata'', JObj (oq_metadata r))]"

definition dec_operation_request :: "json \<Rightarrow> operation_request option" where
  "dec_operation_request j = do { d \<leftarrow> dec_obj j;
     _ \<leftarrow> only_fields [''operation_id'', ''operation'', ''payload'', ''metadata''] d;
     operation_id \<leftarrow> req dec_str ''operation_id'' d; operation \<leftarrow> req dec_str ''operation'' d;
     payload \<leftarrow> dflt dec_obj [] ''payload'' d; metadata \<leftarrow> dflt dec_obj [] ''metadata'' d;
     Some \<lparr>oq_operation_id = operation_id, oq_operation = operation, oq_payload = payload,
       oq_metadata = metadata\<rparr> }"

lemma dec_dump_operation_request:
  "dec_operation_request (JObj (dump_operation_request r)) = Some r"
  by (simp add: dec_operation_request_def dump_operation_request_def only_fields_def field_simps_json)

section \<open>Items and responses\<close>

record payload_provenance =
  pp_node_id :: string
  pp_content_hash :: "string option"
  pp_extra :: obj

definition provenance_fields :: "string list" where
  "provenance_fields = [''node_id'', ''content_hash'']"

definition provenance_json :: "payload_provenance \<Rightarrow> json" where
  "provenance_json p = JObj ([(''node_id'', JStr (pp_node_id p))]
     @ opt_field ''content_hash'' JStr (pp_content_hash p) @ drop_null (pp_extra p))"

definition dec_provenance :: "json \<Rightarrow> payload_provenance option" where
  "dec_provenance j = do { d \<leftarrow> dec_obj j;
     n \<leftarrow> req dec_str ''node_id'' d; h \<leftarrow> opt dec_str ''content_hash'' d;
     Some \<lparr>pp_node_id = n, pp_content_hash = h, pp_extra = dec_extra provenance_fields d\<rparr> }"

definition provenance_ok :: "payload_provenance \<Rightarrow> bool" where
  "provenance_ok p \<longleftrightarrow> extra_ok provenance_fields (pp_extra p)"

definition provenance_norm :: "payload_provenance \<Rightarrow> payload_provenance" where
  "provenance_norm p = p\<lparr>pp_extra := drop_null (pp_extra p)\<rparr>"

lemma dec_provenance_json:
  "provenance_ok p \<Longrightarrow> dec_provenance (provenance_json p) = Some (provenance_norm p)"
  by (cases "pp_content_hash p")
    (simp_all add: dec_provenance_def provenance_json_def provenance_ok_def provenance_norm_def
      field_simps_json map_of_extra dec_extra_drop provenance_fields_def)

record operation_item =
  oi_payload :: obj
  oi_provenance :: "payload_provenance option"
  oi_signature :: "signature option"

definition dump_operation_item :: "operation_item \<Rightarrow> obj" where
  "dump_operation_item i =
     [(''payload'', JObj (oi_payload i))]
     @ opt_field ''provenance'' provenance_json (oi_provenance i)
     @ opt_field ''signature'' signature_json (oi_signature i)"

definition dec_operation_item :: "json \<Rightarrow> operation_item option" where
  "dec_operation_item j = do { d \<leftarrow> dec_obj j;
     _ \<leftarrow> only_fields [''payload'', ''provenance'', ''signature''] d;
     payload \<leftarrow> dflt dec_obj [] ''payload'' d;
     provenance \<leftarrow> opt dec_provenance ''provenance'' d;
     signature \<leftarrow> opt dec_signature ''signature'' d;
     Some \<lparr>oi_payload = payload, oi_provenance = provenance, oi_signature = signature\<rparr> }"

definition operation_item_ok :: "operation_item \<Rightarrow> bool" where
  "operation_item_ok i \<longleftrightarrow> (case oi_provenance i of None \<Rightarrow> True | Some p \<Rightarrow> provenance_ok p)"

definition operation_item_norm :: "operation_item \<Rightarrow> operation_item" where
  "operation_item_norm i = i\<lparr>oi_provenance := map_option provenance_norm (oi_provenance i)\<rparr>"

lemma provenance_json_not_null [simp]: "provenance_json p \<noteq> JNull"
  by (simp add: provenance_json_def)

lemma dec_dump_operation_item:
  "operation_item_ok i \<Longrightarrow>
     dec_operation_item (JObj (dump_operation_item i)) = Some (operation_item_norm i)"
  by (cases "oi_provenance i"; cases "oi_signature i")
    (simp_all add: dec_operation_item_def dump_operation_item_def operation_item_ok_def
      operation_item_norm_def only_fields_def field_simps_json dec_provenance_json)

record operation_response =
  or_operation_id :: string
  or_source_node_id :: string
  or_payload :: obj
  or_items :: "operation_item list"
  or_metadata :: obj
  or_signature :: "signature option"

definition dump_operation_response :: "operation_response \<Rightarrow> obj" where
  "dump_operation_response r =
     [(''operation_id'', JStr (or_operation_id r)), (''source_node_id'', JStr (or_source_node_id r)),
      (''payload'', JObj (or_payload r)),
      (''items'', JArr (map (\<lambda>i. JObj (dump_operation_item i)) (or_items r))),
      (''metadata'', JObj (or_metadata r))]
     @ opt_field ''signature'' signature_json (or_signature r)"

definition dec_operation_response :: "json \<Rightarrow> operation_response option" where
  "dec_operation_response j = do { d \<leftarrow> dec_obj j;
     _ \<leftarrow> only_fields [''operation_id'', ''source_node_id'', ''payload'', ''items'', ''metadata'',
       ''signature''] d;
     operation_id \<leftarrow> req dec_str ''operation_id'' d;
     source_node_id \<leftarrow> req dec_str ''source_node_id'' d;
     payload \<leftarrow> dflt dec_obj [] ''payload'' d;
     items \<leftarrow> dflt (dec_list dec_operation_item) [] ''items'' d;
     metadata \<leftarrow> dflt dec_obj [] ''metadata'' d;
     signature \<leftarrow> opt dec_signature ''signature'' d;
     Some \<lparr>or_operation_id = operation_id, or_source_node_id = source_node_id,
       or_payload = payload, or_items = items, or_metadata = metadata,
       or_signature = signature\<rparr> }"

definition operation_response_ok :: "operation_response \<Rightarrow> bool" where
  "operation_response_ok r \<longleftrightarrow> list_all operation_item_ok (or_items r)"

definition operation_response_norm :: "operation_response \<Rightarrow> operation_response" where
  "operation_response_norm r = r\<lparr>or_items := map operation_item_norm (or_items r)\<rparr>"

lemma dec_dump_operation_response:
  assumes "operation_response_ok r"
  shows "dec_operation_response (JObj (dump_operation_response r)) = Some (operation_response_norm r)"
proof -
  have "dec_all dec_operation_item (map (\<lambda>i. JObj (dump_operation_item i)) (or_items r)) =
      Some (map operation_item_norm (or_items r))"
    by (rule dec_all_map)
      (use assms in \<open>simp add: operation_response_ok_def list_all_iff dec_dump_operation_item\<close>)
  then show ?thesis
    by (cases "or_signature r")
      (simp_all add: dec_operation_response_def dump_operation_response_def
        operation_response_norm_def only_fields_def field_simps_json)
qed

section \<open>Probe responses\<close>

record protocol_response =
  pr_protocol_versions :: "string list"
  pr_auth_methods :: "string list"
  pr_node_id :: "string option"
  pr_manifest_revision :: "int option"
  pr_limits :: "manifest_limits option"
  pr_extra :: obj

definition dec_protocol_response :: "json \<Rightarrow> protocol_response option" where
  "dec_protocol_response j = do { d \<leftarrow> dec_obj j;
     protocol_versions \<leftarrow> dflt (dec_list dec_str) [] ''protocol_versions'' d;
     auth_methods \<leftarrow> dflt (dec_list dec_str) [] ''auth_methods'' d;
     node_id \<leftarrow> opt dec_str ''node_id'' d;
     manifest_revision \<leftarrow> opt dec_int ''manifest_revision'' d;
     limits \<leftarrow> opt dec_limits ''limits'' d;
     Some \<lparr>pr_protocol_versions = protocol_versions, pr_auth_methods = auth_methods,
       pr_node_id = node_id, pr_manifest_revision = manifest_revision, pr_limits = limits,
       pr_extra = dec_extra [''protocol_versions'', ''auth_methods'', ''node_id'',
         ''manifest_revision'', ''limits''] d\<rparr> }"

record health_response =
  hr_status :: string
  hr_node_id :: "string option"
  hr_extra :: obj

definition dec_health_response :: "json \<Rightarrow> health_response option" where
  "dec_health_response j = do { d \<leftarrow> dec_obj j;
     status \<leftarrow> dflt dec_str ''ok'' ''status'' d; node_id \<leftarrow> opt dec_str ''node_id'' d;
     Some \<lparr>hr_status = status, hr_node_id = node_id,
       hr_extra = dec_extra [''status'', ''node_id''] d\<rparr> }"

text \<open>The defaults of the two probe responses: an empty object is a healthy answer.\<close>

lemma dec_health_empty:
  "dec_health_response (JObj []) = Some \<lparr>hr_status = ''ok'', hr_node_id = None, hr_extra = []\<rparr>"
  by (simp add: dec_health_response_def field_simps_json)

end
