(* ===== verification/Crypto_Sign.thy ===== *)
theory Crypto_Sign
  imports Base64url Sha256 Operation_Models
begin

text \<open>
  Detached signatures over canonical JSON (\<^verbatim>\<open>crypto.py\<close> and the model-independent part of
  \<^verbatim>\<open>signing.py\<close>). The Ed25519 primitives and the RFC 8785 serializer are third-party code
  and come in as the record \<open>crypto_lib\<close>; what the package relies on is \<open>crypto_ok\<close>.

  The locale \<open>signed_model\<close> is the contract between \<open>sign_model\<close>/\<open>verify_model\<close> and a
  wire class with a \<open>signature\<close> field; every signed class of the package interprets it.
\<close>

section \<open>Keys\<close>

text \<open>A private key is its 32-byte seed, a public key its 32 raw bytes.\<close>

record crypto_lib =
  cl_public :: "bytes \<Rightarrow> bytes"
  cl_sign :: "bytes \<Rightarrow> bytes \<Rightarrow> bytes"
  cl_verify :: "bytes \<Rightarrow> bytes \<Rightarrow> bytes \<Rightarrow> bool"
  cl_jcs :: "json \<Rightarrow> bytes result"

definition crypto_ok :: "crypto_lib \<Rightarrow> bool" where
  "crypto_ok L \<longleftrightarrow>
     (\<forall>k. length (cl_public L k) = 32) \<and>
     (\<forall>k d. cl_verify L (cl_public L k) (cl_sign L k d) d)"

text \<open>\<^verbatim>\<open>rfc8785.dumps\<close> writes two values alike only when they are equal as JSON.\<close>

definition jcs_injective :: "crypto_lib \<Rightarrow> bool" where
  "jcs_injective L \<longleftrightarrow>
     (\<forall>a b x. cl_jcs L a = Inr x \<longrightarrow> cl_jcs L b = Inr x \<longrightarrow> json_equiv a b)"

definition jwk_of_raw :: "bytes \<Rightarrow> jwk" where
  "jwk_of_raw raw = [(''kty'', ''OKP''), (''crv'', ''Ed25519''), (''alg'', ''EdDSA''),
     (''x'', b64u_encode raw)]"

definition public_jwk :: "crypto_lib \<Rightarrow> bytes \<Rightarrow> jwk" where
  "public_jwk L key = jwk_of_raw (cl_public L key)"

definition public_key_from_jwk :: "jwk \<Rightarrow> bytes result" where
  "public_key_from_jwk j =
     (if map_of j ''kty'' \<noteq> Some ''OKP'' \<or> map_of j ''crv'' \<noteq> Some ''Ed25519''
      then Inl (ValueError ''unsupported JWK; expected OKP/Ed25519'')
      else (case map_of j ''x'' of
        None \<Rightarrow> Inl (KeyError ''x'')
      | Some x \<Rightarrow> rbind (b64u_decode x) (\<lambda>raw.
          if length raw = 32 then Inr raw
          else Inl (ValueError ''An Ed25519 public key is 32 bytes long''))))"

lemma public_key_of_jwk: "length raw = 32 \<Longrightarrow> public_key_from_jwk (jwk_of_raw raw) = Inr raw"
  by (simp add: public_key_from_jwk_def jwk_of_raw_def)

text \<open>The only exception besides \<^verbatim>\<open>ValueError\<close> is the missing \<open>x\<close>.\<close>

lemma public_key_from_jwk_error:
  "public_key_from_jwk j = Inl e \<Longrightarrow> is_value_error e \<or> e = KeyError ''x'' \<and> map_of j ''x'' = None"
  by (auto simp: public_key_from_jwk_def result_simps dest: b64u_decode_error
      split: if_splits option.splits)

section \<open>Signing and verifying bytes\<close>

definition sign_bytes :: "crypto_lib \<Rightarrow> bytes \<Rightarrow> bytes \<Rightarrow> string" where
  "sign_bytes L key data = b64u_encode (cl_sign L key data)"

text \<open>\<^verbatim>\<open>except (InvalidSignature, ValueError): return False\<close>\<close>

definition catch_bad_signature :: "unit result \<Rightarrow> bool result" where
  "catch_bad_signature r =
     (case r of Inr _ \<Rightarrow> Inr True
      | Inl e \<Rightarrow> if e = InvalidSignature \<or> is_value_error e then Inr False else Inl e)"

definition verify_bytes :: "crypto_lib \<Rightarrow> jwk \<Rightarrow> string \<Rightarrow> bytes \<Rightarrow> bool result" where
  "verify_bytes L j sig data =
     catch_bad_signature (rbind (public_key_from_jwk j) (\<lambda>pk. rbind (b64u_decode sig) (\<lambda>s.
       if cl_verify L pk s data then Inr () else Inl InvalidSignature)))"

lemma verify_bytes_True:
  "verify_bytes L j sig data = Inr True \<longleftrightarrow>
     (\<exists>pk s. public_key_from_jwk j = Inr pk \<and> b64u_decode sig = Inr s \<and> cl_verify L pk s data)"
  by (auto simp: verify_bytes_def catch_bad_signature_def result_simps split: sum.splits if_splits)

lemma verify_bytes_signed:
  "crypto_ok L \<Longrightarrow> verify_bytes L (public_jwk L key) (sign_bytes L key data) data = Inr True"
  by (simp add: verify_bytes_True public_jwk_def sign_bytes_def public_key_of_jwk crypto_ok_def)

lemma verify_bytes_error:
  "verify_bytes L j sig data = Inl e \<Longrightarrow> e = KeyError ''x'' \<and> map_of j ''x'' = None"
  by (auto simp: verify_bytes_def catch_bad_signature_def result_simps
      dest: public_key_from_jwk_error b64u_decode_error split: sum.splits if_splits)

section \<open>Signing and verifying dictionaries\<close>

definition unsigned_body :: "obj \<Rightarrow> obj" where
  "unsigned_body d = filter (\<lambda>(k, v). k \<noteq> ''signature'') d"

definition sign_dict :: "crypto_lib \<Rightarrow> obj \<Rightarrow> bytes \<Rightarrow> string \<Rightarrow> obj result" where
  "sign_dict L payload key key_id =
     rbind (cl_jcs L (JObj (unsigned_body payload))) (\<lambda>data.
       Inr (dict_set ''signature''
         (signature_json \<lparr>sig_key_id = key_id, sig_alg = ''EdDSA'', sig_sig = sign_bytes L key data\<rparr>)
         payload))"

fun json_falsy :: "json \<Rightarrow> bool" where
  "json_falsy JNull = True"
| "json_falsy (JBool b) = (\<not> b)"
| "json_falsy (JInt i) = (i = 0)"
| "json_falsy (JFloat w) = (w = 0 \<or> w = push_bit 63 1)"
| "json_falsy (JStr s) = (s = [])"
| "json_falsy (JArr xs) = (xs = [])"
| "json_falsy (JObj d) = (d = [])"

definition type_error :: exc where
  "type_error = OtherException ''TypeError'' []"

definition verify_dict :: "crypto_lib \<Rightarrow> obj \<Rightarrow> jwk \<Rightarrow> bool result" where
  "verify_dict L payload j =
     (case map_of payload ''signature'' of
        None \<Rightarrow> Inr False
      | Some sig \<Rightarrow>
          if json_falsy sig then Inr False
          else (case sig of
            JObj d \<Rightarrow> (case map_of d ''sig'' of
                None \<Rightarrow> Inl (KeyError ''sig'')
              | Some sv \<Rightarrow> rbind (cl_jcs L (JObj (unsigned_body payload))) (\<lambda>data.
                  case sv of
                    JStr s \<Rightarrow> verify_bytes L j s data
                  | _ \<Rightarrow> catch_bad_signature (rbind (public_key_from_jwk j) (\<lambda>_. Inl type_error))))
          | _ \<Rightarrow> Inl type_error))"

section \<open>Signing and verifying models\<close>

definition sign_model ::
    "crypto_lib \<Rightarrow> ('m \<Rightarrow> obj) \<Rightarrow> (json \<Rightarrow> 'm result) \<Rightarrow> 'm \<Rightarrow> bytes \<Rightarrow> string \<Rightarrow> 'm result" where
  "sign_model L dump validate m key key_id =
     rbind (sign_dict L (dump m) key key_id) (\<lambda>d. validate (JObj d))"

definition verify_model :: "crypto_lib \<Rightarrow> ('m \<Rightarrow> obj) \<Rightarrow> 'm \<Rightarrow> jwk \<Rightarrow> bool result" where
  "verify_model L dump m j = verify_dict L (dump m) j"

text \<open>What is relied on of \<^verbatim>\<open>model_validate\<close>: well-typed input is read as declared.\<close>

definition reads :: "(json \<Rightarrow> 'm result) \<Rightarrow> (json \<Rightarrow> 'm option) \<Rightarrow> bool" where
  "reads validate dec \<longleftrightarrow> (\<forall>j m. dec j = Some m \<longrightarrow> validate j = Inr m)"

fun find_jwk :: "public_key list \<Rightarrow> string \<Rightarrow> jwk option" where
  "find_jwk [] key_id = None"
| "find_jwk (k # ks) key_id =
     (if pk_key_id k = key_id then Some (pk_public_jwk k) else find_jwk ks key_id)"

lemma find_jwk_Some:
  "find_jwk ks kid = Some j \<Longrightarrow> \<exists>k \<in> set ks. pk_key_id k = kid \<and> pk_public_jwk k = j"
  by (induction ks) (auto split: if_splits)

lemma find_jwk_None: "find_jwk ks kid = None \<longleftrightarrow> (\<forall>k \<in> set ks. pk_key_id k \<noteq> kid)"
  by (induction ks) auto

text \<open>
  A signed wire class: its dump is a dictionary whose member \<open>signature\<close> is the field,
  assigning the field only changes that member, and its decoder reads the dump.
\<close>

locale signed_model =
  fixes dump :: "'m \<Rightarrow> obj"
    and dec :: "json \<Rightarrow> 'm option"
    and norm :: "'m \<Rightarrow> 'm"
    and ok :: "'m \<Rightarrow> bool"
    and get_sig :: "'m \<Rightarrow> signature option"
    and set_sig :: "signature \<Rightarrow> 'm \<Rightarrow> 'm"
  assumes dump_sig: "map_of (dump m) ''signature'' = map_option signature_json (get_sig m)"
    and dump_set_sig: "dump (set_sig s m) = dict_set ''signature'' (signature_json s) (dump m)"
    and get_set_sig: "get_sig (set_sig s m) = Some s"
    and ok_set_sig: "ok (set_sig s m) = ok m"
    and dec_dump: "ok m \<Longrightarrow> dec (JObj (dump m)) = Some (norm m)"
    and dump_norm: "dump (norm m) = dump m"
begin

lemma get_sig_norm: "map_option signature_json (get_sig (norm m)) = map_option signature_json (get_sig m)"
  by (simp flip: dump_sig add: dump_norm)

lemma body_set_sig: "unsigned_body (dump (set_sig s m)) = unsigned_body (dump m)"
proof -
  have "unsigned_body (dict_set ''signature'' v d) = unsigned_body d" for v d
    by (induction d) (auto simp: unsigned_body_def)
  then show ?thesis by (simp add: dump_set_sig)
qed

lemma verify_model_eq:
  "verify_model L dump m j =
     (case get_sig m of None \<Rightarrow> Inr False
      | Some s \<Rightarrow> rbind (cl_jcs L (JObj (unsigned_body (dump m)))) (verify_bytes L j (sig_sig s)))"
  by (cases "get_sig m")
    (auto simp: verify_model_def verify_dict_def dump_sig signature_json_def intro: rbind_cong)

lemma verify_model_True:
  "verify_model L dump m j = Inr True \<longleftrightarrow>
     (\<exists>s data. get_sig m = Some s \<and> cl_jcs L (JObj (unsigned_body (dump m))) = Inr data \<and>
        verify_bytes L j (sig_sig s) data = Inr True)"
  by (auto simp: verify_model_eq result_simps split: option.splits)

lemma sign_model_eq:
  assumes "ok m" "reads validate dec" "cl_jcs L (JObj (unsigned_body (dump m))) = Inr data"
  shows "sign_model L dump validate m key kid =
    Inr (norm (set_sig \<lparr>sig_key_id = kid, sig_alg = ''EdDSA'', sig_sig = sign_bytes L key data\<rparr> m))"
  using assms dec_dump
  by (simp add: sign_model_def sign_dict_def reads_def ok_set_sig flip: dump_set_sig)

lemma verify_sign_model:
  assumes "crypto_ok L" "cl_jcs L (JObj (unsigned_body (dump m))) = Inr data"
  shows "verify_model L dump
      (norm (set_sig \<lparr>sig_key_id = kid, sig_alg = ''EdDSA'', sig_sig = sign_bytes L key data\<rparr> m))
      (public_jwk L key) = Inr True"
proof -
  let ?s = "\<lparr>sig_key_id = kid, sig_alg = ''EdDSA'', sig_sig = sign_bytes L key data\<rparr>"
  have "verify_model L dump (norm (set_sig ?s m)) (public_jwk L key) =
      verify_model L dump (set_sig ?s m) (public_jwk L key)"
    by (simp add: verify_model_def dump_norm)
  also have "\<dots> = Inr True"
    by (simp add: verify_model_eq get_set_sig body_set_sig assms verify_bytes_signed)
  finally show ?thesis .
qed

text \<open>
  Under keys whose owner only ever signed the given messages, a model that verifies has the
  content of one of them.
\<close>

lemma verified_content:
  assumes "verify_model L dump m j = Inr True" "public_key_from_jwk j = Inr pk"
    and forge: "\<And>s d. cl_verify L pk s d \<Longrightarrow> d \<in> sigs"
    and signed: "\<And>d. d \<in> sigs \<Longrightarrow> \<exists>m' \<in> originals. cl_jcs L (JObj (unsigned_body (dump m'))) = Inr d"
    and inj: "jcs_injective L"
  shows "\<exists>m' \<in> originals. json_equiv (JObj (unsigned_body (dump m))) (JObj (unsigned_body (dump m')))"
proof -
  obtain data where data: "cl_jcs L (JObj (unsigned_body (dump m))) = Inr data" "data \<in> sigs"
    using assms(1,2) forge by (auto simp: verify_model_True verify_bytes_True)
  then obtain m' where "m' \<in> originals" "cl_jcs L (JObj (unsigned_body (dump m'))) = Inr data"
    using signed by blast
  then show ?thesis
    using data inj unfolding jcs_injective_def by blast
qed

end

section \<open>The signed classes\<close>

lemma update_opt_field [simp]:
  "dict_set k v (opt_field k enc w) = [(k, v)]"
  by (cases w) auto

lemma update_append:
  "k \<notin> fst ` set xs \<Longrightarrow> dict_set k v (xs @ ys) = xs @ dict_set k v ys"
  by (induction xs) auto

text \<open>Cutting timestamps and null members does not change a dump.\<close>

lemma time_field_norm [simp]: "opt_field k json_time (map_option trunc_sec t) = opt_field k json_time t"
  by (cases t) (simp_all add: json_time_def)

lemma dump_introduce_response_norm:
  "dump_introduce_response (introduce_response_norm r) = dump_introduce_response r"
  by (simp add: dump_introduce_response_def introduce_response_norm_def)

lemma dump_revocation_notice_norm:
  "dump_revocation_notice (revocation_notice_norm r) = dump_revocation_notice r"
  by (simp add: dump_revocation_notice_def revocation_notice_norm_def json_time_def)

lemma dump_operation_item_norm: "dump_operation_item (operation_item_norm i) = dump_operation_item i"
  by (cases "oi_provenance i")
    (simp_all add: dump_operation_item_def operation_item_norm_def provenance_json_def
      provenance_norm_def)

lemmas sig_last = update_append fst_opt_field

interpretation manifest_wire: signed_model dump_manifest dec_manifest manifest_norm manifest_ok
  mf_signature "\<lambda>s m. m\<lparr>mf_signature := Some s\<rparr>"
  by unfold_locales
    (simp_all add: dump_manifest_get dec_dump_manifest manifest_norm_dump manifest_ok_def,
     simp add: dump_manifest_def sig_last)

interpretation request_wire: signed_model dump_signed_request dec_signed_request
  signed_request_norm signed_request_ok sr_signature "\<lambda>s m. m\<lparr>sr_signature := Some s\<rparr>"
  by unfold_locales
    (simp_all add: dec_dump_signed_request signed_request_ok_def,
     simp_all add: dump_signed_request_def sig_last map_of_append map_add_def
       signed_request_norm_def json_time_def split: option.splits)

interpretation introduce_response_wire: signed_model dump_introduce_response dec_introduce_response
  introduce_response_norm introduce_response_ok ir_signature "\<lambda>s m. m\<lparr>ir_signature := Some s\<rparr>"
  by unfold_locales
    (simp_all add: dump_introduce_response_get dec_dump_introduce_response introduce_response_ok_def
      dump_introduce_response_norm,
     simp add: dump_introduce_response_def sig_last)

interpretation members_wire: signed_model dump_members_response dec_members_response
  "\<lambda>m. m" "\<lambda>_. True" mr_signature "\<lambda>s m. m\<lparr>mr_signature := Some s\<rparr>"
  by unfold_locales
    (simp_all add: dec_dump_members_response,
     simp_all add: dump_members_response_def sig_last map_of_append map_add_def split: option.splits)

interpretation revocation_wire: signed_model dump_revocation_notice dec_revocation_notice
  revocation_notice_norm revocation_notice_ok rn_signature "\<lambda>s m. m\<lparr>rn_signature := Some s\<rparr>"
  by unfold_locales
    (simp_all add: dec_dump_revocation_notice dump_revocation_notice_norm revocation_notice_ok_def,
     simp_all add: dump_revocation_notice_def sig_last map_of_append map_add_def split: option.splits)

interpretation revocations_wire: signed_model dump_revocations_response dec_revocations_response
  revocations_response_norm revocations_response_ok rr_signature
  "\<lambda>s m. m\<lparr>rr_signature := Some s\<rparr>"
  by unfold_locales
    (simp_all add: dec_dump_revocations_response revocations_response_ok_def,
     simp_all add: dump_revocations_response_def sig_last map_of_append map_add_def
       revocations_response_norm_def dump_revocation_notice_norm comp_def split: option.splits)

interpretation item_wire: signed_model dump_operation_item dec_operation_item
  operation_item_norm operation_item_ok oi_signature "\<lambda>s m. m\<lparr>oi_signature := Some s\<rparr>"
  by unfold_locales
    (simp_all add: dec_dump_operation_item dump_operation_item_norm operation_item_ok_def,
     simp_all add: dump_operation_item_def sig_last map_of_append map_add_def split: option.splits)

interpretation operation_response_wire: signed_model dump_operation_response dec_operation_response
  operation_response_norm operation_response_ok or_signature
  "\<lambda>s m. m\<lparr>or_signature := Some s\<rparr>"
  by unfold_locales
    (simp_all add: dec_dump_operation_response operation_response_ok_def,
     simp_all add: dump_operation_response_def sig_last map_of_append map_add_def
       operation_response_norm_def dump_operation_item_norm comp_def split: option.splits)

end
