(* ===== verification/Signing.thy ===== *)
theory Signing
  imports Crypto_Sign
begin

text \<open>
  Manifest, response and revocation signatures, and signed request envelopes
  (\<^verbatim>\<open>signing.py\<close>). Functions that read the clock take the reading as an argument
  \<open>now\<close>; the validators of pydantic and the nonce cache are parameters.
\<close>

section \<open>Manifests\<close>

definition sign_manifest ::
    "crypto_lib \<Rightarrow> (json \<Rightarrow> manifest result) \<Rightarrow> manifest \<Rightarrow> bytes \<Rightarrow> string \<Rightarrow> manifest result" where
  "sign_manifest L validate m key key_id = sign_model L dump_manifest validate m key key_id"

definition expired_after :: "datetime \<Rightarrow> timedelta \<Rightarrow> datetime option \<Rightarrow> bool result" where
  "expired_after now skew expires_at =
     (case expires_at of None \<Rightarrow> Inr False
      | Some e \<Rightarrow> rbind (dt_add e skew) (\<lambda>limit. Inr (limit < now)))"

definition not_yet_valid_at :: "datetime \<Rightarrow> timedelta \<Rightarrow> datetime option \<Rightarrow> bool result" where
  "not_yet_valid_at now skew issued_at =
     (case issued_at of None \<Rightarrow> Inr False
      | Some i \<Rightarrow> rbind (dt_sub i skew) (\<lambda>limit. Inr (now < limit)))"

definition check_manifest ::
    "crypto_lib \<Rightarrow> datetime \<Rightarrow> manifest \<Rightarrow> int \<Rightarrow> (bool \<times> string) result" where
  "check_manifest L now m max_skew_seconds =
     (case mf_signature m of
        None \<Rightarrow> Inr (False, ''unsigned'')
      | Some s \<Rightarrow> (case find_jwk (mf_public_keys m) (sig_key_id s) of
          None \<Rightarrow> Inr (False, ''unknown_key'')
        | Some j \<Rightarrow> rbind (verify_model L dump_manifest m j) (\<lambda>ok.
            if \<not> ok then Inr (False, ''bad_signature'')
            else rbind (td_seconds max_skew_seconds) (\<lambda>skew.
              rbind (expired_after now skew (mf_expires_at m)) (\<lambda>expired.
                if expired then Inr (False, ''expired'')
                else rbind (not_yet_valid_at now skew (mf_issued_at m)) (\<lambda>early.
                  if early then Inr (False, ''not_yet_valid'') else Inr (True, ''ok'')))))))"

definition verify_manifest :: "crypto_lib \<Rightarrow> datetime \<Rightarrow> manifest \<Rightarrow> int \<Rightarrow> bool result" where
  "verify_manifest L now m max_skew_seconds =
     rbind (check_manifest L now m max_skew_seconds) (\<lambda>(ok, reason). Inr ok)"

text \<open>The manifest's content is signed by a key it advertises itself.\<close>

definition self_signed :: "crypto_lib \<Rightarrow> manifest \<Rightarrow> bool" where
  "self_signed L m \<longleftrightarrow>
     (\<exists>s j. mf_signature m = Some s \<and> find_jwk (mf_public_keys m) (sig_key_id s) = Some j \<and>
        verify_model L dump_manifest m j = Inr True)"

definition fresh_at :: "datetime \<Rightarrow> int \<Rightarrow> manifest \<Rightarrow> bool" where
  "fresh_at now skew m \<longleftrightarrow>
     (\<forall>e. mf_expires_at m = Some e \<longrightarrow> dt_ok (e + skew * usec) \<and> now \<le> e + skew * usec) \<and>
     (\<forall>i. mf_issued_at m = Some i \<longrightarrow> dt_ok (i - skew * usec) \<and> i - skew * usec \<le> now)"

lemma check_manifest_ok_iff:
  "check_manifest L now m skew = Inr (True, ''ok'') \<longleftrightarrow>
     self_signed L m \<and> td_ok (skew * usec) \<and> fresh_at now skew m"
  by (auto simp: check_manifest_def self_signed_def fresh_at_def result_simps expired_after_def
      not_yet_valid_at_def td_seconds_def dt_add_def dt_sub_def not_less
      split: option.splits if_splits)

lemma check_manifest_True: "check_manifest L now m skew = Inr (True, r) \<Longrightarrow> r = ''ok''"
  by (auto simp: check_manifest_def result_simps split: option.splits if_splits)

lemma check_manifest_True_iff:
  "check_manifest L now m skew = Inr (True, r) \<longleftrightarrow>
     r = ''ok'' \<and> self_signed L m \<and> td_ok (skew * usec) \<and> fresh_at now skew m"
  using check_manifest_True [of L now m skew r] check_manifest_ok_iff [of L now m skew] by auto

lemma check_manifest_reasons:
  "check_manifest L now m skew = Inr (False, r) \<Longrightarrow>
     r \<in> {''unsigned'', ''unknown_key'', ''bad_signature'', ''expired'', ''not_yet_valid''}"
  by (auto simp: check_manifest_def result_simps split: option.splits if_splits)

text \<open>What \<open>sign_manifest\<close> returns for a manifest that advertises the signing key.\<close>

lemma sign_manifest_eq:
  assumes "crypto_ok L" "reads validate dec_manifest" "manifest_ok m"
    and "find_jwk (mf_public_keys m) kid = Some (public_jwk L key)"
    and "cl_jcs L (JObj (unsigned_body (dump_manifest m))) = Inr data"
  obtains s where "sign_manifest L validate m key kid = Inr (manifest_norm (m\<lparr>mf_signature := Some s\<rparr>))"
    "self_signed L (manifest_norm (m\<lparr>mf_signature := Some s\<rparr>))"
proof
  let ?s = "\<lparr>sig_key_id = kid, sig_alg = ''EdDSA'', sig_sig = sign_bytes L key data\<rparr>"
  show "sign_manifest L validate m key kid = Inr (manifest_norm (m\<lparr>mf_signature := Some ?s\<rparr>))"
    unfolding sign_manifest_def by (rule manifest_wire.sign_model_eq [OF assms(3,2,5)])
  have "verify_model L dump_manifest (manifest_norm (m\<lparr>mf_signature := Some ?s\<rparr>)) (public_jwk L key) = Inr True"
    by (rule manifest_wire.verify_sign_model [OF assms(1,5)])
  then show "self_signed L (manifest_norm (m\<lparr>mf_signature := Some ?s\<rparr>))"
    using assms(4) by (simp add: self_signed_def) (simp add: manifest_norm_def)
qed

section \<open>Responses and revocations\<close>

definition verify_response_signature ::
    "crypto_lib \<Rightarrow> manifest \<Rightarrow> ('m \<Rightarrow> obj) \<Rightarrow> ('m \<Rightarrow> signature option) \<Rightarrow> 'm \<Rightarrow> bool result" where
  "verify_response_signature L peer_manifest dump get_sig response =
     (case get_sig response of
        None \<Rightarrow> Inr False
      | Some s \<Rightarrow> (case find_jwk (mf_public_keys peer_manifest) (sig_key_id s) of
          None \<Rightarrow> Inr False
        | Some j \<Rightarrow> verify_model L dump response j))"

definition verify_revocation_notice :: "crypto_lib \<Rightarrow> revocation_notice \<Rightarrow> jwk \<Rightarrow> bool result" where
  "verify_revocation_notice L notice j = verify_model L dump_revocation_notice notice j"

definition build_revocation ::
    "crypto_lib \<Rightarrow> (json \<Rightarrow> revocation_notice result) \<Rightarrow> datetime \<Rightarrow> string \<Rightarrow> string \<Rightarrow> string \<Rightarrow>
      bytes \<Rightarrow> string \<Rightarrow> string \<Rightarrow> datetime option \<Rightarrow> datetime option \<Rightarrow> revocation_notice result" where
  "build_revocation L validate now revoked_node_id issuer federation_id key key_id reason
      issued_at expires_at =
     sign_model L dump_revocation_notice validate
       \<lparr>rn_federation_id = federation_id, rn_revoked_node_id = revoked_node_id,
        rn_reason = reason, rn_issued_at = (case issued_at of None \<Rightarrow> now | Some t \<Rightarrow> t),
        rn_expires_at = expires_at, rn_issuer = issuer, rn_signature = None\<rparr> key key_id"

definition build_self_revocation ::
    "crypto_lib \<Rightarrow> (json \<Rightarrow> revocation_notice result) \<Rightarrow> datetime \<Rightarrow> string \<Rightarrow> string \<Rightarrow> bytes \<Rightarrow>
      string \<Rightarrow> string \<Rightarrow> datetime option \<Rightarrow> revocation_notice result" where
  "build_self_revocation L validate now node_id federation_id key key_id reason expires_at =
     build_revocation L validate now node_id node_id federation_id key key_id reason None expires_at"

section \<open>Signed request envelopes\<close>

definition check_body_size :: "bytes \<Rightarrow> int option \<Rightarrow> bool" where
  "check_body_size body max_bytes =
     (case max_bytes of None \<Rightarrow> True | Some n \<Rightarrow> int (length body) \<le> n)"

definition nonce_cache_key :: "signed_request \<Rightarrow> string" where
  "nonce_cache_key env = ''federlet:nonce:'' @ sr_federation_id env @ '':'' @ sr_source_node_id env
     @ '':'' @ sr_target_node_id env @ '':'' @ sr_nonce env"

lemma last_separator:
  assumes "x @ c # y = x' @ c # y'" "c \<notin> set y" "c \<notin> set y'"
  shows "x = x' \<and> y = y'"
proof -
  have "takeWhile (\<lambda>z. z \<noteq> c) (rev (x @ c # y)) = rev y"
    "takeWhile (\<lambda>z. z \<noteq> c) (rev (x' @ c # y')) = rev y'"
    using assms(2,3) by (auto simp: takeWhile_tail)
  with assms(1) show ?thesis
    by auto
qed

text \<open>\<open>request_id\<close> and \<open>nonce_bytes\<close> are the two \<^verbatim>\<open>uuid4\<close> draws.\<close>

definition unsigned_request ::
    "datetime \<Rightarrow> string \<Rightarrow> bytes \<Rightarrow> string \<Rightarrow> string \<Rightarrow> string \<Rightarrow> string \<Rightarrow> string \<Rightarrow> bytes \<Rightarrow> int \<Rightarrow>
      signed_request" where
  "unsigned_request now request_id nonce_bytes federation_id source_node_id target_node_id verb path
      body source_manifest_revision =
     \<lparr>sr_federation_id = federation_id, sr_request_id = request_id,
      sr_source_node_id = source_node_id, sr_target_node_id = target_node_id,
      sr_method = str_upper verb, sr_path = path, sr_timestamp = now,
      sr_nonce = b64u_encode nonce_bytes, sr_body_sha256 = sha256_hex body,
      sr_source_manifest_revision = source_manifest_revision, sr_signature = None\<rparr>"

definition build_signed_request ::
    "crypto_lib \<Rightarrow> (json \<Rightarrow> signed_request result) \<Rightarrow> datetime \<Rightarrow> string \<Rightarrow> bytes \<Rightarrow> bytes \<Rightarrow> string \<Rightarrow>
      string \<Rightarrow> string \<Rightarrow> string \<Rightarrow> string \<Rightarrow> string \<Rightarrow> bytes \<Rightarrow> int \<Rightarrow> signed_request result" where
  "build_signed_request L validate now request_id nonce_bytes key key_id federation_id
      source_node_id target_node_id verb path body source_manifest_revision =
     sign_model L dump_signed_request validate
       (unsigned_request now request_id nonce_bytes federation_id source_node_id target_node_id verb
          path body source_manifest_revision) key key_id"

text \<open>What is built: the request cut to whole seconds, with a signature that verifies.\<close>

lemma built_request:
  assumes "crypto_ok L" "reads validate dec_signed_request" "dt_ok now"
    and "cl_jcs L (JObj (unsigned_body (dump_signed_request
      (unsigned_request now rid nb fed src target verb path body mrev)))) = Inr data"
  obtains s where "sig_key_id s = kid"
    "build_signed_request L validate now rid nb key kid fed src target verb path body mrev =
      Inr ((unsigned_request (trunc_sec now) rid nb fed src target verb path body mrev)\<lparr>sr_signature := Some s\<rparr>)"
    "verify_model L dump_signed_request
      ((unsigned_request (trunc_sec now) rid nb fed src target verb path body mrev)\<lparr>sr_signature := Some s\<rparr>)
      (public_jwk L key) = Inr True"
proof
  let ?r = "unsigned_request now rid nb fed src target verb path body mrev"
  let ?s = "\<lparr>sig_key_id = kid, sig_alg = ''EdDSA'', sig_sig = sign_bytes L key data\<rparr>"
  let ?env = "(unsigned_request (trunc_sec now) rid nb fed src target verb path body mrev)\<lparr>sr_signature := Some ?s\<rparr>"
  have ok: "signed_request_ok ?r"
    using assms(3) by (simp add: signed_request_ok_def unsigned_request_def)
  have env: "signed_request_norm (?r\<lparr>sr_signature := Some ?s\<rparr>) = ?env"
    by (simp add: signed_request_norm_def unsigned_request_def)
  show "sig_key_id ?s = kid" by simp
  show "build_signed_request L validate now rid nb key kid fed src target verb path body mrev = Inr ?env"
    unfolding build_signed_request_def request_wire.sign_model_eq [OF ok assms(2,4)] env by (rule refl)
  show "verify_model L dump_signed_request ?env (public_jwk L key) = Inr True"
    using request_wire.verify_sign_model [OF assms(1,4), of kid key] by (simp only: env)
qed

text \<open>
  The \<^verbatim>\<open>NonceCache\<close> port: \<open>set key expire\<close> is \<^verbatim>\<open>cache.set(key, 1, expire=..., exist=False)\<close>
  on the cache's state; it answers whether the key was stored.
\<close>

type_synonym 'c nonce_set = "string \<Rightarrow> int \<Rightarrow> 'c \<Rightarrow> bool result \<times> 'c"

text \<open>The checks made before the nonce is claimed, in the code's order.\<close>

definition envelope_checks ::
    "crypto_lib \<Rightarrow> datetime \<Rightarrow> signed_request \<Rightarrow> jwk \<Rightarrow> string \<Rightarrow> string \<Rightarrow> string \<Rightarrow> bytes \<Rightarrow>
      int option \<Rightarrow> int \<Rightarrow> (bool \<times> string) result" where
  "envelope_checks L now env j self_node_id verb path body max_body_bytes max_skew_seconds =
     (if sr_signature env = None then Inr (False, ''unsigned'')
      else if sr_target_node_id env \<noteq> self_node_id then Inr (False, ''wrong_target'')
      else if sr_method env \<noteq> str_upper verb then Inr (False, ''method_mismatch'')
      else if sr_path env \<noteq> path then Inr (False, ''path_mismatch'')
      else if \<not> check_body_size body max_body_bytes then Inr (False, ''body_too_large'')
      else if sr_body_sha256 env \<noteq> sha256_hex body then Inr (False, ''body_mismatch'')
      else if \<bar>now - sr_timestamp env\<bar> > max_skew_seconds * usec then Inr (False, ''stale_timestamp'')
      else rbind (verify_model L dump_signed_request env j) (\<lambda>ok.
        if \<not> ok then Inr (False, ''bad_signature'') else Inr (True, ''ok'')))"

definition verify_signed_request ::
    "crypto_lib \<Rightarrow> datetime \<Rightarrow> signed_request \<Rightarrow> jwk \<Rightarrow> string \<Rightarrow> string \<Rightarrow> string \<Rightarrow> bytes \<Rightarrow>
      int option \<Rightarrow> int \<Rightarrow> 'c nonce_set option \<Rightarrow> 'c \<Rightarrow> (bool \<times> string) result \<times> 'c" where
  "verify_signed_request L now env j self_node_id verb path body max_body_bytes
      max_skew_seconds cache c =
     (case envelope_checks L now env j self_node_id verb path body max_body_bytes
         max_skew_seconds of
        Inr (True, _) \<Rightarrow> (case cache of
            None \<Rightarrow> (Inr (True, ''ok''), c)
          | Some cset \<Rightarrow> (case cset (nonce_cache_key env) max_skew_seconds c of
              (Inl e, c') \<Rightarrow> (Inl e, c')
            | (Inr claimed, c') \<Rightarrow>
                if claimed then (Inr (True, ''ok''), c') else (Inr (False, ''replay''), c')))
      | r \<Rightarrow> (r, c))"

lemma envelope_checks_ok_iff:
  "envelope_checks L now env j self_id verb path body maxb skew = Inr (True, r) \<longleftrightarrow>
     r = ''ok'' \<and> sr_target_node_id env = self_id \<and> sr_method env = str_upper verb \<and>
     sr_path env = path \<and> check_body_size body maxb \<and> sr_body_sha256 env = sha256_hex body \<and>
     \<bar>now - sr_timestamp env\<bar> \<le> skew * usec \<and> verify_model L dump_signed_request env j = Inr True"
proof -
  have "verify_model L dump_signed_request env j = Inr True \<Longrightarrow> sr_signature env \<noteq> None"
    by (auto simp: request_wire.verify_model_True)
  then show ?thesis
    by (auto simp: envelope_checks_def result_simps not_less split: if_splits)
qed

lemma verify_signed_request_not_ok:
  "envelope_checks L now env j self_id verb path body maxb skew = r \<Longrightarrow>
     (\<nexists>s. r = Inr (True, s)) \<Longrightarrow>
     verify_signed_request L now env j self_id verb path body maxb skew cache c = (r, c)"
  by (auto simp: verify_signed_request_def split: sum.splits prod.splits bool.splits)

lemma verify_signed_request_accepts:
  "verify_signed_request L now env j self_id verb path body maxb skew (Some cset) c =
       (Inr (True, r), c') \<longleftrightarrow>
     r = ''ok'' \<and>
     envelope_checks L now env j self_id verb path body maxb skew = Inr (True, ''ok'') \<and>
     cset (nonce_cache_key env) skew c = (Inr True, c')"
proof (cases "\<exists>s. envelope_checks L now env j self_id verb path body maxb skew = Inr (True, s)")
  case True
  then have "envelope_checks L now env j self_id verb path body maxb skew = Inr (True, ''ok'')"
    by (metis envelope_checks_ok_iff)
  then show ?thesis
    by (auto simp: verify_signed_request_def split: sum.splits prod.splits if_splits)
next
  case False
  then show ?thesis
    using verify_signed_request_not_ok [OF refl, of L now env j self_id verb path body maxb skew
        "Some cset" c]
    by auto
qed

section \<open>Inbound peer requests\<close>

record verified_peer =
  vp_source_node_id :: string
  vp_key_id :: string
  vp_source_manifest_revision :: int
  vp_request_id :: string

text \<open>
  \<open>validate_json\<close> is \<^verbatim>\<open>SignedRequest.model_validate_json\<close>. Only \<^verbatim>\<open>ValidationError\<close> is
  caught.
\<close>

definition verify_peer_request ::
    "crypto_lib \<Rightarrow> (string \<Rightarrow> signed_request result) \<Rightarrow> datetime \<Rightarrow> string option \<Rightarrow> manifest \<Rightarrow>
      string \<Rightarrow> string \<Rightarrow> string \<Rightarrow> bytes \<Rightarrow> int option \<Rightarrow> int \<Rightarrow> 'c nonce_set option \<Rightarrow> 'c \<Rightarrow>
      verified_peer result \<times> 'c" where
  "verify_peer_request L validate_json now signature_header peer_manifest self_node_id verb
      path body max_body_bytes max_skew_seconds cache c =
     (case signature_header of
        None \<Rightarrow> (Inl (UnauthorizedPeerRequest ''missing_signature''), c)
      | Some h \<Rightarrow>
        if h = [] then (Inl (UnauthorizedPeerRequest ''missing_signature''), c)
        else (case validate_json h of
          Inl (ValidationError _) \<Rightarrow> (Inl (UnauthorizedPeerRequest ''malformed_envelope''), c)
        | Inl e \<Rightarrow> (Inl e, c)
        | Inr env \<Rightarrow> (case sr_signature env of
            None \<Rightarrow> (Inl (UnauthorizedPeerRequest ''unsigned''), c)
          | Some s \<Rightarrow>
            if sr_source_node_id env \<noteq> mf_node_id peer_manifest
            then (Inl (UnauthorizedPeerRequest ''source_mismatch''), c)
            else (case find_jwk (mf_public_keys peer_manifest) (sig_key_id s) of
              None \<Rightarrow> (Inl (UnauthorizedPeerRequest ''unknown_key''), c)
            | Some j \<Rightarrow> (case verify_signed_request L now env j self_node_id verb path body
                  max_body_bytes max_skew_seconds cache c of
                (Inl e, c') \<Rightarrow> (Inl e, c')
              | (Inr (ok, reason), c') \<Rightarrow>
                  if \<not> ok then (Inl (UnauthorizedPeerRequest reason), c')
                  else (Inr \<lparr>vp_source_node_id = sr_source_node_id env, vp_key_id = sig_key_id s,
                    vp_source_manifest_revision = sr_source_manifest_revision env,
                    vp_request_id = sr_request_id env\<rparr>, c'))))))"

text \<open>
  The envelope a header carries passes every check that precedes the nonce: it parses, is signed
  under a key the sender's manifest advertises, names that sender, and binds target, method,
  path, body and time to the inbound request.
\<close>

definition authentic_envelope ::
    "crypto_lib \<Rightarrow> (string \<Rightarrow> signed_request result) \<Rightarrow> datetime \<Rightarrow> string option \<Rightarrow> manifest \<Rightarrow>
      string \<Rightarrow> string \<Rightarrow> string \<Rightarrow> bytes \<Rightarrow> int option \<Rightarrow> int \<Rightarrow> signed_request \<Rightarrow> signature \<Rightarrow> bool" where
  "authentic_envelope L validate_json now hdr pm self_id verb path body maxb skew env s \<longleftrightarrow>
     (\<exists>h. hdr = Some h \<and> h \<noteq> [] \<and> validate_json h = Inr env) \<and>
     sr_signature env = Some s \<and> sr_source_node_id env = mf_node_id pm \<and>
     (\<exists>j. find_jwk (mf_public_keys pm) (sig_key_id s) = Some j \<and>
        verify_model L dump_signed_request env j = Inr True) \<and>
     sr_target_node_id env = self_id \<and> sr_method env = str_upper verb \<and> sr_path env = path \<and>
     check_body_size body maxb \<and> sr_body_sha256 env = sha256_hex body \<and>
     \<bar>now - sr_timestamp env\<bar> \<le> skew * usec"

definition peer_of :: "signed_request \<Rightarrow> signature \<Rightarrow> verified_peer" where
  "peer_of env s = \<lparr>vp_source_node_id = sr_source_node_id env, vp_key_id = sig_key_id s,
     vp_source_manifest_revision = sr_source_manifest_revision env,
     vp_request_id = sr_request_id env\<rparr>"

lemma verify_signed_request_accepts_no_cache:
  "verify_signed_request L now env j self_id verb path body maxb skew None c =
       (Inr (True, r), c') \<longleftrightarrow>
     r = ''ok'' \<and> c' = c \<and>
     envelope_checks L now env j self_id verb path body maxb skew = Inr (True, ''ok'')"
proof (cases "\<exists>s. envelope_checks L now env j self_id verb path body maxb skew = Inr (True, s)")
  case True
  then have "envelope_checks L now env j self_id verb path body maxb skew = Inr (True, ''ok'')"
    by (metis envelope_checks_ok_iff)
  then show ?thesis
    by (auto simp: verify_signed_request_def split: sum.splits prod.splits if_splits)
next
  case False
  then show ?thesis
    using verify_signed_request_not_ok [OF refl, of L now env j self_id verb path body maxb skew
        None c]
    by auto
qed

lemma verify_signed_request_untouched:
  "envelope_checks L now env j self_id verb path body maxb skew \<noteq> Inr (True, ''ok'') \<Longrightarrow>
     snd (verify_signed_request L now env j self_id verb path body maxb skew cache c) = c"
proof -
  assume a: "envelope_checks L now env j self_id verb path body maxb skew \<noteq> Inr (True, ''ok'')"
  then have "\<nexists>s. envelope_checks L now env j self_id verb path body maxb skew = Inr (True, s)"
    by (metis envelope_checks_ok_iff)
  then show ?thesis
    by (simp add: verify_signed_request_not_ok [OF refl])
qed

lemma verify_peer_request_ok_iff:
  "verify_peer_request L validate_json now hdr pm self_id verb path body maxb skew cache c =
       (Inr p, c') \<longleftrightarrow>
     (\<exists>h env s j. hdr = Some h \<and> h \<noteq> [] \<and> validate_json h = Inr env \<and>
        sr_signature env = Some s \<and> sr_source_node_id env = mf_node_id pm \<and>
        find_jwk (mf_public_keys pm) (sig_key_id s) = Some j \<and> p = peer_of env s \<and>
        (\<exists>r. verify_signed_request L now env j self_id verb path body maxb skew cache c =
           (Inr (True, r), c')))"
  by (cases hdr)
    (auto simp: verify_peer_request_def peer_of_def split: sum.splits exc.splits option.splits
       prod.splits if_splits)

lemma verify_signed_request_refusal:
  assumes "verify_signed_request L now env j self_id verb path body maxb skew (Some cset) c =
      (r, c')"
  shows "r = Inr (True, ''ok'') \<or>
    (\<exists>s \<in> {''unsigned'', ''wrong_target'', ''method_mismatch'', ''path_mismatch'', ''body_too_large'',
       ''body_mismatch'', ''stale_timestamp'', ''bad_signature'', ''replay''}. r = Inr (False, s)) \<or>
    (\<exists>e. r = Inl e \<and> (verify_model L dump_signed_request env j = Inl e \<or>
       fst (cset (nonce_cache_key env) skew c) = Inl e))"
proof -
  let ?checks = "envelope_checks L now env j self_id verb path body maxb skew"
  have "?checks = Inr (True, ''ok'') \<or>
    (\<exists>s \<in> {''unsigned'', ''wrong_target'', ''method_mismatch'', ''path_mismatch'', ''body_too_large'',
       ''body_mismatch'', ''stale_timestamp'', ''bad_signature''}. ?checks = Inr (False, s)) \<or>
    (\<exists>e. ?checks = Inl e \<and> verify_model L dump_signed_request env j = Inl e)"
    by (cases "verify_model L dump_signed_request env j") (auto simp: envelope_checks_def)
  then show ?thesis
  proof (elim disjE bexE exE conjE)
    assume "?checks = Inr (True, ''ok'')"
    then show ?thesis
      using assms by (auto simp: verify_signed_request_def split: prod.splits sum.splits if_splits)
  next
    fix s assume s: "s \<in> {''unsigned'', ''wrong_target'', ''method_mismatch'', ''path_mismatch'',
        ''body_too_large'', ''body_mismatch'', ''stale_timestamp'', ''bad_signature''}"
      "?checks = Inr (False, s)"
    then have "r = Inr (False, s)"
      using assms verify_signed_request_not_ok [OF s(2), of "Some cset" c] by simp
    then show ?thesis
      using s(1) by (intro disjI2 disjI1) auto
  next
    fix e assume e: "?checks = Inl e" "verify_model L dump_signed_request env j = Inl e"
    have "r = Inl e"
      using assms verify_signed_request_not_ok [OF e(1), of "Some cset" c] by simp
    then show ?thesis
      using e(2) by simp
  qed
qed

text \<open>Every call ends before the cache is reached, or goes on to \<open>verify_signed_request\<close>.\<close>

lemma verify_peer_request_cases:
  obtains (early) e where "verify_peer_request L validate_json now hdr pm self_id verb path body
      maxb skew cache c = (Inl e, c)"
      "(\<exists>r \<in> {''missing_signature'', ''malformed_envelope'', ''unsigned'', ''source_mismatch'',
         ''unknown_key''}. e = UnauthorizedPeerRequest r) \<or>
       (\<exists>h. validate_json h = Inl e \<and> (\<forall>m. e \<noteq> ValidationError m))"
  | (checked) h env s j where "hdr = Some h" "h \<noteq> []" "validate_json h = Inr env"
      "sr_signature env = Some s" "sr_source_node_id env = mf_node_id pm"
      "find_jwk (mf_public_keys pm) (sig_key_id s) = Some j"
      "verify_peer_request L validate_json now hdr pm self_id verb path body maxb skew cache c =
        (case verify_signed_request L now env j self_id verb path body maxb skew cache c of
           (Inl e, c') \<Rightarrow> (Inl e, c')
         | (Inr (ok, reason), c') \<Rightarrow>
             if \<not> ok then (Inl (UnauthorizedPeerRequest reason), c') else (Inr (peer_of env s), c'))"
proof (cases hdr)
  case None
  then show ?thesis
    by (intro early [of "UnauthorizedPeerRequest ''missing_signature''"])
      (simp_all add: verify_peer_request_def)
next
  case h: (Some h)
  show ?thesis
  proof (cases "h = []")
    case True
    with h show ?thesis
    by (intro early [of "UnauthorizedPeerRequest ''missing_signature''"])
      (simp_all add: verify_peer_request_def)
  next
    case ne: False
    show ?thesis
    proof (cases "validate_json h")
      case (Inl e)
      show ?thesis
      proof (cases "\<exists>m. e = ValidationError m")
        case True
        with Inl h ne show ?thesis
          by (intro early [of "UnauthorizedPeerRequest ''malformed_envelope''"])
            (auto simp: verify_peer_request_def)
      next
        case False
        with Inl h ne show ?thesis
          by (cases e) (auto intro!: early [of e] simp: verify_peer_request_def)
      qed
    next
      case env: (Inr env)
      show ?thesis
      proof (cases "\<exists>s j. sr_signature env = Some s \<and> sr_source_node_id env = mf_node_id pm \<and>
          find_jwk (mf_public_keys pm) (sig_key_id s) = Some j")
        case True
        with h ne env show ?thesis
          by (auto intro!: checked simp: verify_peer_request_def peer_of_def split: prod.splits sum.splits)
      next
        case False
        with h ne env show ?thesis
          by (cases "sr_signature env"; cases "sr_source_node_id env = mf_node_id pm")
            (simp_all add: verify_peer_request_def early)
      qed
    qed
  qed
qed

end
