(* ===== verification/Nonce.thy ===== *)
theory Nonce
  imports Signing
begin

text \<open>
  The replay cache (\<^verbatim>\<open>protocols/nonce.py\<close>) and what it gives the verification of signed
  requests. The port is the locale \<open>nonce_cache\<close>: a claim is granted only for a key that is
  not live, and a granted key stays live for \<open>expire\<close> seconds, whatever else is stored. It is
  interpreted by the in-process cache the repository ships (\<^verbatim>\<open>examples/host.py\<close>) and by a
  cache that drops a key exactly when it expires, the least the port's documentation allows.
\<close>

section \<open>The port\<close>

text \<open>The first argument is the time of the call; \<open>live t c k\<close>: at time \<open>t\<close> the key is held.\<close>

locale nonce_cache =
  fixes cset :: "datetime \<Rightarrow> 'c nonce_set"
    and live :: "datetime \<Rightarrow> 'c \<Rightarrow> string \<Rightarrow> bool"
  assumes granted_absent: "cset t k e c = (Inr True, c') \<Longrightarrow> \<not> live t c k"
    and granted_live: "cset t k e c = (Inr True, c') \<Longrightarrow> t \<le> u \<Longrightarrow> u < t + e * usec \<Longrightarrow> live u c' k"
    and live_kept: "live u c k \<Longrightarrow> t \<le> u \<Longrightarrow> live u (snd (cset t k' e c)) k"

text \<open>Other calls on the same cache, in order.\<close>

definition cache_run :: "(datetime \<Rightarrow> 'c nonce_set) \<Rightarrow> (datetime \<times> string \<times> int) list \<Rightarrow> 'c \<Rightarrow> 'c" where
  "cache_run cset ops c = fold (\<lambda>(t, k, e) c. snd (cset t k e c)) ops c"

lemma cache_run_simps [simp]:
  "cache_run cset [] c = c"
  "cache_run cset ((t, k, e) # ops) c = cache_run cset ops (snd (cset t k e c))"
  by (simp_all add: cache_run_def)

context nonce_cache
begin

lemma run_live:
  "live u c k \<Longrightarrow> \<forall>(t, k', e) \<in> set ops. t \<le> u \<Longrightarrow> live u (cache_run cset ops c) k"
  by (induction ops arbitrary: c) (auto simp: live_kept)

lemma no_second_claim:
  assumes "cset t k e c = (Inr True, c1)" "t \<le> u" "u < t + e * usec" "\<forall>(s, _, _) \<in> set ops. s \<le> u"
  shows "cset u k e' (cache_run cset ops c1) \<noteq> (Inr True, c2)"
  using run_live [OF granted_live [OF assms(1-3)], of ops] assms(4) granted_absent by fastforce

lemma no_replay:
  assumes first: "verify_peer_request L vj t1 hdr pm self_id verb path body maxb skew
      (Some (cset t1)) c = (Inr p, c1)"
    and hdr: "hdr = Some h" "vj h = Inr env"
    and past: "sr_timestamp env + skew' * usec < t1 + skew * usec" "t1 \<le> t2"
      "\<forall>(t, _, _) \<in> set ops. t \<le> t2"
  shows "verify_peer_request L vj t2 hdr pm' self_id' verb' path' body' maxb' skew'
      (Some (cset t2)) (cache_run cset ops c1) \<noteq> (Inr q, c2)"
proof
  assume second: "verify_peer_request L vj t2 hdr pm' self_id' verb' path' body' maxb' skew'
      (Some (cset t2)) (cache_run cset ops c1) = (Inr q, c2)"
  from first hdr have 1: "cset t1 (nonce_cache_key env) skew c = (Inr True, c1)"
    by (auto simp: verify_peer_request_ok_iff verify_signed_request_accepts)
  from second hdr have 2: "cset t2 (nonce_cache_key env) skew' (cache_run cset ops c1) = (Inr True, c2)"
      and "\<bar>t2 - sr_timestamp env\<bar> \<le> skew' * usec"
    by (auto simp: verify_peer_request_ok_iff verify_signed_request_accepts envelope_checks_ok_iff)
  then have "t2 < t1 + skew * usec"
    using past by linarith
  with 1 2 past show False
    using no_second_claim by blast
qed

end

section \<open>The caches\<close>

text \<open>
  \<^verbatim>\<open>MemoryNonceCache\<close> of \<^verbatim>\<open>examples/host.py\<close>, called with \<^verbatim>\<open>exist=False\<close>: the keys
  seen so far, never forgotten.
\<close>

definition memory_set :: "datetime \<Rightarrow> string list nonce_set" where
  "memory_set now key expire seen =
     (if key \<in> set seen then (Inr False, seen) else (Inr True, key # seen))"

definition memory_live :: "datetime \<Rightarrow> string list \<Rightarrow> string \<Rightarrow> bool" where
  "memory_live now seen key \<longleftrightarrow> key \<in> set seen"

interpretation memory_cache: nonce_cache memory_set memory_live
  by unfold_locales (auto simp: memory_set_def memory_live_def split: if_splits)

text \<open>A cache that keeps each key with its expiry time and forgets it then.\<close>

definition expiring_live :: "datetime \<Rightarrow> (string, datetime) dict \<Rightarrow> string \<Rightarrow> bool" where
  "expiring_live now d key \<longleftrightarrow> (case dict_get d key of None \<Rightarrow> False | Some t \<Rightarrow> now < t)"

definition expiring_set :: "datetime \<Rightarrow> (string, datetime) dict nonce_set" where
  "expiring_set now key expire d =
     (if expiring_live now d key then (Inr False, d)
      else (Inr True, dict_set key (now + expire * usec) d))"

interpretation expiring_cache: nonce_cache expiring_set expiring_live
  by unfold_locales
    (auto simp: expiring_set_def expiring_live_def split: if_splits option.splits)

end
