(* ===== verification/Samples.thy ===== *)
theory Samples
  imports Nonce
begin

text \<open>
  Concrete instances of the parameters (a toy signature scheme, a validator that reads exactly
  the declared schema) and a few concrete values of the model, on which the witnesses of the
  properties evaluate.
\<close>

definition toy_public :: "bytes \<Rightarrow> bytes" where
  "toy_public k = take 32 (k @ replicate 32 0)"

definition toy_crypto :: crypto_lib where
  "toy_crypto = \<lparr>cl_public = toy_public, cl_sign = \<lambda>k d. toy_public k @ d,
     cl_verify = \<lambda>pk s d. s = pk @ d, cl_jcs = \<lambda>j. Inr [1, 2, 3]\<rparr>"

lemma toy_crypto_ok: "crypto_ok toy_crypto"
  by (auto simp: crypto_ok_def toy_crypto_def toy_public_def min_def)

lemma toy_jcs [simp]: "cl_jcs toy_crypto j = Inr [1, 2, 3]"
  by (simp add: toy_crypto_def)

definition read_as :: "(json \<Rightarrow> 'm option) \<Rightarrow> json \<Rightarrow> 'm result" where
  "read_as dec j = (case dec j of None \<Rightarrow> Inl (ValidationError ''schema'') | Some m \<Rightarrow> Inr m)"

lemma reads_read_as [simp]: "reads (read_as dec) dec"
  by (simp add: reads_def read_as_def)

definition toy_manifest :: "string \<Rightarrow> string \<Rightarrow> manifest" where
  "toy_manifest node_id endpoint =
     \<lparr>mf_node_id = node_id, mf_org_id = ''org'', mf_bu_id = None, mf_federations = [''fed''],
      mf_endpoint = endpoint, mf_manifest_url = None, mf_protocol_versions = [''v1''],
      mf_revision = 1,
      mf_public_keys = [\<lparr>pk_key_id = ''k1'', pk_use = ''sig'', pk_alg = ''EdDSA'',
        pk_public_jwk = public_jwk toy_crypto []\<rparr>],
      mf_auth_methods = [''signed_http''],
      mf_membership = \<lparr>mb_introduce_url = endpoint @ ''/introduce'',
        mb_members_url = endpoint @ ''/members'', mb_revocations_url = None,
        mb_extra = []\<rparr>,
      mf_extensions = [], mf_admission_evidence = None, mf_disclosure = None, mf_limits = None,
      mf_issued_at = None, mf_expires_at = None, mf_signature = None\<rparr>"

definition toy_signed :: "manifest \<Rightarrow> manifest" where
  "toy_signed m = m\<lparr>mf_signature := Some \<lparr>sig_key_id = ''k1'', sig_alg = ''EdDSA'',
     sig_sig = sign_bytes toy_crypto [] [1, 2, 3]\<rparr>\<rparr>"

lemma toy_verify: "verify_model toy_crypto dump_manifest (toy_signed m) (public_jwk toy_crypto []) = Inr True"
  by (simp add: manifest_wire.verify_model_True toy_signed_def verify_bytes_signed toy_crypto_ok)

definition toy_request :: "datetime \<Rightarrow> signed_request" where
  "toy_request t = \<lparr>sr_federation_id = ''fed'', sr_request_id = ''r1'', sr_source_node_id = ''a'',
     sr_target_node_id = ''b'', sr_method = ''GET'', sr_path = ''/members'', sr_timestamp = t,
     sr_nonce = ''n1'', sr_body_sha256 = sha256_hex [], sr_source_manifest_revision = 1,
     sr_signature = Some \<lparr>sig_key_id = ''k1'', sig_alg = ''EdDSA'',
       sig_sig = sign_bytes toy_crypto [] [1, 2, 3]\<rparr>\<rparr>"

lemma toy_request_verify:
  "verify_model toy_crypto dump_signed_request (toy_request t) (public_jwk toy_crypto []) = Inr True"
  by (simp add: request_wire.verify_model_True toy_request_def verify_bytes_signed toy_crypto_ok)

lemma str_upper_get: "str_upper ''get'' = ''GET''"
  by code_simp

lemma toy_request_authentic:
  "\<bar>now - t\<bar> \<le> skew * usec \<Longrightarrow>
   authentic_envelope toy_crypto (\<lambda>_. Inr (toy_request t)) now (Some ''h'') (toy_manifest ''a'' e)
     ''b'' ''get'' ''/members'' [] (Some 10) skew (toy_request t)
     \<lparr>sig_key_id = ''k1'', sig_alg = ''EdDSA'', sig_sig = sign_bytes toy_crypto [] [1, 2, 3]\<rparr>"
  using toy_request_verify [of t] str_upper_get
  by (simp add: authentic_envelope_def toy_manifest_def toy_request_def check_body_size_def)

end
