(* ===== verification/Auth_Properties.thy ===== *)
theory Auth_Properties
  imports Samples
begin

text \<open>
  What the signature layer guarantees: which inbound requests and manifests are accepted, that
  what is signed verifies, that replays are refused, and where time bounds fail.
\<close>

section \<open>Inbound requests\<close>

text \<open>
  C1: A peer request is accepted exactly when its header parses to a signed envelope of the
  manifest's node, signed under a key that manifest advertises, bound to this node, method,
  path and body, within the skew window, and the nonce cache grants its nonce; the identity
  returned is the envelope's.
\<close>

theorem verify_peer_request_iff:
  "verify_peer_request L validate_json now hdr pm self_id verb path body maxb skew (Some cset) c =
       (Inr p, c') \<longleftrightarrow>
     (\<exists>env s. authentic_envelope L validate_json now hdr pm self_id verb path body maxb skew env s
        \<and> cset (nonce_cache_key env) skew c = (Inr True, c') \<and> p = peer_of env s)"
  by (auto simp: verify_peer_request_ok_iff verify_signed_request_accepts envelope_checks_ok_iff
      authentic_envelope_def)

text \<open>
  A request that is not authentic never reaches the nonce cache, whatever is wrong with it,
  so unauthenticated senders cannot burn nonces.
\<close>

theorem unauthentic_request_claims_no_nonce:
  assumes "\<And>env s. \<not> authentic_envelope L validate_json now hdr pm self_id verb path body maxb
      skew env s"
  shows "snd (verify_peer_request L validate_json now hdr pm self_id verb path body maxb skew
      cache c) = c"
proof (rule verify_peer_request_cases [of L validate_json now hdr pm self_id verb path body maxb
    skew cache c])
  fix h env s j
  assume reached: "hdr = Some h" "h \<noteq> []" "validate_json h = Inr env" "sr_signature env = Some s"
      "sr_source_node_id env = mf_node_id pm" "find_jwk (mf_public_keys pm) (sig_key_id s) = Some j"
    and result: "verify_peer_request L validate_json now hdr pm self_id verb path body maxb skew
      cache c = (case verify_signed_request L now env j self_id verb path body maxb skew cache c of
        (Inl e, c') \<Rightarrow> (Inl e, c')
      | (Inr (ok, reason), c') \<Rightarrow> if \<not> ok then (Inl (UnauthorizedPeerRequest reason), c')
          else (Inr (peer_of env s), c'))"
  have "envelope_checks L now env j self_id verb path body maxb skew \<noteq> Inr (True, ''ok'')"
    using assms [of env s] reached by (auto simp: envelope_checks_ok_iff authentic_envelope_def)
  then have "snd (verify_signed_request L now env j self_id verb path body maxb skew cache c) = c"
    by (rule verify_signed_request_untouched)
  then show ?thesis
    by (auto simp: result split: prod.splits sum.splits)
qed simp

lemma unauthentic_request_claims_no_nonce_witness:
  "snd (verify_peer_request toy_crypto (\<lambda>_. Inr (toy_request 0)) (10 * usec) (Some ''h'')
      (toy_manifest ''a'' ''e'') ''b'' ''GET'' ''/members'' [] None 5 (Some (memory_set 0)) []) = []"
  by (rule unauthentic_request_claims_no_nonce)
    (auto simp: authentic_envelope_def toy_request_def usec_def)

text \<open>
  C2: An accepted request is refused from then on wherever its timestamp goes stale before its
  nonce expires: after any other traffic through the cache, on any route with a skew under which
  the timestamp is stale by the time the accepting route's skew has passed since acceptance. For
  routes with the same skew, or a smaller one, this is every request stamped strictly before the
  time it was accepted at. The cache is any implementation of the \<open>NonceCache\<close> port that keeps a
  granted key for its expiry time.
\<close>

theorem replayed_request_refused:
  assumes "nonce_cache cset live"
    and "verify_peer_request L vj t1 (Some h) pm self_id verb path body maxb skew
      (Some (cset t1)) c = (Inr p, c1)"
    and "vj h = Inr env" "sr_timestamp env + skew' * usec < t1 + skew * usec" "t1 \<le> t2"
    and "\<forall>(t, _, _) \<in> set ops. t \<le> t2"
  shows "verify_peer_request L vj t2 (Some h) pm' self_id' verb' path' body' maxb' skew'
      (Some (cset t2)) (cache_run cset ops c1) \<noteq> (Inr q, c2)"
  using nonce_cache.no_replay [OF assms(1,2) refl assms(3-6)] .

lemma toy_request_accepted:
  "expiring_live t c (nonce_cache_key (toy_request s)) = False \<Longrightarrow> \<bar>t - s\<bar> \<le> skew * usec \<Longrightarrow>
   \<exists>p c1. verify_peer_request toy_crypto (\<lambda>_. Inr (toy_request s)) t (Some ''h'')
     (toy_manifest ''a'' ''e'') ''b'' ''get'' ''/members'' [] (Some 10) skew
     (Some (expiring_set t)) c = (Inr p, c1)"
  using toy_request_authentic [of t s skew "''e''"]
  by (auto simp: verify_peer_request_ok_iff verify_signed_request_accepts envelope_checks_ok_iff
      authentic_envelope_def expiring_set_def)

lemma replayed_request_refused_witness:
  "\<exists>p c1. verify_peer_request toy_crypto (\<lambda>_. Inr (toy_request 0)) 1 (Some ''h'')
      (toy_manifest ''a'' ''e'') ''b'' ''get'' ''/members'' [] (Some 10) 5
      (Some (expiring_set 1)) [] = (Inr p, c1) \<and>
     (\<forall>q c2. verify_peer_request toy_crypto (\<lambda>_. Inr (toy_request 0)) 2 (Some ''h'')
      (toy_manifest ''a'' ''e'') ''b'' ''get'' ''/members'' [] (Some 10) 5
      (Some (expiring_set 2)) (cache_run expiring_set [(2, ''x'', 1)] c1) \<noteq> (Inr q, c2))"
proof -
  obtain p c1 where first: "verify_peer_request toy_crypto (\<lambda>_. Inr (toy_request 0)) 1 (Some ''h'')
      (toy_manifest ''a'' ''e'') ''b'' ''get'' ''/members'' [] (Some 10) 5
      (Some (expiring_set 1)) [] = (Inr p, c1)"
    using toy_request_accepted [of 1 "[]" 0 5] by (auto simp: expiring_live_def usec_def)
  show ?thesis
    using first replayed_request_refused [OF expiring_cache.nonce_cache_axioms first, of "toy_request 0" 5 2
        "[(2, ''x'', 1)]"]
    by (auto simp: toy_request_def)
qed

text \<open>
  C3: The window is not closed for the other envelopes: one dated at or after the time it is
  accepted, up to the full skew ahead, is accepted again when the nonce, kept only for the skew,
  has expired.
\<close>

theorem future_dated_request_accepted_twice:
  assumes "authentic_envelope L vj t1 hdr pm self_id verb path body maxb skew env s"
    and "t1 \<le> sr_timestamp env"
    and "\<not> expiring_live t1 c (nonce_cache_key env)"
  shows "\<exists>c1 c2. verify_peer_request L vj t1 hdr pm self_id verb path body maxb skew
        (Some (expiring_set t1)) c = (Inr (peer_of env s), c1) \<and>
      verify_peer_request L vj (t1 + skew * usec) hdr pm self_id verb path body maxb skew
        (Some (expiring_set (t1 + skew * usec))) c1 = (Inr (peer_of env s), c2)"
proof -
  let ?c1 = "dict_set (nonce_cache_key env) (t1 + skew * usec) c"
  have "\<not> expiring_live (t1 + skew * usec) ?c1 (nonce_cache_key env)"
    by (simp add: expiring_live_def)
  moreover have "authentic_envelope L vj (t1 + skew * usec) hdr pm self_id verb path body maxb
      skew env s"
    using assms(1,2) by (auto simp: authentic_envelope_def usec_def)
  ultimately show ?thesis
    using assms(1,3)
    by (fastforce simp: verify_peer_request_ok_iff verify_signed_request_accepts
        envelope_checks_ok_iff authentic_envelope_def expiring_set_def)
qed

lemma future_dated_request_accepted_twice_witness:
  "\<exists>p c1 c2. verify_peer_request toy_crypto (\<lambda>_. Inr (toy_request (300 * usec))) 0 (Some ''h'')
      (toy_manifest ''a'' ''e'') ''b'' ''get'' ''/members'' [] (Some 10) 300
      (Some (expiring_set 0)) [] = (Inr p, c1) \<and>
     verify_peer_request toy_crypto (\<lambda>_. Inr (toy_request (300 * usec))) (0 + 300 * usec) (Some ''h'')
      (toy_manifest ''a'' ''e'') ''b'' ''get'' ''/members'' [] (Some 10) 300
      (Some (expiring_set (0 + 300 * usec))) c1 = (Inr p, c2)"
  using future_dated_request_accepted_twice [OF toy_request_authentic
      [of 0 "300 * usec" 300 "''e''"], of "[]"]
  by (auto simp: usec_def expiring_live_def toy_request_def)

text \<open>
  C4: What \<open>build_signed_request\<close> signs, sent as the client sends it, is accepted by the node it
  is addressed to: for any body, method spelled in any case, and arrival within the skew of the
  timestamp (cut to the second on the wire), as long as the sender's manifest advertises the key
  and the nonce is new.
\<close>

theorem built_request_accepted:
  assumes "crypto_ok L" "reads validate dec_signed_request" "dt_ok now"
    and jcs: "\<And>r. sr_source_manifest_revision r = mrev \<Longrightarrow>
      \<exists>data. cl_jcs L (JObj (unsigned_body (dump_signed_request r))) = Inr data"
    and key: "find_jwk (mf_public_keys pm) kid = Some (public_jwk L key)"
    and size: "check_body_size body maxb"
    and arrival: "\<bar>now' - trunc_sec now\<bar> \<le> skew * usec"
  shows "\<exists>env. build_signed_request L validate now rid nb key kid fed (mf_node_id pm) target verb
        path body mrev = Inr env \<and>
      (\<forall>validate_json h c c'. h \<noteq> [] \<longrightarrow> validate_json h = Inr env \<longrightarrow>
         cset (nonce_cache_key env) skew c = (Inr True, c') \<longrightarrow>
         verify_peer_request L validate_json now' (Some h) pm target verb path body maxb skew (Some cset) c =
         (Inr \<lparr>vp_source_node_id = mf_node_id pm, vp_key_id = kid,
            vp_source_manifest_revision = mrev, vp_request_id = rid\<rparr>, c'))"
proof -
  let ?r = "\<lambda>t. unsigned_request t rid nb fed (mf_node_id pm) target verb path body mrev"
  obtain data where data: "cl_jcs L (JObj (unsigned_body (dump_signed_request (?r now)))) = Inr data"
    using jcs [of "?r now"] by (auto simp: unsigned_request_def)
  obtain s where s: "sig_key_id s = kid"
    "build_signed_request L validate now rid nb key kid fed (mf_node_id pm) target verb path body mrev =
      Inr ((?r (trunc_sec now))\<lparr>sr_signature := Some s\<rparr>)"
    "verify_model L dump_signed_request ((?r (trunc_sec now))\<lparr>sr_signature := Some s\<rparr>)
      (public_jwk L key) = Inr True"
    by (rule built_request [OF assms(1-3) data])
  let ?env = "(?r (trunc_sec now))\<lparr>sr_signature := Some s\<rparr>"
  have "authentic_envelope L validate_json now' (Some h) pm target verb path body maxb skew ?env s"
    if "h \<noteq> []" "validate_json h = Inr ?env" for validate_json h
    using that s(1,3) key size arrival
    by (simp add: authentic_envelope_def) (simp add: unsigned_request_def)
  then have "verify_peer_request L validate_json now' (Some h) pm target verb path body maxb skew
      (Some cset) c = (Inr (peer_of ?env s), c')"
    if "h \<noteq> []" "validate_json h = Inr ?env" "cset (nonce_cache_key ?env) skew c = (Inr True, c')"
    for validate_json h c c'
    using that
    by (fastforce simp: verify_peer_request_ok_iff verify_signed_request_accepts
        envelope_checks_ok_iff authentic_envelope_def)
  then show ?thesis
    using s(1,2) by (auto simp: peer_of_def unsigned_request_def)
qed

lemma built_request_accepted_witness:
  "\<exists>env. build_signed_request toy_crypto (read_as dec_signed_request) 5 ''r'' [7] [] ''k1'' ''fed'' ''a''
      ''b'' ''get'' ''/x'' [1] 3 = Inr env \<and>
    (\<exists>c'. verify_peer_request toy_crypto (\<lambda>_. Inr env) 9 (Some ''h'') (toy_manifest ''a'' ''e'') ''b''
        ''get'' ''/x'' [1] None 300 (Some (memory_set 9)) [] =
      (Inr \<lparr>vp_source_node_id = ''a'', vp_key_id = ''k1'', vp_source_manifest_revision = 3,
        vp_request_id = ''r''\<rparr>, c'))"
proof -
  let ?m = "toy_manifest ''a'' ''e''"
  have m: "mf_node_id ?m = ''a''" "find_jwk (mf_public_keys ?m) ''k1'' = Some (public_jwk toy_crypto [])"
    by (simp_all add: toy_manifest_def)
  have time: "dt_ok 5" "\<bar>9 - trunc_sec 5\<bar> \<le> 300 * usec"
    by (simp_all add: dt_ok_def trunc_sec_def usec_def day_usec_def)
  obtain env where built: "build_signed_request toy_crypto (read_as dec_signed_request) 5 ''r'' [7] []
      ''k1'' ''fed'' ''a'' ''b'' ''get'' ''/x'' [1] 3 = Inr env"
    and acc: "\<And>validate_json h c c'. h \<noteq> [] \<Longrightarrow> validate_json h = Inr env \<Longrightarrow>
      memory_set 9 (nonce_cache_key env) 300 c = (Inr True, c') \<Longrightarrow>
      verify_peer_request toy_crypto validate_json 9 (Some h) ?m ''b'' ''get'' ''/x'' [1] None 300
        (Some (memory_set 9)) c =
      (Inr \<lparr>vp_source_node_id = ''a'', vp_key_id = ''k1'', vp_source_manifest_revision = 3,
        vp_request_id = ''r''\<rparr>, c')"
    using built_request_accepted [OF toy_crypto_ok reads_read_as time(1) _ m(2) _ time(2),
      of 3 "[1]" None "''r''" "[7]" "''fed''" "''b''" "''get''" "''/x''" "memory_set 9"]
    by (auto simp: m check_body_size_def)
  show ?thesis
    using built acc [of "''h''" "\<lambda>_. Inr env" "[]"] by (auto simp: memory_set_def)
qed

text \<open>
  Apart from what the JSON reader, the canonical serializer, an advertised key without
  \<open>x\<close>, or the cache raise themselves, every refusal is \<open>UnauthorizedPeerRequest\<close> with one of
  the documented reasons.
\<close>

theorem peer_request_refusal_reasons:
  assumes "\<And>h e. validate_json h = Inl e \<Longrightarrow> \<exists>m. e = ValidationError m"
    and "\<And>h r e. validate_json h = Inr r \<Longrightarrow>
      cl_jcs L (JObj (unsigned_body (dump_signed_request r))) \<noteq> Inl e"
    and "\<And>k. k \<in> set (mf_public_keys pm) \<Longrightarrow> map_of (pk_public_jwk k) ''x'' \<noteq> None"
    and "\<And>k t c e. fst (cset k t c) \<noteq> Inl e"
    and "verify_peer_request L validate_json now hdr pm self_id verb path body maxb skew
      (Some cset) c = (Inl e, c')"
  shows "\<exists>r \<in> {''missing_signature'', ''malformed_envelope'', ''unsigned'', ''source_mismatch'',
      ''unknown_key'', ''wrong_target'', ''method_mismatch'', ''path_mismatch'',
      ''body_too_large'', ''body_mismatch'', ''stale_timestamp'', ''bad_signature'', ''replay''}.
      e = UnauthorizedPeerRequest r"
proof (rule verify_peer_request_cases [of L validate_json now hdr pm self_id verb path body maxb
    skew "Some cset" c])
  fix e' assume "verify_peer_request L validate_json now hdr pm self_id verb path body maxb skew
      (Some cset) c = (Inl e', c)"
    "(\<exists>r \<in> {''missing_signature'', ''malformed_envelope'', ''unsigned'', ''source_mismatch'',
         ''unknown_key''}. e' = UnauthorizedPeerRequest r) \<or>
       (\<exists>h. validate_json h = Inl e' \<and> (\<forall>m. e' \<noteq> ValidationError m))"
  then show ?thesis
    using assms(1,5) by force
next
  fix h env s j
  assume env: "validate_json h = Inr env" "find_jwk (mf_public_keys pm) (sig_key_id s) = Some j"
    and result: "verify_peer_request L validate_json now hdr pm self_id verb path body maxb skew
      (Some cset) c =
      (case verify_signed_request L now env j self_id verb path body maxb skew (Some cset) c of
        (Inl e, c') \<Rightarrow> (Inl e, c')
      | (Inr (ok, reason), c') \<Rightarrow> if \<not> ok then (Inl (UnauthorizedPeerRequest reason), c')
          else (Inr (peer_of env s), c'))"
  obtain r c1 where r: "verify_signed_request L now env j self_id verb path body maxb skew
      (Some cset) c = (r, c1)"
    by fastforce
  have "map_of j ''x'' \<noteq> None"
    using env(2) assms(3) by (auto dest: find_jwk_Some)
  then have "verify_model L dump_signed_request env j \<noteq> Inl e" for e
    using assms(2) [OF env(1)] verify_bytes_error
    by (auto simp: request_wire.verify_model_eq result_simps split: option.splits)
  then show ?thesis
    using verify_signed_request_refusal [OF r] assms(4,5) result r
    by (auto split: prod.splits sum.splits if_splits)
qed

lemma peer_request_refusal_reasons_witness:
  "fst (verify_peer_request toy_crypto (\<lambda>_. Inr (toy_request 0)) 0 (Some ''h'')
      (toy_manifest ''a'' ''e'') ''c'' ''GET'' ''/members'' [] None 5 (Some (memory_set 0)) []) =
    Inl (UnauthorizedPeerRequest ''wrong_target'') \<and>
   (\<exists>r \<in> {''missing_signature'', ''malformed_envelope'', ''unsigned'', ''source_mismatch'',
      ''unknown_key'', ''wrong_target'', ''method_mismatch'', ''path_mismatch'',
      ''body_too_large'', ''body_mismatch'', ''stale_timestamp'', ''bad_signature'', ''replay''}.
      UnauthorizedPeerRequest ''wrong_target'' = UnauthorizedPeerRequest r)"
proof -
  let ?run = "verify_peer_request toy_crypto (\<lambda>_. Inr (toy_request 0)) 0 (Some ''h'')
      (toy_manifest ''a'' ''e'') ''c'' ''GET'' ''/members'' [] None 5 (Some (memory_set 0)) []"
  have run: "?run = (Inl (UnauthorizedPeerRequest ''wrong_target''), [])"
    by (simp add: verify_peer_request_def toy_request_def toy_manifest_def verify_signed_request_def
        envelope_checks_def)
  show ?thesis
    using run peer_request_refusal_reasons [OF _ _ _ _ run]
    by (auto simp: toy_manifest_def public_jwk_def jwk_of_raw_def memory_set_def)
qed

text \<open>
  For nonces and node ids without a colon, two envelopes share a nonce-cache key only if
  federation, source, target and nonce are the same, so one sender cannot burn another's nonces.
\<close>

theorem nonce_cache_key_inject:
  assumes "nonce_cache_key a = nonce_cache_key b"
    and "CHR '':'' \<notin> set (sr_source_node_id a) \<union> set (sr_target_node_id a) \<union> set (sr_nonce a)"
    and "CHR '':'' \<notin> set (sr_source_node_id b) \<union> set (sr_target_node_id b) \<union> set (sr_nonce b)"
  shows "sr_federation_id a = sr_federation_id b \<and> sr_source_node_id a = sr_source_node_id b \<and>
    sr_target_node_id a = sr_target_node_id b \<and> sr_nonce a = sr_nonce b"
proof -
  note split = last_separator [where c = "CHR '':''"]
  have "(sr_federation_id a @ '':'' @ sr_source_node_id a @ '':'' @ sr_target_node_id a) @ CHR '':'' # sr_nonce a =
      (sr_federation_id b @ '':'' @ sr_source_node_id b @ '':'' @ sr_target_node_id b) @ CHR '':'' # sr_nonce b"
    using assms(1) by (simp add: nonce_cache_key_def)
  from split [OF this] have 1: "sr_nonce a = sr_nonce b"
    "(sr_federation_id a @ '':'' @ sr_source_node_id a) @ CHR '':'' # sr_target_node_id a =
     (sr_federation_id b @ '':'' @ sr_source_node_id b) @ CHR '':'' # sr_target_node_id b"
    using assms(2,3) by auto
  from split [OF 1(2)] have 2: "sr_target_node_id a = sr_target_node_id b"
    "sr_federation_id a @ CHR '':'' # sr_source_node_id a = sr_federation_id b @ CHR '':'' # sr_source_node_id b"
    using assms(2,3) by auto
  from split [OF 2(2)] show ?thesis
    using 1(1) 2(1) assms(2,3) by auto
qed

lemma nonce_cache_key_inject_witness:
  "sr_federation_id (toy_request 0) = sr_federation_id (toy_request 1) \<and>
   sr_source_node_id (toy_request 0) = sr_source_node_id (toy_request 1) \<and>
   sr_target_node_id (toy_request 0) = sr_target_node_id (toy_request 1) \<and>
   sr_nonce (toy_request 0) = sr_nonce (toy_request 1)"
  by (rule nonce_cache_key_inject) (simp_all add: nonce_cache_key_def toy_request_def)

section \<open>Manifests\<close>

text \<open>
  \<open>check_manifest\<close> answers \<open>(True, ''ok'')\<close> exactly for manifests signed by a key they
  advertise and fresh at the moment of the check, both bounds widened by the skew.
\<close>

theorem check_manifest_accepts_iff:
  "(\<exists>r. check_manifest L now m skew = Inr (True, r)) \<longleftrightarrow>
     self_signed L m \<and> td_ok (skew * usec) \<and> fresh_at now skew m"
  by (simp add: check_manifest_True_iff)

text \<open>
  A manifest that advertises the signing key verifies after \<open>sign_manifest\<close> and
  re-validation, at every time within its validity.
\<close>

theorem signed_manifest_checks:
  assumes "crypto_ok L" "reads validate dec_manifest" "manifest_ok m"
    and "find_jwk (mf_public_keys m) kid = Some (public_jwk L key)"
    and "cl_jcs L (JObj (unsigned_body (dump_manifest m))) = Inr data"
    and "td_ok (skew * usec)" "fresh_at now skew (manifest_norm m)"
  shows "\<exists>m'. sign_manifest L validate m key kid = Inr m' \<and>
    check_manifest L now m' skew = Inr (True, ''ok'')"
proof -
  obtain s where s: "sign_manifest L validate m key kid = Inr (manifest_norm (m\<lparr>mf_signature := Some s\<rparr>))"
    "self_signed L (manifest_norm (m\<lparr>mf_signature := Some s\<rparr>))"
    by (rule sign_manifest_eq [OF assms(1-5)])
  moreover have "fresh_at now skew (manifest_norm (m\<lparr>mf_signature := Some s\<rparr>))"
    using assms(7) by (simp add: fresh_at_def manifest_norm_def)
  ultimately show ?thesis
    using assms(6) by (auto simp: check_manifest_True_iff)
qed

lemma signed_manifest_checks_witness:
  "\<exists>m'. sign_manifest toy_crypto (read_as dec_manifest) (toy_manifest ''a'' ''e'') [] ''k1'' = Inr m' \<and>
    check_manifest toy_crypto 7 m' 300 = Inr (True, ''ok'')"
  by (rule signed_manifest_checks [OF toy_crypto_ok reads_read_as, where data = "[1, 2, 3]"])
    (simp_all add: manifest_ok_def toy_manifest_def extra_ok_def membership_fields_def times_ok_def
      td_ok_def usec_def fresh_at_def manifest_norm_def day_usec_def)

text \<open>
  Signatures bind the whole content: if a key has only ever signed the canonical forms of
  some manifests, a manifest that verifies under it has the content of one of them.
\<close>

theorem verified_manifest_content:
  assumes "verify_model L dump_manifest m j = Inr True" "public_key_from_jwk j = Inr pk"
    and "jcs_injective L"
    and "\<And>s d. cl_verify L pk s d \<Longrightarrow>
      \<exists>m' \<in> originals. cl_jcs L (JObj (unsigned_body (dump_manifest m'))) = Inr d"
  shows "\<exists>m' \<in> originals. json_equiv (JObj (unsigned_body (dump_manifest m)))
      (JObj (unsigned_body (dump_manifest m')))"
  by (rule manifest_wire.verified_content [OF assms(1,2), where
        sigs = "{d. \<exists>m' \<in> originals. cl_jcs L (JObj (unsigned_body (dump_manifest m'))) = Inr d}"])
    (use assms(3,4) in auto)

lemma verified_manifest_content_witness:
  "let m = toy_signed (toy_manifest ''a'' ''e''); J = JObj (unsigned_body (dump_manifest m));
       L = toy_crypto\<lparr>cl_jcs := \<lambda>j. if j = J then Inr [1] else Inl (ValueError []),
             cl_verify := \<lambda>pk s d. d = [1]\<rparr>
   in \<exists>m' \<in> {m}. json_equiv J (JObj (unsigned_body (dump_manifest m')))"
proof -
  let ?m = "toy_signed (toy_manifest ''a'' ''e'')"
  let ?J = "JObj (unsigned_body (dump_manifest ?m))"
  let ?L = "toy_crypto\<lparr>cl_jcs := \<lambda>j. if j = ?J then Inr [1] else Inl (ValueError []),
    cl_verify := \<lambda>pk s d. d = [1]\<rparr>"
  have pk: "public_key_from_jwk (public_jwk ?L []) = Inr (toy_public [])"
    using toy_crypto_ok by (simp add: public_jwk_def toy_crypto_def crypto_ok_def public_key_of_jwk)
  have "verify_model ?L dump_manifest ?m (public_jwk ?L []) = Inr True"
    using pk by (simp add: manifest_wire.verify_model_True verify_bytes_True)
      (simp add: toy_signed_def sign_bytes_def)
  moreover have "json_equiv ?J ?J"
    by (simp add: toy_signed_def toy_manifest_def dump_manifest_def unsigned_body_def json_strs_def
        public_key_json_def public_jwk_def jwk_of_raw_def json_str_dict_def membership_json_def
        drop_null_def)
  ultimately show ?thesis
    using verified_manifest_content [of ?L ?m, OF _ pk, of "{?m}"]
    by (auto simp: jcs_injective_def Let_def)
qed

text \<open>
  A signed manifest whose \<open>expires_at\<close> lies within the skew of the last representable
  instant makes \<open>check_manifest\<close> raise \<open>OverflowError\<close> instead of answering.
\<close>

theorem check_manifest_overflows:
  assumes "self_signed L m" "td_ok (skew * usec)" "mf_expires_at m = Some e"
    and "\<not> dt_ok (e + skew * usec)"
  shows "\<exists>msg. check_manifest L now m skew = Inl (OverflowError msg)"
  using assms by (auto simp: check_manifest_def self_signed_def td_seconds_def expired_after_def
      dt_add_def)

lemma check_manifest_overflows_witness:
  "\<exists>msg. check_manifest toy_crypto 0
     (toy_signed (toy_manifest ''a'' ''e'')\<lparr>mf_expires_at := Some (3652059 * day_usec - usec)\<rparr>) 300 =
   Inl (OverflowError msg)"
  by (rule check_manifest_overflows [where e = "3652059 * day_usec - usec"])
    (use toy_verify [of "toy_manifest ''a'' ''e''\<lparr>mf_expires_at := Some (3652059 * day_usec - usec)\<rparr>"]
     in \<open>simp_all add: self_signed_def toy_signed_def toy_manifest_def td_ok_def dt_ok_def
       usec_def day_usec_def\<close>)

end
