(* ===== verification/Codec_Properties.thy ===== *)
theory Codec_Properties
  imports Samples
begin

text \<open>
  Round trips of the text encodings and of the wire classes: what is written is read back,
  up to the whole seconds of timestamps and the null members that dumps leave out.
\<close>

text \<open>
  \<open>b64u_decode\<close> gives back the bytes \<open>b64u_encode\<close> wrote, and the text has no padding
  and no colon.
\<close>

theorem b64u_round_trip:
  "b64u_decode (b64u_encode bs) = Inr bs \<and> set (b64u_encode bs) \<subseteq> set b64_alphabet \<and>
   CHR ''='' \<notin> set (b64u_encode bs) \<and> CHR '':'' \<notin> set (b64u_encode bs)"
proof -
  have "CHR ''='' \<notin> set b64_alphabet"
    by (simp add: b64_alphabet_def)
  then show ?thesis
    using set_b64u_encode [of bs] by auto
qed

text \<open>
  \<open>iso_z\<close> writes every representable instant so that reading the text gives the instant
  cut to the second; writing that again gives the same text.
\<close>

theorem iso_z_round_trip:
  assumes "dt_ok t"
  shows "\<exists>s. iso_z (Some t) = Some s \<and> parse_iso_z s = Some (trunc_sec t) \<and>
    trunc_sec t \<le> t \<and> t < trunc_sec t + usec \<and> iso_z (Some (trunc_sec t)) = Some s"
  using parse_iso_instant [OF assms] trunc_sec_le [of t] by (simp add: iso_z_def)

lemma iso_z_round_trip_witness:
  "\<exists>s. iso_z (Some 12345678) = Some s \<and> parse_iso_z s = Some (trunc_sec 12345678)"
  using iso_z_round_trip [of 12345678] by (auto simp: dt_ok_def day_usec_def)

text \<open>
  A manifest survives the wire: its JSON dump reads back as the manifest with timestamps
  cut to the second and null extra members dropped, and dumping that gives the same JSON, so
  the signed bytes do not change in transit.
\<close>

theorem manifest_round_trip:
  assumes "manifest_ok m"
  shows "dec_manifest (JObj (dump_manifest m)) = Some (manifest_norm m) \<and>
    dump_manifest (manifest_norm m) = dump_manifest m"
  using dec_dump_manifest [OF assms] manifest_norm_dump by blast

lemma manifest_round_trip_witness:
  "dec_manifest (JObj (dump_manifest (toy_manifest ''a'' ''e''))) =
     Some (manifest_norm (toy_manifest ''a'' ''e''))"
  using manifest_round_trip [of "toy_manifest ''a'' ''e''"]
  by (simp add: manifest_ok_def toy_manifest_def extra_ok_def membership_fields_def times_ok_def)

text \<open>
  The SHA-256 text of a body is \<open>sha256:\<close> and 64 hexadecimal digits, and two bodies with
  the same text have the same digest, so comparing texts compares digests.
\<close>

theorem sha256_hex_binds:
  "length (sha256_hex body) = 71 \<and> (sha256_hex a = sha256_hex b \<longleftrightarrow> sha256 a = sha256 b)"
  by (simp add: sha256_hex_def hexdigest_inject length_hexdigest length_sha256)

end
