(* ===== verification/Py_Url.thy ===== *)
theory Py_Url
  imports Fed_Prelude
begin

text \<open>
  The parts of Python's standard library the URL and address checks rest on, as written in
  CPython 3.11 (the package's minimum version): splitting strings, \<^verbatim>\<open>ipaddress.ip_address\<close>
  with the classification of addresses, and \<^verbatim>\<open>urllib.parse.urlsplit\<close>/\<^verbatim>\<open>urlparse\<close> on
  ASCII input.
\<close>

section \<open>Splitting strings\<close>

fun str_split :: "char \<Rightarrow> string \<Rightarrow> string list" where
  "str_split c [] = [[]]"
| "str_split c (x # xs) =
     (if x = c then [] # str_split c xs
      else (case str_split c xs of [] \<Rightarrow> [[x]] | y # ys \<Rightarrow> (x # y) # ys))"

text \<open>\<^verbatim>\<open>s.partition(c)\<close>: before, whether \<open>c\<close> occurs, after.\<close>

definition str_partition :: "char \<Rightarrow> string \<Rightarrow> string \<times> bool \<times> string" where
  "str_partition c s =
     (takeWhile (\<lambda>x. x \<noteq> c) s, c \<in> set s, drop 1 (dropWhile (\<lambda>x. x \<noteq> c) s))"

text \<open>\<^verbatim>\<open>s.rpartition(c)[2]\<close>\<close>

definition after_last :: "char \<Rightarrow> string \<Rightarrow> string" where
  "after_last c s = rev (takeWhile (\<lambda>x. x \<noteq> c) (rev s))"

definition char_code :: "char \<Rightarrow> nat" where "char_code c = of_char c"

definition is_digit :: "char \<Rightarrow> bool" where
  "is_digit c \<longleftrightarrow> 48 \<le> char_code c \<and> char_code c \<le> 57"

definition is_alpha :: "char \<Rightarrow> bool" where
  "is_alpha c \<longleftrightarrow> 65 \<le> char_code c \<and> char_code c \<le> 90 \<or> 97 \<le> char_code c \<and> char_code c \<le> 122"

definition hex_value :: "char \<Rightarrow> int option" where
  "hex_value c =
     (if is_digit c then Some (int (char_code c) - 48)
      else if 65 \<le> char_code c \<and> char_code c \<le> 70 then Some (int (char_code c) - 55)
      else if 97 \<le> char_code c \<and> char_code c \<le> 102 then Some (int (char_code c) - 87)
      else None)"

section \<open>IP addresses\<close>

datatype ip_address = IPv4 int | IPv6 int

fun dec_value :: "int \<Rightarrow> string \<Rightarrow> int" where
  "dec_value acc [] = acc"
| "dec_value acc (c # cs) = dec_value (acc * 10 + (int (char_code c) - 48)) cs"

definition parse_octet :: "string \<Rightarrow> int option" where
  "parse_octet s =
     (if s = [] \<or> \<not> list_all is_digit s \<or> 3 < length s \<or> s \<noteq> ''0'' \<and> hd s = CHR ''0''
         \<or> 255 < dec_value 0 s then None
      else Some (dec_value 0 s))"

definition ip4 :: "int \<Rightarrow> int \<Rightarrow> int \<Rightarrow> int \<Rightarrow> int" where
  "ip4 a b c d = ((a * 256 + b) * 256 + c) * 256 + d"

definition parse_ipv4 :: "string \<Rightarrow> int option" where
  "parse_ipv4 s =
     (case map parse_octet (str_split (CHR ''.'') s) of
        [Some a, Some b, Some c, Some d] \<Rightarrow> Some (ip4 a b c d)
      | _ \<Rightarrow> None)"

fun hextet_value :: "int \<Rightarrow> string \<Rightarrow> int option" where
  "hextet_value acc [] = Some acc"
| "hextet_value acc (c # cs) =
     (case hex_value c of None \<Rightarrow> None | Some h \<Rightarrow> hextet_value (acc * 16 + h) cs)"

definition parse_hextet :: "string \<Rightarrow> int option" where
  "parse_hextet s = (if s = [] \<or> 4 < length s then None else hextet_value 0 s)"

fun hextets_value :: "int \<Rightarrow> string list \<Rightarrow> int option" where
  "hextets_value acc [] = Some acc"
| "hextets_value acc (p # ps) =
     (case parse_hextet p of None \<Rightarrow> None | Some h \<Rightarrow> hextets_value (acc * 65536 + h) ps)"

definition hex_char :: "int \<Rightarrow> char" where
  "hex_char n = char_of (nat (if n < 10 then n + 48 else n + 87))"

text \<open>A 16-bit number in hexadecimal; leading zeros do not change what is read back.\<close>

definition hex16 :: "int \<Rightarrow> string" where
  "hex16 n = [hex_char (n div 4096 mod 16), hex_char (n div 256 mod 16), hex_char (n div 16 mod 16),
     hex_char (n mod 16)]"

text \<open>An IPv4 address as the last part stands for two hextets.\<close>

definition ipv6_parts :: "string \<Rightarrow> string list option" where
  "ipv6_parts s =
     (let parts = str_split (CHR '':'') s in
      if length parts < 3 then None
      else if CHR ''.'' \<in> set (last parts)
      then (case parse_ipv4 (last parts) of
          None \<Rightarrow> None
        | Some v \<Rightarrow> Some (butlast parts @ [hex16 (v div 65536 mod 65536), hex16 (v mod 65536)]))
      else Some parts)"

definition parse_ipv6_parts :: "string list \<Rightarrow> int option" where
  "parse_ipv6_parts parts =
     (let n = length parts in
      if 9 < n then None
      else (case filter (\<lambda>i. parts ! i = []) [1..<n - 1] of
        [] \<Rightarrow> if n \<noteq> 8 \<or> hd parts = [] \<or> last parts = [] then None else hextets_value 0 parts
      | [k] \<Rightarrow>
          let hi = (if hd parts = [] then k - 1 else k);
              lo = (if last parts = [] then n - k - 2 else n - k - 1)
          in if hd parts = [] \<and> 0 < hi \<or> last parts = [] \<and> 0 < lo \<or> 7 < hi + lo then None
             else (case hextets_value 0 (take hi parts) of
                 None \<Rightarrow> None
               | Some v \<Rightarrow> hextets_value (v * 65536 ^ (8 - (hi + lo))) (drop (n - lo) parts))
      | _ \<Rightarrow> None))"

text \<open>The zone after \<^verbatim>\<open>%\<close> must not be empty or contain another \<^verbatim>\<open>%\<close>.\<close>

definition parse_ipv6 :: "string \<Rightarrow> int option" where
  "parse_ipv6 s =
     (if CHR ''/'' \<in> set s then None
      else (case str_partition (CHR 0x25) s of (addr, sep, scope) \<Rightarrow>
        if sep \<and> (scope = [] \<or> CHR 0x25 \<in> set scope) then None
        else (case ipv6_parts addr of None \<Rightarrow> None | Some parts \<Rightarrow> parse_ipv6_parts parts)))"

text \<open>\<^verbatim>\<open>ipaddress.ip_address\<close>; \<open>None\<close> is the \<^verbatim>\<open>ValueError\<close>.\<close>

definition parse_ip :: "string \<Rightarrow> ip_address option" where
  "parse_ip s = (case parse_ipv4 s of Some v \<Rightarrow> Some (IPv4 v)
     | None \<Rightarrow> map_option IPv6 (parse_ipv6 s))"

definition in_net :: "nat \<Rightarrow> int \<Rightarrow> int \<times> nat \<Rightarrow> bool" where
  "in_net width a net = (a div 2 ^ (width - snd net) = fst net div 2 ^ (width - snd net))"

definition private4_nets :: "(int \<times> nat) list" where
  "private4_nets = [(ip4 0 0 0 0, 8), (ip4 10 0 0 0, 8), (ip4 127 0 0 0, 8), (ip4 169 254 0 0, 16),
     (ip4 172 16 0 0, 12), (ip4 192 0 0 0, 24), (ip4 192 0 0 170, 31), (ip4 192 0 2 0, 24),
     (ip4 192 168 0 0, 16), (ip4 198 18 0 0, 15), (ip4 198 51 100 0, 24), (ip4 203 0 113 0, 24),
     (ip4 240 0 0 0, 4), (ip4 255 255 255 255, 32)]"

definition private4_exceptions :: "(int \<times> nat) list" where
  "private4_exceptions = [(ip4 192 0 0 9, 32), (ip4 192 0 0 10, 32)]"

definition is_private4 :: "int \<Rightarrow> bool" where
  "is_private4 a \<longleftrightarrow>
     list_ex (in_net 32 a) private4_nets \<and> \<not> list_ex (in_net 32 a) private4_exceptions"

text \<open>The 128-bit number whose leading hextets are given.\<close>

definition ip6_prefix :: "int list \<Rightarrow> int" where
  "ip6_prefix hs = fold (\<lambda>h acc. acc * 65536 + h) (take 8 (hs @ replicate 8 0)) 0"

definition private6_nets :: "(int \<times> nat) list" where
  "private6_nets = [(1, 128), (0, 128), (0xFFFF * 2 ^ 32, 96),
     (ip6_prefix [0x64, 0xFF9B, 1], 48), (ip6_prefix [0x100], 64), (ip6_prefix [0x2001], 23),
     (ip6_prefix [0x2001, 0xDB8], 32), (ip6_prefix [0x2002], 16), (ip6_prefix [0xFC00], 7),
     (ip6_prefix [0xFE80], 10)]"

definition private6_exceptions :: "(int \<times> nat) list" where
  "private6_exceptions = [(ip6_prefix [0x2001, 1] + 1, 128), (ip6_prefix [0x2001, 1] + 2, 128),
     (ip6_prefix [0x2001, 3], 32), (ip6_prefix [0x2001, 4, 0x112], 48),
     (ip6_prefix [0x2001, 0x20], 28), (ip6_prefix [0x2001, 0x30], 28)]"

definition reserved6_nets :: "(int \<times> nat) list" where
  "reserved6_nets = [(0, 8), (ip6_prefix [0x100], 8), (ip6_prefix [0x200], 7),
     (ip6_prefix [0x400], 6), (ip6_prefix [0x800], 5), (ip6_prefix [0x1000], 4),
     (ip6_prefix [0x4000], 3), (ip6_prefix [0x6000], 3), (ip6_prefix [0x8000], 3),
     (ip6_prefix [0xA000], 3), (ip6_prefix [0xC000], 3), (ip6_prefix [0xE000], 4),
     (ip6_prefix [0xF000], 5), (ip6_prefix [0xF800], 6), (ip6_prefix [0xFE00], 9)]"

fun is_private :: "ip_address \<Rightarrow> bool" where
  "is_private (IPv4 a) = is_private4 a"
| "is_private (IPv6 a) =
     (if a div 2 ^ 32 = 0xFFFF then is_private4 (a mod 2 ^ 32)
      else list_ex (in_net 128 a) private6_nets \<and> \<not> list_ex (in_net 128 a) private6_exceptions)"

fun is_loopback :: "ip_address \<Rightarrow> bool" where
  "is_loopback (IPv4 a) = in_net 32 a (ip4 127 0 0 0, 8)"
| "is_loopback (IPv6 a) = (a = 1)"

fun is_link_local :: "ip_address \<Rightarrow> bool" where
  "is_link_local (IPv4 a) = in_net 32 a (ip4 169 254 0 0, 16)"
| "is_link_local (IPv6 a) = in_net 128 a (ip6_prefix [0xFE80], 10)"

fun is_reserved :: "ip_address \<Rightarrow> bool" where
  "is_reserved (IPv4 a) = in_net 32 a (ip4 240 0 0 0, 4)"
| "is_reserved (IPv6 a) = list_ex (in_net 128 a) reserved6_nets"

section \<open>URLs\<close>

record split_result =
  us_scheme :: string
  us_netloc :: string
  us_path :: string

definition is_scheme_char :: "char \<Rightarrow> bool" where
  "is_scheme_char c \<longleftrightarrow> is_alpha c \<or> is_digit c \<or> c \<in> {CHR ''+'', CHR ''-'', CHR ''.''}"

definition url_strip :: "string \<Rightarrow> string" where
  "url_strip url = filter (\<lambda>c. char_code c \<notin> {9, 10, 13}) (dropWhile (\<lambda>c. char_code c \<le> 32) url)"

text \<open>The scheme (lower case) and what follows it.\<close>

definition split_scheme :: "string \<Rightarrow> string \<times> string" where
  "split_scheme url =
     (case str_partition (CHR '':'') url of (name, found, rest) \<Rightarrow>
        if found \<and> name \<noteq> [] \<and> is_alpha (hd url) \<and> list_all is_scheme_char name
        then (str_lower name, rest) else ([], url))"

definition split_netloc :: "string \<Rightarrow> string \<times> string" where
  "split_netloc s =
     (let p = (\<lambda>c. c \<notin> {CHR ''/'', CHR ''?'', CHR ''#''}) in (takeWhile p s, dropWhile p s))"

text \<open>\<^verbatim>\<open>_check_bracketed_host\<close>: an IPv6 address or an IPvFuture literal.\<close>

definition bracketed_host_ok :: "string \<Rightarrow> bool" where
  "bracketed_host_ok h =
     (if str_startswith h ''v''
      then (case str_partition (CHR ''.'') (drop 1 h) of (hex, found, rest) \<Rightarrow>
        hex \<noteq> [] \<and> list_all (\<lambda>c. hex_value c \<noteq> None) hex \<and> found \<and> rest \<noteq> []
        \<and> CHR 0x0A \<notin> set rest)
      else (case parse_ip h of Some (IPv6 _) \<Rightarrow> True | _ \<Rightarrow> False))"

definition netloc_ok :: "string \<Rightarrow> bool" where
  "netloc_ok netloc \<longleftrightarrow>
     (CHR ''['' \<in> set netloc) = (CHR '']'' \<in> set netloc) \<and>
     (CHR ''['' \<in> set netloc \<longrightarrow>
        bracketed_host_ok (fst (str_partition (CHR '']'')
          (snd (snd (str_partition (CHR ''['') netloc))))))"

definition urlsplit :: "string \<Rightarrow> split_result result" where
  "urlsplit url =
     (case split_scheme (url_strip url) of (scheme, rest) \<Rightarrow>
      (case (if str_startswith rest ''//'' then split_netloc (drop 2 rest) else ([], rest)) of
         (netloc, rest') \<Rightarrow>
           if netloc_ok netloc
           then Inr \<lparr>us_scheme = scheme, us_netloc = netloc,
             us_path = takeWhile (\<lambda>c. c \<notin> {CHR ''?'', CHR ''#''}) rest'\<rparr>
           else Inl (ValueError ''Invalid IPv6 URL'')))"

definition uses_params :: "string list" where
  "uses_params = [[], ''ftp'', ''hdl'', ''prospero'', ''http'', ''imap'', ''https'', ''shttp'', ''rtsp'',
     ''rtsps'', ''rtspu'', ''sip'', ''sips'', ''mms'', ''sftp'', ''tel'']"

text \<open>\<^verbatim>\<open>_splitparams(url)[0]\<close>: the path up to the first semicolon of its last segment.\<close>

definition drop_params :: "string \<Rightarrow> string" where
  "drop_params path =
     (let seg = after_last (CHR ''/'') path
      in take (length path - length seg) path @ takeWhile (\<lambda>c. c \<noteq> CHR '';'') seg)"

definition urlparse :: "string \<Rightarrow> split_result result" where
  "urlparse url =
     rbind (urlsplit url) (\<lambda>u.
       Inr (if us_scheme u \<in> set uses_params then u\<lparr>us_path := drop_params (us_path u)\<rparr> else u))"

text \<open>The \<^verbatim>\<open>hostname\<close> attribute; the empty string stands for \<^verbatim>\<open>None\<close>.\<close>

definition us_hostname :: "split_result \<Rightarrow> string" where
  "us_hostname u =
     (let hostinfo = after_last (CHR ''@'') (us_netloc u) in
      case str_partition (CHR ''['') hostinfo of (_, have_open_br, bracketed) \<Rightarrow>
        let host = (if have_open_br then fst (str_partition (CHR '']'') bracketed)
                    else fst (str_partition (CHR '':'') hostinfo))
        in case str_partition (CHR 0x25) host of (name, percent, zone) \<Rightarrow>
             str_lower name @ (if percent then CHR 0x25 # zone else []))"

end
