(* ===== verification/Net_Urls.thy ===== *)
theory Net_Urls
  imports Py_Url
begin

text \<open>
  The SSRF guard (\<^verbatim>\<open>net.py\<close>) and the URL joiner (\<^verbatim>\<open>urls.py\<close>). Name resolution
  (\<^verbatim>\<open>socket.getaddrinfo\<close>) is a parameter that gives the addresses as text.
\<close>

section \<open>The SSRF guard\<close>

definition is_disallowed_ip :: "ip_address \<Rightarrow> bool" where
  "is_disallowed_ip ip \<longleftrightarrow> is_private ip \<or> is_loopback ip \<or> is_link_local ip \<or> is_reserved ip"

fun check_addresses :: "string \<Rightarrow> string list \<Rightarrow> unit result" where
  "check_addresses host [] = Inr ()"
| "check_addresses host (a # rest) =
     (case parse_ip a of
        None \<Rightarrow> Inl (ValueError (a @ '' does not appear to be an IPv4 or IPv6 address''))
      | Some ip \<Rightarrow>
          if is_disallowed_ip ip
          then Inl (SSRFError (host @ '' resolves to non-public address '' @ a))
          else check_addresses host rest)"

definition assert_public_host ::
    "(string \<Rightarrow> ('w, string list) io) \<Rightarrow> string \<Rightarrow> bool \<Rightarrow> ('w, unit) io" where
  "assert_public_host getaddrinfo url allow_private w =
     (case urlparse url of
        Inl e \<Rightarrow> (Inl e, w)
      | Inr u \<Rightarrow>
        let host = us_hostname u in
        if host = [] then (Inl (SSRFError (''no host in url: '' @ url)), w)
        else if allow_private then (Inr (), w)
        else (case getaddrinfo host w of
            (Inl e, w') \<Rightarrow> (Inl e, w')
          | (Inr addrs, w') \<Rightarrow> (check_addresses host addrs, w')))"

lemma check_addresses_ok:
  "check_addresses host addrs = Inr () \<longleftrightarrow>
     (\<forall>a \<in> set addrs. \<exists>ip. parse_ip a = Some ip \<and> \<not> is_disallowed_ip ip)"
  by (induction addrs) (auto split: option.splits)

section \<open>Which addresses are public\<close>

lemma div256: "0 \<le> d \<Longrightarrow> d < 256 \<Longrightarrow> (x * 256 + d) div 256 = (x :: int)"
  by simp

lemma ip4_div:
  assumes "0 \<le> b" "b < 256" "0 \<le> c" "c < 256" "0 \<le> d" "d < 256"
  shows "ip4 a b c d div 256 = (a * 256 + b) * 256 + c"
    and "ip4 a b c d div 65536 = a * 256 + b"
    and "ip4 a b c d div 16777216 = a"
    and "ip4 a b c d div 268435456 = a div 16"
    and "ip4 a b c d div 1048576 = a * 16 + b div 16"
    and "ip4 a b c d div 131072 = a * 128 + b div 2"
    and "ip4 a b c d div 2 = ((a * 256 + b) * 256 + c) * 128 + d div 2"
proof -
  show 1: "ip4 a b c d div 256 = (a * 256 + b) * 256 + c"
    using assms unfolding ip4_def by (intro div256)
  have "ip4 a b c d div (256 * 256) = a * 256 + b"
    using assms by (simp only: zdiv_zmult2_eq 1 div256)
  then show 2: "ip4 a b c d div 65536 = a * 256 + b" by simp
  have "ip4 a b c d div (65536 * 256) = a"
    using assms by (simp only: zdiv_zmult2_eq 2 div256)
  then show 3: "ip4 a b c d div 16777216 = a" by simp
  have "ip4 a b c d div (16777216 * 16) = a div 16"
    by (simp only: zdiv_zmult2_eq 3)
  then show "ip4 a b c d div 268435456 = a div 16" by simp
  have "ip4 a b c d div (65536 * 16) = (a * 256 + b) div 16"
    by (simp only: zdiv_zmult2_eq 2)
  also have "\<dots> = a * 16 + b div 16" by simp
  finally show "ip4 a b c d div 1048576 = a * 16 + b div 16" by simp
  have "ip4 a b c d div (65536 * 2) = (a * 256 + b) div 2"
    by (simp only: zdiv_zmult2_eq 2)
  also have "\<dots> = a * 128 + b div 2" by simp
  finally show "ip4 a b c d div 131072 = a * 128 + b div 2" by simp
  show "ip4 a b c d div 2 = ((a * 256 + b) * 256 + c) * 128 + d div 2"
    by (simp add: ip4_def)
qed

text \<open>The IPv4 ranges the guard refuses, by octets.\<close>

definition non_public_octets :: "int \<Rightarrow> int \<Rightarrow> int \<Rightarrow> int \<Rightarrow> bool" where
  "non_public_octets a b c d \<longleftrightarrow>
     a \<in> {0, 10, 127} \<or> 240 \<le> a \<or> a = 169 \<and> b = 254 \<or> a = 172 \<and> 16 \<le> b \<and> b \<le> 31 \<or>
     a = 192 \<and> b = 168 \<or> a = 192 \<and> b = 0 \<and> c = 0 \<and> d \<notin> {9, 10} \<or> a = 192 \<and> b = 0 \<and> c = 2 \<or>
     a = 198 \<and> b \<in> {18, 19} \<or> a = 198 \<and> b = 51 \<and> c = 100 \<or> a = 203 \<and> b = 0 \<and> c = 113"

lemma digit_inject:
  assumes "0 \<le> b" "b < n" "0 \<le> q" "q < n"
  shows "a * n + b = p * n + q \<longleftrightarrow> a = p \<and> b = (q :: int)"
proof
  assume e: "a * n + b = p * n + q"
  have "(a * n + b) div n = a" "(p * n + q) div n = p"
    using assms by simp_all
  with e show "a = p \<and> b = q" by simp
qed simp

definition octets :: "int \<Rightarrow> int \<Rightarrow> int \<Rightarrow> int \<Rightarrow> bool" where
  "octets a b c d \<longleftrightarrow>
     0 \<le> a \<and> a < 256 \<and> 0 \<le> b \<and> b < 256 \<and> 0 \<le> c \<and> c < 256 \<and> 0 \<le> d \<and> d < 256"

lemma in_net_ip4:
  assumes "octets a b c d" "octets p q r s"
  shows "in_net 32 (ip4 a b c d) (ip4 p q r s, 4) \<longleftrightarrow> a div 16 = p div 16"
    and "in_net 32 (ip4 a b c d) (ip4 p q r s, 8) \<longleftrightarrow> a = p"
    and "in_net 32 (ip4 a b c d) (ip4 p q r s, 12) \<longleftrightarrow> a = p \<and> b div 16 = q div 16"
    and "in_net 32 (ip4 a b c d) (ip4 p q r s, 15) \<longleftrightarrow> a = p \<and> b div 2 = q div 2"
    and "in_net 32 (ip4 a b c d) (ip4 p q r s, 16) \<longleftrightarrow> a = p \<and> b = q"
    and "in_net 32 (ip4 a b c d) (ip4 p q r s, 24) \<longleftrightarrow> a = p \<and> b = q \<and> c = r"
    and "in_net 32 (ip4 a b c d) (ip4 p q r s, 31) \<longleftrightarrow> a = p \<and> b = q \<and> c = r \<and> d div 2 = s div 2"
    and "in_net 32 (ip4 a b c d) (ip4 p q r s, 32) \<longleftrightarrow> a = p \<and> b = q \<and> c = r \<and> d = s"
proof -
  have bounds: "0 \<le> b" "b < 256" "0 \<le> c" "c < 256" "0 \<le> d" "d < 256"
    "0 \<le> q" "q < 256" "0 \<le> r" "r < 256" "0 \<le> s" "s < 256"
    using assms by (simp_all add: octets_def)
  note l = ip4_div [OF bounds(1-6)] and r = ip4_div [OF bounds(7-12)]
  have half: "b div 16 < 16" "q div 16 < 16" "b div 2 < 128" "q div 2 < 128" "d div 2 < 128"
    "s div 2 < 128" "0 \<le> b div 16" "0 \<le> q div 16" "0 \<le> b div 2" "0 \<le> q div 2"
    "0 \<le> d div 2" "0 \<le> s div 2"
    using bounds by simp_all
  have w: "in_net 32 x (y, n) \<longleftrightarrow> x div 2 ^ (32 - n) = y div 2 ^ (32 - n)" for x y n
    by (simp add: in_net_def)
  have pow: "(2 :: int) ^ (32 - 4) = 268435456" "(2 :: int) ^ (32 - 8) = 16777216"
    "(2 :: int) ^ (32 - 12) = 1048576" "(2 :: int) ^ (32 - 15) = 131072"
    "(2 :: int) ^ (32 - 16) = 65536" "(2 :: int) ^ (32 - 24) = 256" "(2 :: int) ^ (32 - 31) = 2"
    "(2 :: int) ^ (32 - 32) = 1"
    by simp_all
  note j = digit_inject [where n = 256, OF bounds(1,2,7,8)]
    digit_inject [where n = 256, OF bounds(3,4,9,10)]
    digit_inject [where n = 256, OF bounds(5,6,11,12)]
    digit_inject [OF half(7,1,8,2)] digit_inject [OF half(9,3,10,4)] digit_inject [OF half(11,5,12,6)]
  show "in_net 32 (ip4 a b c d) (ip4 p q r s, 4) \<longleftrightarrow> a div 16 = p div 16"
    "in_net 32 (ip4 a b c d) (ip4 p q r s, 8) \<longleftrightarrow> a = p"
    "in_net 32 (ip4 a b c d) (ip4 p q r s, 12) \<longleftrightarrow> a = p \<and> b div 16 = q div 16"
    "in_net 32 (ip4 a b c d) (ip4 p q r s, 15) \<longleftrightarrow> a = p \<and> b div 2 = q div 2"
    "in_net 32 (ip4 a b c d) (ip4 p q r s, 16) \<longleftrightarrow> a = p \<and> b = q"
    "in_net 32 (ip4 a b c d) (ip4 p q r s, 24) \<longleftrightarrow> a = p \<and> b = q \<and> c = r"
    "in_net 32 (ip4 a b c d) (ip4 p q r s, 31) \<longleftrightarrow> a = p \<and> b = q \<and> c = r \<and> d div 2 = s div 2"
    by (simp_all only: w pow l r j conj_assoc)
  show "in_net 32 (ip4 a b c d) (ip4 p q r s, 32) \<longleftrightarrow> a = p \<and> b = q \<and> c = r \<and> d = s"
    unfolding w pow by (simp only: ip4_def j conj_assoc div_by_1)
qed

lemma is_disallowed_ip4_octets:
  assumes "octets a b c d"
  shows "is_disallowed_ip (IPv4 (ip4 a b c d)) \<longleftrightarrow> non_public_octets a b c d"
proof -
  have "a div 16 = 15 \<longleftrightarrow> 240 \<le> a" "b div 16 = 1 \<longleftrightarrow> 16 \<le> b \<and> b \<le> 31"
    "b div 2 = 9 \<longleftrightarrow> b \<in> {18, 19}" "d div 2 = 85 \<longleftrightarrow> d \<in> {170, 171}"
    using assms by (auto simp: octets_def)
  note small = this
  have o: "octets p q r s" if "0 \<le> p" "p < 256" "0 \<le> q" "q < 256" "0 \<le> r" "r < 256" "0 \<le> s" "s < 256"
    for p q r s
    using that by (simp add: octets_def)
  show ?thesis
    unfolding is_disallowed_ip_def is_private.simps is_loopback.simps is_link_local.simps
      is_reserved.simps is_private4_def private4_nets_def private4_exceptions_def
      non_public_octets_def
    by (simp add: in_net_ip4 assms o small) (cases "a = 192"; cases "a = 255"; auto)
qed

text \<open>An IPv4-mapped IPv6 address is judged at least as strictly as the IPv4 address in it.\<close>

lemma mapped_disallowed:
  "0 \<le> v \<Longrightarrow> v < 2 ^ 32 \<Longrightarrow> is_private (IPv4 v) \<Longrightarrow> is_disallowed_ip (IPv6 (0xFFFF * 2 ^ 32 + v))"
proof -
  assume v: "0 \<le> v" "v < 2 ^ 32" "is_private (IPv4 v)"
  have dm: "(x * n + v) div n = x \<and> (x * n + v) mod n = v" if "v < n" for x n :: int
    using v(1) that by simp
  have "(0xFFFF * 2 ^ 32 + v) div 2 ^ 32 = 0xFFFF" "(0xFFFF * 2 ^ 32 + v) mod 2 ^ 32 = v"
    using dm [OF v(2), of "0xFFFF"] by blast+
  then have "is_private (IPv6 (0xFFFF * 2 ^ 32 + v))"
    using v(3) by (simp only: is_private.simps simp_thms if_True)
  then show ?thesis
    unfolding is_disallowed_ip_def by (rule disjI1)
qed

section \<open>Joining URLs\<close>

definition well_known_url :: "string \<Rightarrow> string \<Rightarrow> string result" where
  "well_known_url base_url path =
     rbind (urlsplit path) (\<lambda>p.
       if us_scheme p \<noteq> [] then Inr path
       else rbind (urlsplit base_url) (\<lambda>u.
         if us_scheme u = [] \<or> us_netloc u = []
         then Inl (ValueError (''base_url must be an absolute URL: '' @ base_url))
         else let base = str_rstrip (CHR ''/'') base_url; suffix = str_lstrip (CHR ''/'') path in
           Inr (if suffix = [] then base else base @ ''/'' @ suffix)))"

lemma str_lstrip_decomp: "\<exists>n. s = replicate n c @ str_lstrip c s"
proof -
  have "\<forall>x \<in> set (takeWhile (\<lambda>x. x = c) s). x = c"
    by (auto dest: set_takeWhileD)
  then have "takeWhile (\<lambda>x. x = c) s = replicate (length (takeWhile (\<lambda>x. x = c) s)) c"
    by (metis replicate_length_same)
  then show ?thesis
    by (metis str_lstrip_def takeWhile_dropWhile_id)
qed

section \<open>Properties\<close>

text \<open>
  The SSRF guard lets a URL pass only if it names a host and, unless private hosts are
  allowed, name resolution succeeds and every address it gives is a public one; nothing else
  makes it pass.
\<close>

theorem assert_public_host_iff:
  "assert_public_host getaddrinfo url allow_private w = (Inr (), w') \<longleftrightarrow>
     (\<exists>u. urlparse url = Inr u \<and> us_hostname u \<noteq> [] \<and>
        (if allow_private then w' = w
         else \<exists>addrs. getaddrinfo (us_hostname u) w = (Inr addrs, w') \<and>
           (\<forall>a \<in> set addrs. \<exists>ip. parse_ip a = Some ip \<and> \<not> is_disallowed_ip ip)))"
  by (cases "urlparse url")
    (auto simp: assert_public_host_def Let_def check_addresses_ok split: prod.splits sum.splits)

lemma assert_public_host_iff_witness:
  "assert_public_host (\<lambda>h w. (Inr [''8.8.8.8''], w)) ''https://h/m'' False () = (Inr (), ()) \<and>
   (\<forall>w'. assert_public_host (\<lambda>h w. (Inr [''8.8.8.8'', ''127.0.0.1''], w)) ''https://h/m'' False () \<noteq> (Inr (), w'))"
proof -
  have "urlparse ''https://h/m'' = Inr \<lparr>us_scheme = ''https'', us_netloc = ''h'', us_path = ''/m''\<rparr>"
    "us_hostname \<lparr>us_scheme = ''https'', us_netloc = ''h'', us_path = ''/m''\<rparr> = ''h''"
    "parse_ip ''8.8.8.8'' = Some (IPv4 134744072)" "parse_ip ''127.0.0.1'' = Some (IPv4 2130706433)"
    "\<not> is_disallowed_ip (IPv4 134744072)" "is_disallowed_ip (IPv4 2130706433)"
    by code_simp+
  then show ?thesis
    by (simp add: assert_public_host_iff)
qed

text \<open>
  The IPv4 addresses the guard and the admission policy refuse are exactly the loopback,
  link-local, private, documentation, benchmark and reserved ranges, given here by octets; in
  particular the shared range 100.64.0.0/10 and multicast are let through.
\<close>

theorem disallowed_ipv4_ranges:
  assumes "0 \<le> a" "a < 256" "0 \<le> b" "b < 256" "0 \<le> c" "c < 256" "0 \<le> d" "d < 256"
  shows "is_disallowed_ip (IPv4 (ip4 a b c d)) \<longleftrightarrow>
     a \<in> {0, 10, 127} \<or> 240 \<le> a \<or> a = 169 \<and> b = 254 \<or> a = 172 \<and> 16 \<le> b \<and> b \<le> 31 \<or>
     a = 192 \<and> b = 168 \<or> a = 192 \<and> b = 0 \<and> c = 0 \<and> d \<notin> {9, 10} \<or> a = 192 \<and> b = 0 \<and> c = 2 \<or>
     a = 198 \<and> b \<in> {18, 19} \<or> a = 198 \<and> b = 51 \<and> c = 100 \<or> a = 203 \<and> b = 0 \<and> c = 113"
  using is_disallowed_ip4_octets [of a b c d] assms
  by (simp only: octets_def non_public_octets_def simp_thms)

lemma disallowed_ipv4_ranges_witness:
  "is_disallowed_ip (IPv4 (ip4 10 1 2 3)) \<and> \<not> is_disallowed_ip (IPv4 (ip4 100 64 0 1))"
  using disallowed_ipv4_ranges [of 10 1 2 3] disallowed_ipv4_ranges [of 100 64 0 1] by simp

text \<open>
  \<open>well_known_url\<close> joins an absolute base and a relative path with exactly one slash,
  whatever slashes the base ends and the path starts with, and adds none for an empty path.
\<close>

theorem well_known_url_joins:
  assumes "urlsplit path = Inr p" "us_scheme p = []"
    and "urlsplit base = Inr u" "us_scheme u \<noteq> []" "us_netloc u \<noteq> []"
  shows "\<exists>b s m n. base = b @ replicate m (CHR ''/'') \<and> path = replicate n (CHR ''/'') @ s \<and>
    (b = [] \<or> last b \<noteq> CHR ''/'') \<and> (s = [] \<or> hd s \<noteq> CHR ''/'') \<and>
    well_known_url base path = Inr (if s = [] then b else b @ ''/'' @ s)"
proof -
  let ?b = "str_rstrip (CHR ''/'') base" and ?s = "str_lstrip (CHR ''/'') path"
  obtain m where "base = ?b @ replicate m (CHR ''/'')"
    using str_rstrip_decomp by blast
  moreover obtain n where "path = replicate n (CHR ''/'') @ ?s"
    using str_lstrip_decomp by blast
  moreover have "?b = [] \<or> last ?b \<noteq> CHR ''/''" "?s = [] \<or> hd ?s \<noteq> CHR ''/''"
    using str_rstrip_not_last str_lstrip_not_hd by blast+
  moreover have "well_known_url base path = Inr (if ?s = [] then ?b else ?b @ ''/'' @ ?s)"
    using assms by (simp add: well_known_url_def Let_def)
  ultimately show ?thesis by blast
qed

lemma well_known_url_joins_witness:
  "\<exists>b s m n. ''https://h/'' = b @ replicate m (CHR ''/'') \<and> ''/m'' = replicate n (CHR ''/'') @ s \<and>
    (b = [] \<or> last b \<noteq> CHR ''/'') \<and> (s = [] \<or> hd s \<noteq> CHR ''/'') \<and>
    well_known_url ''https://h/'' ''/m'' = Inr (if s = [] then b else b @ ''/'' @ s)"
proof -
  have "urlsplit ''/m'' = Inr \<lparr>us_scheme = [], us_netloc = [], us_path = ''/m''\<rparr>"
    "urlsplit ''https://h/'' = Inr \<lparr>us_scheme = ''https'', us_netloc = ''h'', us_path = ''/''\<rparr>"
    by code_simp+
  then show ?thesis
    using well_known_url_joins by simp
qed

end
