(* ===== verification/Admission.thy ===== *)
theory Admission
  imports Samples Net_Urls
begin

text \<open>
  Local admission of signed manifests and key continuity across refreshes
  (\<^verbatim>\<open>admission.py\<close>). The host's verifiers are parameters: they see a manifest, may do I/O on
  the outside world \<open>'w\<close>, and answer or raise.
\<close>

type_synonym 'w verifier = "manifest \<Rightarrow> ('w, bool \<times> string) io"

record 'w admission_policy =
  ap_federation_id :: string
  ap_protocol_versions :: "string list"
  ap_require_expires_at :: bool
  ap_require_signed_http :: bool
  ap_require_https :: bool
  ap_allow_private_hosts :: bool
  ap_allowed_endpoint_domains :: "string list"
  ap_evidence_verifier :: "'w verifier option"
  ap_auth_method_verifiers :: "(string, 'w verifier) dict"

record admission_decision =
  ad_accepted :: bool
  ad_reason :: string

record 'w key_continuity_policy =
  kp_allow_key_rotation :: bool
  kp_evidence_verifier :: "'w verifier option"

datatype continuity_action = KC_accept | KC_quarantine | KC_reject

record key_continuity_decision =
  kd_action :: continuity_action
  kd_reason :: string

section \<open>Endpoints\<close>

definition host_norm :: "string \<Rightarrow> string" where
  "host_norm s = str_rstrip (CHR ''.'') (str_lower s)"

definition host_in_domain :: "string \<Rightarrow> string \<Rightarrow> bool" where
  "host_in_domain host domain =
     (let h = host_norm host; d = host_norm domain in h = d \<or> str_endswith h (CHR ''.'' # d))"

definition check_endpoint :: "string \<Rightarrow> 'w admission_policy \<Rightarrow> string option result" where
  "check_endpoint endpoint policy =
     rbind (urlparse endpoint) (\<lambda>parsed.
       let host = host_norm (us_hostname parsed) in
       if host = [] then Inr (Some ''bad_endpoint'')
       else if ap_require_https policy \<and> us_scheme parsed \<noteq> ''https'' then Inr (Some ''https_required'')
       else if ap_allowed_endpoint_domains policy \<noteq> [] \<and>
         \<not> list_ex (host_in_domain host) (ap_allowed_endpoint_domains policy)
       then Inr (Some ''endpoint_domain_denied'')
       else (case parse_ip host of
           None \<Rightarrow> Inr None
         | Some ip \<Rightarrow>
             if \<not> ap_allow_private_hosts policy \<and> is_disallowed_ip ip
             then Inr (Some ''private_endpoint_denied'') else Inr None))"

lemma check_endpoint_passes:
  "check_endpoint endpoint policy = Inr None \<longleftrightarrow>
     (\<exists>u. urlparse endpoint = Inr u \<and> host_norm (us_hostname u) \<noteq> [] \<and>
        (ap_require_https policy \<longrightarrow> us_scheme u = ''https'') \<and>
        (ap_allowed_endpoint_domains policy \<noteq> [] \<longrightarrow>
           (\<exists>d \<in> set (ap_allowed_endpoint_domains policy).
              host_in_domain (host_norm (us_hostname u)) d)) \<and>
        (\<forall>ip. parse_ip (host_norm (us_hostname u)) = Some ip \<longrightarrow>
           ap_allow_private_hosts policy \<or> \<not> is_disallowed_ip ip))"
  by (cases "urlparse endpoint")
    (auto simp: check_endpoint_def Let_def list_ex_iff split: option.splits if_splits)

section \<open>Admission\<close>

text \<open>
  The loop over the advertised methods: \<open>None\<close> when every registered verifier agrees, else the
  first reason.
\<close>

fun check_auth_methods ::
    "(string, 'w verifier) dict \<Rightarrow> manifest \<Rightarrow> string list \<Rightarrow> ('w, string option) io" where
  "check_auth_methods verifiers m [] w = (Inr None, w)"
| "check_auth_methods verifiers m (a # rest) w =
     (case dict_get verifiers a of
        None \<Rightarrow> check_auth_methods verifiers m rest w
      | Some verify \<Rightarrow> (case verify m w of
          (Inl e, w') \<Rightarrow> (Inl e, w')
        | (Inr (ok, reason), w') \<Rightarrow>
            if \<not> ok then (Inr (Some reason), w') else check_auth_methods verifiers m rest w'))"

definition refuse :: "string \<Rightarrow> admission_decision" where
  "refuse reason = \<lparr>ad_accepted = False, ad_reason = reason\<rparr>"

definition accept_decision :: admission_decision where
  "accept_decision = \<lparr>ad_accepted = True, ad_reason = ''ok''\<rparr>"

definition admit_manifest ::
    "crypto_lib \<Rightarrow> datetime \<Rightarrow> manifest \<Rightarrow> 'w admission_policy \<Rightarrow> int \<Rightarrow>
      ('w, admission_decision) io" where
  "admit_manifest L now m policy max_skew_seconds w =
     (case check_manifest L now m max_skew_seconds of
        Inl e \<Rightarrow> (Inl e, w)
      | Inr (ok, reason) \<Rightarrow>
        if \<not> ok then (Inr (refuse reason), w)
        else if ap_require_expires_at policy \<and> mf_expires_at m = None
        then (Inr (refuse ''missing_expires_at''), w)
        else if ap_federation_id policy \<notin> set (mf_federations m)
        then (Inr (refuse ''wrong_federation''), w)
        else if set (mf_protocol_versions m) \<inter> set (ap_protocol_versions policy) = {}
        then (Inr (refuse ''unsupported_protocol''), w)
        else if ap_require_signed_http policy \<and> ''signed_http'' \<notin> set (mf_auth_methods m)
        then (Inr (refuse ''signed_http_required''), w)
        else (case check_auth_methods (ap_auth_method_verifiers policy) m (mf_auth_methods m) w of
            (Inl e, w') \<Rightarrow> (Inl e, w')
          | (Inr (Some reason), w') \<Rightarrow> (Inr (refuse reason), w')
          | (Inr None, w') \<Rightarrow>
            (case check_endpoint (mf_endpoint m) policy of
              Inl e \<Rightarrow> (Inl e, w')
            | Inr (Some r) \<Rightarrow> (Inr (refuse r), w')
            | Inr None \<Rightarrow>
              (case ap_evidence_verifier policy of
                None \<Rightarrow> (Inr accept_decision, w')
              | Some verify \<Rightarrow> (case verify m w' of
                  (Inl e, w'') \<Rightarrow> (Inl e, w'')
                | (Inr (ok, reason), w'') \<Rightarrow>
                    if \<not> ok then (Inr (refuse reason), w'') else (Inr accept_decision, w''))))))"

text \<open>What the policy asks of the manifest itself, the host's verifiers aside.\<close>

definition policy_allows :: "'w admission_policy \<Rightarrow> manifest \<Rightarrow> bool" where
  "policy_allows policy m \<longleftrightarrow>
     (ap_require_expires_at policy \<longrightarrow> mf_expires_at m \<noteq> None) \<and>
     ap_federation_id policy \<in> set (mf_federations m) \<and>
     set (mf_protocol_versions m) \<inter> set (ap_protocol_versions policy) \<noteq> {} \<and>
     (ap_require_signed_http policy \<longrightarrow> ''signed_http'' \<in> set (mf_auth_methods m)) \<and>
     check_endpoint (mf_endpoint m) policy = Inr None"

lemma admit_manifest_decision:
  "admit_manifest L now m policy skew w = (Inr d, w') \<Longrightarrow> ad_accepted d \<Longrightarrow> d = accept_decision"
  by (auto simp: admit_manifest_def refuse_def
      split: sum.splits prod.splits option.splits if_splits)

lemma admit_manifest_verified:
  "admit_manifest L now m policy skew w = (Inr d, w') \<Longrightarrow> ad_accepted d \<Longrightarrow>
     check_manifest L now m skew = Inr (True, ''ok'') \<and> policy_allows policy m"
  by (auto simp: admit_manifest_def refuse_def policy_allows_def dest: check_manifest_True
      split: sum.splits prod.splits option.splits if_splits)

section \<open>Key continuity\<close>

definition keys_by_id :: "manifest \<Rightarrow> (string, jwk) dict" where
  "keys_by_id m = dict_of_pairs (map (\<lambda>k. (pk_key_id k, pk_public_jwk k)) (mf_public_keys m))"

definition kc :: "continuity_action \<Rightarrow> string \<Rightarrow> key_continuity_decision" where
  "kc a r = \<lparr>kd_action = a, kd_reason = r\<rparr>"

definition continuity_policy :: "'w key_continuity_policy option \<Rightarrow> 'w key_continuity_policy" where
  "continuity_policy p =
     (case p of Some q \<Rightarrow> q | None \<Rightarrow> \<lparr>kp_allow_key_rotation = True, kp_evidence_verifier = None\<rparr>)"

text \<open>The new manifest is signed under a key id of the old one, by that old key.\<close>

definition signed_by_old_key :: "crypto_lib \<Rightarrow> (string, jwk) dict \<Rightarrow> manifest \<Rightarrow> bool result" where
  "signed_by_old_key L old_keys new_m =
     (case mf_signature new_m of
        None \<Rightarrow> Inr False
      | Some s \<Rightarrow> (case dict_get old_keys (sig_key_id s) of
          None \<Rightarrow> Inr False
        | Some j \<Rightarrow> verify_model L dump_manifest new_m j))"

definition check_key_continuity ::
    "crypto_lib \<Rightarrow> manifest \<Rightarrow> manifest \<Rightarrow> 'w key_continuity_policy option \<Rightarrow>
      ('w, key_continuity_decision) io" where
  "check_key_continuity L old_m new_m policy_opt w =
     (let policy = continuity_policy policy_opt;
          old_keys = keys_by_id old_m; new_keys = keys_by_id new_m in
      if mf_node_id old_m \<noteq> mf_node_id new_m then (Inr (kc KC_reject ''node_id_changed''), w)
      else if mf_org_id old_m \<noteq> mf_org_id new_m then (Inr (kc KC_reject ''org_id_changed''), w)
      else if dict_eq_by (dict_eq_by (=)) old_keys new_keys then (Inr (kc KC_accept ''ok''), w)
      else if \<not> kp_allow_key_rotation policy then (Inr (kc KC_reject ''rotation_denied''), w)
      else (case signed_by_old_key L old_keys new_m of
          Inl e \<Rightarrow> (Inl e, w)
        | Inr by_old_key \<Rightarrow>
          if by_old_key then (Inr (kc KC_accept ''signed_rotation''), w)
          else (case kp_evidence_verifier policy of
              None \<Rightarrow> (Inr (kc KC_quarantine ''stale_manifest''), w)
            | Some verify \<Rightarrow> (case verify new_m w of
                (Inl e, w') \<Rightarrow> (Inl e, w')
              | (Inr (ok, reason), w') \<Rightarrow>
                  if ok then (Inr (kc KC_accept ''admission_evidence''), w')
                  else if reason = ''rotation_denied'' then (Inr (kc KC_reject reason), w')
                  else (Inr (kc KC_quarantine ''stale_manifest''), w')))))"

section \<open>Domain evidence\<close>

definition domain_evidence_verifier :: "manifest \<Rightarrow> (bool \<times> string) result" where
  "domain_evidence_verifier m =
     (case mf_admission_evidence m of
        Some (DomainProofEvidence domain proof) \<Rightarrow>
          if domain = [] then Inr (False, ''bad_domain_evidence'')
          else rbind (urlparse (mf_endpoint m)) (\<lambda>u.
            if host_in_domain (us_hostname u) domain then Inr (True, ''ok'')
            else Inr (False, ''domain_mismatch''))
      | _ \<Rightarrow> Inr (False, ''unsupported_evidence''))"

lemma host_in_domain_iff:
  "host_in_domain host domain \<longleftrightarrow>
     host_norm host = host_norm domain \<or> (\<exists>u. host_norm host = u @ ''.'' @ host_norm domain)"
  by (simp add: host_in_domain_def Let_def str_endswith_iff)

section \<open>Approvals\<close>

text \<open>
  The verifiers that an admission consults, in their order, and what it means that they all
  approve: a chain of worlds from the first to the last, each verifier answering yes on its own.
\<close>

definition consulted :: "'w admission_policy \<Rightarrow> manifest \<Rightarrow> 'w verifier list" where
  "consulted policy m =
     List.map_filter (dict_get (ap_auth_method_verifiers policy)) (mf_auth_methods m) @
     (case ap_evidence_verifier policy of None \<Rightarrow> [] | Some verify \<Rightarrow> [verify])"

definition all_approve :: "manifest \<Rightarrow> 'w verifier list \<Rightarrow> 'w \<Rightarrow> 'w \<Rightarrow> bool" where
  "all_approve m vs w w' \<longleftrightarrow>
     (\<exists>ws. length ws = Suc (length vs) \<and> hd ws = w \<and> last ws = w' \<and>
        (\<forall>i < length vs. \<exists>reason. (vs ! i) m (ws ! i) = (Inr (True, reason), ws ! Suc i)))"

lemma all_approve_Nil [simp]: "all_approve m [] w w' \<longleftrightarrow> w' = w"
  by (auto simp: all_approve_def length_Suc_conv)

lemma all_approve_Cons [simp]:
  "all_approve m (v # vs) w w' \<longleftrightarrow>
     (\<exists>reason w1. v m w = (Inr (True, reason), w1) \<and> all_approve m vs w1 w')"
proof
  assume "all_approve m (v # vs) w w'"
  then obtain ws where ws: "length ws = Suc (Suc (length vs))" "hd ws = w" "last ws = w'"
    "\<And>i. i < Suc (length vs) \<Longrightarrow> \<exists>reason. ((v # vs) ! i) m (ws ! i) = (Inr (True, reason), ws ! Suc i)"
    by (auto simp: all_approve_def)
  then obtain us where us: "ws = w # us" "length us = Suc (length vs)"
    by (cases ws) auto
  then have "all_approve m vs (hd us) w'"
    using ws(3) ws(4) [of "Suc _"] by (auto simp: all_approve_def intro!: exI [of _ us])
  moreover have "hd us = us ! 0"
    using us(2) by (cases us) auto
  ultimately show "\<exists>reason w1. v m w = (Inr (True, reason), w1) \<and> all_approve m vs w1 w'"
    using ws(4) [of 0] us by auto
next
  assume "\<exists>reason w1. v m w = (Inr (True, reason), w1) \<and> all_approve m vs w1 w'"
  then obtain reason w1 us where v: "v m w = (Inr (True, reason), w1)"
    and us: "length us = Suc (length vs)" "hd us = w1" "last us = w'"
      "\<forall>i < length vs. \<exists>reason. (vs ! i) m (us ! i) = (Inr (True, reason), us ! Suc i)"
    by (auto simp: all_approve_def)
  have "us ! 0 = w1" using us(1,2) by (cases us) auto
  then have "\<exists>reason. ((v # vs) ! i) m ((w # us) ! i) = (Inr (True, reason), (w # us) ! Suc i)"
    if "i < Suc (length vs)" for i
    using that v us(4) by (cases i) auto
  moreover have "last (w # us) = w'" using us(1,3) by auto
  ultimately show "all_approve m (v # vs) w w'"
    unfolding all_approve_def using us(1) by (intro exI [of _ "w # us"]) simp
qed

lemma all_approve_append [simp]:
  "all_approve m (us @ vs) w w' \<longleftrightarrow> (\<exists>w1. all_approve m us w w1 \<and> all_approve m vs w1 w')"
  by (induction us arbitrary: w) auto

lemma check_auth_methods_approve:
  "check_auth_methods verifiers m methods w = (Inr None, w') \<longleftrightarrow>
     all_approve m (List.map_filter (dict_get verifiers) methods) w w'"
  by (induction verifiers m methods w rule: check_auth_methods.induct)
    (auto simp: map_filter_simps split: option.splits prod.splits sum.splits)

lemma host_norm_idem [simp]: "host_norm (host_norm s) = host_norm s"
proof -
  have "dropWhile P (dropWhile P xs) = dropWhile P xs" for P and xs :: string
    by (induction xs) auto
  moreover have "map lower_char (dropWhile P (map lower_char xs)) = dropWhile P (map lower_char xs)" for P xs
    by (induction xs) auto
  ultimately show ?thesis
    by (simp add: host_norm_def str_lower_def str_rstrip_def rev_map)
qed

section \<open>Properties\<close>

text \<open>
  C20: A manifest is admitted exactly when it is signed by a key it advertises and fresh, has an
  expiry if the policy requires one, names the policy's federation and a protocol version it
  accepts, offers signed_http if that is required, has an endpoint with a host, on https if
  required, inside an allowed domain if any are named and no disallowed IP literal unless private
  hosts are allowed, and every host verifier consulted answers yes: those registered for its auth
  methods, in the manifest's order, then the evidence verifier. Each runs in the world the one
  before left, and the last one leaves the resulting world.
\<close>

theorem admit_manifest_iff:
  "(\<exists>d. admit_manifest L now m policy skew w = (Inr d, w') \<and> ad_accepted d) \<longleftrightarrow>
     self_signed L m \<and> td_ok (skew * usec) \<and> fresh_at now skew m \<and>
     (ap_require_expires_at policy \<longrightarrow> mf_expires_at m \<noteq> None) \<and>
     ap_federation_id policy \<in> set (mf_federations m) \<and>
     (\<exists>v. v \<in> set (mf_protocol_versions m) \<and> v \<in> set (ap_protocol_versions policy)) \<and>
     (ap_require_signed_http policy \<longrightarrow> ''signed_http'' \<in> set (mf_auth_methods m)) \<and>
     (\<exists>u host. urlparse (mf_endpoint m) = Inr u \<and> host = host_norm (us_hostname u) \<and> host \<noteq> [] \<and>
        (ap_require_https policy \<longrightarrow> us_scheme u = ''https'') \<and>
        (ap_allowed_endpoint_domains policy \<noteq> [] \<longrightarrow>
           (\<exists>dom \<in> set (ap_allowed_endpoint_domains policy).
              host = host_norm dom \<or> (\<exists>sub. host = sub @ ''.'' @ host_norm dom))) \<and>
        (\<forall>ip. parse_ip host = Some ip \<longrightarrow> ap_allow_private_hosts policy \<or> \<not> is_disallowed_ip ip)) \<and>
     all_approve m (consulted policy m) w w'"
  (is "?l \<longleftrightarrow> ?signed \<and> ?td \<and> ?fresh \<and> ?exp \<and> ?fed \<and> ?prot \<and> ?http \<and> ?endpoint \<and> ?approved")
proof -
  let ?evidence = "\<lambda>w1. case ap_evidence_verifier policy of None \<Rightarrow> w' = w1
    | Some verify \<Rightarrow> \<exists>r. verify m w1 = (Inr (True, r), w')"
  have allowed: "policy_allows policy m \<longleftrightarrow> ?exp \<and> ?fed \<and> ?prot \<and> ?http \<and> ?endpoint"
    by (auto simp: policy_allows_def check_endpoint_passes host_in_domain_iff)
  have approved: "?approved \<longleftrightarrow>
      (\<exists>w1. check_auth_methods (ap_auth_method_verifiers policy) m (mf_auth_methods m) w = (Inr None, w1) \<and>
        ?evidence w1)"
    unfolding consulted_def all_approve_append check_auth_methods_approve
    by (auto split: option.splits)
  have "?l \<longleftrightarrow> check_manifest L now m skew = Inr (True, ''ok'') \<and> policy_allows policy m \<and> ?approved"
  proof
    assume ?l
    then obtain d where run: "admit_manifest L now m policy skew w = (Inr d, w')" and acc: "ad_accepted d"
      by blast
    from run acc admit_manifest_verified [OF run acc]
    show "check_manifest L now m skew = Inr (True, ''ok'') \<and> policy_allows policy m \<and> ?approved"
      unfolding approved by (auto simp: admit_manifest_def refuse_def accept_decision_def
          policy_allows_def split: prod.splits sum.splits option.splits if_splits)
  next
    assume "check_manifest L now m skew = Inr (True, ''ok'') \<and> policy_allows policy m \<and> ?approved"
    then show ?l
      unfolding approved
      by (auto simp: admit_manifest_def accept_decision_def policy_allows_def split: option.splits)
  qed
  then show ?thesis
    by (simp only: check_manifest_True_iff allowed conj_assoc simp_thms)
qed

text \<open>
  C21: Under a policy that requires https and forbids private hosts, an admitted manifest's
  endpoint is an https URL with a host, inside an allowed domain when the policy names any, and
  never an IP literal of a non-public range.
\<close>

theorem admitted_endpoint_is_public:
  assumes "admit_manifest L now m policy skew w = (Inr d, w')" "ad_accepted d"
    and "ap_require_https policy" "\<not> ap_allow_private_hosts policy"
  shows "\<exists>u. urlparse (mf_endpoint m) = Inr u \<and> us_scheme u = ''https'' \<and>
    host_norm (us_hostname u) \<noteq> [] \<and>
    (\<forall>ip. parse_ip (host_norm (us_hostname u)) = Some ip \<longrightarrow> \<not> is_disallowed_ip ip) \<and>
    (ap_allowed_endpoint_domains policy \<noteq> [] \<longrightarrow>
       (\<exists>dom \<in> set (ap_allowed_endpoint_domains policy).
          host_norm (host_norm (us_hostname u)) = host_norm dom \<or>
          (\<exists>p. host_norm (host_norm (us_hostname u)) = p @ ''.'' @ host_norm dom)))"
  using admit_manifest_verified [OF assms(1,2)] assms(3,4)
  by (auto simp: policy_allows_def check_endpoint_passes host_in_domain_iff)

definition toy_policy :: "unit admission_policy" where
  "toy_policy = \<lparr>ap_federation_id = ''fed'', ap_protocol_versions = [''v1''],
     ap_require_expires_at = False, ap_require_signed_http = True, ap_require_https = True,
     ap_allow_private_hosts = False, ap_allowed_endpoint_domains = [], ap_evidence_verifier = None,
     ap_auth_method_verifiers = []\<rparr>"

lemma toy_endpoint: "check_endpoint ''https://h'' toy_policy = Inr None"
  by code_simp

lemma toy_check: "check_manifest toy_crypto now (toy_signed (toy_manifest n e)) 300 = Inr (True, ''ok'')"
  using toy_verify [of "toy_manifest n e"]
  by (simp add: check_manifest_True_iff self_signed_def fresh_at_def td_ok_def usec_def day_usec_def
      toy_signed_def toy_manifest_def)

lemma toy_admitted:
  "admit_manifest toy_crypto now (toy_signed (toy_manifest n ''https://h'')) toy_policy 300 w =
     (Inr accept_decision, w)"
  using toy_endpoint
  by (simp add: admit_manifest_def toy_check)
    (simp add: toy_policy_def toy_signed_def toy_manifest_def)

definition toy_answering :: "bool \<Rightarrow> unit admission_policy" where
  "toy_answering ok = toy_policy\<lparr>ap_auth_method_verifiers := [(''signed_http'', \<lambda>_ w. (Inr (ok, ''asked''), w))]\<rparr>"

lemma admit_manifest_iff_witness:
  "let m = toy_signed (toy_manifest ''a'' ''https://h'') in
     (\<exists>d. admit_manifest toy_crypto 0 m (toy_answering True) 300 () = (Inr d, ()) \<and> ad_accepted d) \<and>
     \<not> (\<exists>d. admit_manifest toy_crypto 0 m (toy_answering False) 300 () = (Inr d, ()) \<and> ad_accepted d)"
proof -
  let ?m = "toy_signed (toy_manifest ''a'' ''https://h'')"
  have signed: "self_signed toy_crypto ?m \<and> td_ok (300 * usec) \<and> fresh_at 0 300 ?m"
    using toy_check [of 0] by (simp add: check_manifest_True_iff)
  obtain u where u: "urlparse ''https://h'' = Inr u" "host_norm (us_hostname u) \<noteq> []"
    "us_scheme u = ''https''"
    "\<forall>ip. parse_ip (host_norm (us_hostname u)) = Some ip \<longrightarrow> \<not> is_disallowed_ip ip"
    using toy_endpoint by (auto simp: check_endpoint_passes toy_policy_def)
  have consulted: "consulted (toy_answering ok) ?m = [\<lambda>_ w. (Inr (ok, ''asked''), w)]" for ok
    by (simp add: consulted_def toy_answering_def toy_policy_def toy_signed_def toy_manifest_def map_filter_simps)
  show ?thesis
    unfolding Let_def admit_manifest_iff consulted using signed u
    by (simp add: toy_answering_def toy_policy_def) (simp add: toy_signed_def toy_manifest_def)
qed

lemma admitted_endpoint_is_public_witness:
  "\<exists>u. urlparse ''https://h'' = Inr u \<and> us_scheme u = ''https''"
  using admitted_endpoint_is_public [OF toy_admitted]
  by (auto simp: accept_decision_def toy_policy_def toy_signed_def toy_manifest_def)

text \<open>
  The built-in evidence verifier answers yes exactly for domain evidence with a non-empty
  domain whose name, case and trailing dots aside, is the endpoint's host or a parent of it at
  a label boundary; a host that merely ends in the same letters is refused.
\<close>

theorem domain_evidence_accepts_iff:
  "domain_evidence_verifier m = Inr (True, r) \<longleftrightarrow>
     r = ''ok'' \<and> (\<exists>dom proof u. mf_admission_evidence m = Some (DomainProofEvidence dom proof) \<and>
       dom \<noteq> [] \<and> urlparse (mf_endpoint m) = Inr u \<and>
       (host_norm (us_hostname u) = host_norm dom \<or>
        (\<exists>sub. host_norm (us_hostname u) = sub @ ''.'' @ host_norm dom)))"
  by (cases "urlparse (mf_endpoint m)")
    (auto simp: domain_evidence_verifier_def host_in_domain_iff
      split: option.splits admission_evidence.splits if_splits)

text \<open>
  A refreshed manifest keeps key continuity exactly when node and organisation are
  unchanged and either the keys are the same, or rotation is allowed and the new manifest is
  signed by one of the old keys or vouched for by the host's verifier.
\<close>

theorem key_continuity_accepts_iff:
  "(\<exists>d. check_key_continuity L old_m new_m p w = (Inr d, w') \<and> kd_action d = KC_accept) \<longleftrightarrow>
     mf_node_id old_m = mf_node_id new_m \<and> mf_org_id old_m = mf_org_id new_m \<and>
     (dict_eq_by (dict_eq_by (=)) (keys_by_id old_m) (keys_by_id new_m) \<and> w' = w \<or>
      \<not> dict_eq_by (dict_eq_by (=)) (keys_by_id old_m) (keys_by_id new_m) \<and>
      kp_allow_key_rotation (continuity_policy p) \<and>
      (signed_by_old_key L (keys_by_id old_m) new_m = Inr True \<and> w' = w \<or>
       signed_by_old_key L (keys_by_id old_m) new_m = Inr False \<and>
       (\<exists>verify r. kp_evidence_verifier (continuity_policy p) = Some verify \<and>
          verify new_m w = (Inr (True, r), w'))))"
  by (auto simp: check_key_continuity_def Let_def kc_def
      split: sum.splits prod.splits option.splits if_splits)

end
