(* ===== verification/Client.thy ===== *)
theory Client
  imports Admission
begin

text \<open>
  The federation client (\<^verbatim>\<open>client.py\<close>) and the shared failure vocabulary
  (\<^verbatim>\<open>reasons.py\<close>). Everything outside the package that a call touches is the record
  \<open>outside\<close>: the clock, the uuid source, name resolution, the HTTP transport, JSON text and
  the pydantic validators, each an arbitrary function of the state \<open>'w\<close> of the world.
\<close>

section \<open>The outside\<close>

text \<open>
  A response carries what \<^verbatim>\<open>raise_for_status()\<close> raises, if anything, and the outcome of
  \<^verbatim>\<open>json()\<close>.
\<close>

record http_response =
  ht_status_error :: "exc option"
  ht_json :: "json result"

type_synonym headers = "(string \<times> string) list"

record 'w outside =
  out_crypto :: crypto_lib
  out_now :: "'w \<Rightarrow> datetime"
  out_uuid_text :: "'w \<Rightarrow> string \<times> 'w"
  out_uuid_bytes :: "'w \<Rightarrow> bytes \<times> 'w"
  out_getaddrinfo :: "string \<Rightarrow> ('w, string list) io"
  out_request :: "string \<Rightarrow> string \<Rightarrow> bytes option \<Rightarrow> (string \<times> string) list \<Rightarrow> headers \<Rightarrow>
    ('w, http_response) io"
  out_json_text :: "json \<Rightarrow> string"
  val_manifest :: "json \<Rightarrow> manifest result"
  val_signed_request :: "json \<Rightarrow> signed_request result"
  val_introduce_response :: "json \<Rightarrow> introduce_response result"
  val_members_response :: "json \<Rightarrow> members_response result"
  val_revocations_response :: "json \<Rightarrow> revocations_response result"
  val_operation_response :: "json \<Rightarrow> operation_response result"
  val_protocol_response :: "json \<Rightarrow> protocol_response result"
  val_health_response :: "json \<Rightarrow> health_response result"

definition raise_for_status :: "http_response \<Rightarrow> unit result" where
  "raise_for_status r = (case ht_status_error r of None \<Rightarrow> Inr () | Some e \<Rightarrow> Inl e)"

text \<open>\<^verbatim>\<open>text.encode()\<close> for ASCII text.\<close>

definition encode_text :: "string \<Rightarrow> bytes" where
  "encode_text s = map (\<lambda>c. word_of_nat (of_char c)) s"

section \<open>Signed calls\<close>

record federation_client =
  fc_node_id :: string
  fc_federation_id :: string
  fc_key :: bytes
  fc_key_id :: string
  fc_manifest_revision :: int
  fc_allow_private :: bool

definition SIGNATURE_HEADER :: string where
  "SIGNATURE_HEADER = ''X-Federlet-Signature''"

definition signed_envelope ::
    "'w outside \<Rightarrow> federation_client \<Rightarrow> string \<Rightarrow> string \<Rightarrow> string \<Rightarrow> bytes \<Rightarrow>
      ('w, signed_request) io" where
  "signed_envelope E c target_node_id method path body w =
     (case out_uuid_text E w of (request_id, w1) \<Rightarrow>
      case out_uuid_bytes E w1 of (nonce_bytes, w2) \<Rightarrow>
        (build_signed_request (out_crypto E) (val_signed_request E) (out_now E w1) request_id
           nonce_bytes (fc_key c) (fc_key_id c) (fc_federation_id c) (fc_node_id c)
           target_node_id method path body (fc_manifest_revision c), w2))"

definition signed_headers ::
    "'w outside \<Rightarrow> federation_client \<Rightarrow> string \<Rightarrow> string \<Rightarrow> string \<Rightarrow> bytes \<Rightarrow> ('w, headers) io" where
  "signed_headers E c target_node_id method path body =
     io_bind (signed_envelope E c target_node_id method path body) (\<lambda>env.
       io_lift (Inr [(SIGNATURE_HEADER, out_json_text E (JObj (dump_signed_request env)))]))"

definition client_send ::
    "'w outside \<Rightarrow> federation_client \<Rightarrow> string \<Rightarrow> string \<Rightarrow> string \<Rightarrow> bytes \<Rightarrow>
      (string \<times> string) list \<Rightarrow> ('w, http_response) io" where
  "client_send E c target_node_id method url body params =
     io_bind (io_lift (urlparse url)) (\<lambda>u.
     io_bind (signed_headers E c target_node_id method (us_path u) body) (\<lambda>hs.
     io_bind (out_request E method url (if body = [] then None else Some body) params hs) (\<lambda>r.
     io_bind (io_lift (raise_for_status r)) (\<lambda>_. io_lift (Inr r)))))"

definition fetch_manifest ::
    "'w outside \<Rightarrow> federation_client \<Rightarrow> string \<Rightarrow> int \<Rightarrow> ('w, manifest) io" where
  "fetch_manifest E c manifest_url max_skew_seconds =
     io_bind (assert_public_host (out_getaddrinfo E) manifest_url (fc_allow_private c)) (\<lambda>_.
     io_bind (out_request E ''GET'' manifest_url None [] []) (\<lambda>r.
     io_bind (io_lift (raise_for_status r)) (\<lambda>_.
     io_bind (io_lift (rbind (ht_json r) (val_manifest E))) (\<lambda>m w.
       (case check_manifest (out_crypto E) (out_now E w) m max_skew_seconds of
          Inl e \<Rightarrow> (Inl e, w)
        | Inr (ok, reason) \<Rightarrow>
            if \<not> ok then (Inl (ManifestVerificationError reason), w) else (Inr m, w))))))"

text \<open>The end of every call that returns a signed response.\<close>

definition verified_response ::
    "'w outside \<Rightarrow> manifest \<Rightarrow> ('m \<Rightarrow> obj) \<Rightarrow> ('m \<Rightarrow> signature option) \<Rightarrow> (json \<Rightarrow> 'm result) \<Rightarrow>
      http_response \<Rightarrow> 'm result" where
  "verified_response E peer dump get_sig validate r =
     rbind (rbind (ht_json r) validate) (\<lambda>resp.
     rbind (verify_response_signature (out_crypto E) peer dump get_sig resp) (\<lambda>ok.
       if \<not> ok then Inl (ResponseSignatureError ''bad_signature'') else Inr resp))"

definition client_introduce ::
    "'w outside \<Rightarrow> federation_client \<Rightarrow> manifest \<Rightarrow> introduce_request \<Rightarrow>
      ('w, introduce_response) io" where
  "client_introduce E c peer intro =
     io_bind (client_send E c (mf_node_id peer) ''POST'' (mb_introduce_url (mf_membership peer))
       (encode_text (out_json_text E (JObj (dump_introduce_request intro)))) []) (\<lambda>r.
     io_lift (verified_response E peer dump_introduce_response ir_signature
       (val_introduce_response E) r))"

definition since_params :: "string option \<Rightarrow> (string \<times> string) list" where
  "since_params since = (case since of None \<Rightarrow> []
     | Some s \<Rightarrow> if s = [] then [] else [(''since'', s)])"

definition get_members ::
    "'w outside \<Rightarrow> federation_client \<Rightarrow> manifest \<Rightarrow> string option \<Rightarrow> ('w, members_response) io" where
  "get_members E c peer since =
     io_bind (client_send E c (mf_node_id peer) ''GET'' (mb_members_url (mf_membership peer)) []
       (since_params since)) (\<lambda>r.
     io_lift (verified_response E peer dump_members_response mr_signature
       (val_members_response E) r))"

definition get_revocations ::
    "'w outside \<Rightarrow> federation_client \<Rightarrow> manifest \<Rightarrow> string option \<Rightarrow> ('w, revocations_response) io" where
  "get_revocations E c peer since =
     (case mb_revocations_url (mf_membership peer) of
        None \<Rightarrow> io_lift (Inl (MissingRevocationsEndpointError ''missing_revocations_url''))
      | Some url \<Rightarrow>
        io_bind (client_send E c (mf_node_id peer) ''GET'' url [] (since_params since)) (\<lambda>r.
        io_lift (verified_response E peer dump_revocations_response rr_signature
          (val_revocations_response E) r)))"

definition send_operation ::
    "'w outside \<Rightarrow> federation_client \<Rightarrow> manifest \<Rightarrow> operation_request \<Rightarrow> string \<Rightarrow>
      ('w, operation_response) io" where
  "send_operation E c peer request operations_url =
     io_bind (client_send E c (mf_node_id peer) ''POST'' operations_url
       (encode_text (out_json_text E (JObj (dump_operation_request request)))) []) (\<lambda>r.
     io_lift (verified_response E peer dump_operation_response or_signature
       (val_operation_response E) r))"

definition get_protocol ::
    "'w outside \<Rightarrow> federation_client \<Rightarrow> manifest \<Rightarrow> ('w, protocol_response) io" where
  "get_protocol E c peer =
     io_bind (client_send E c (mf_node_id peer) ''GET''
       (str_rstrip (CHR ''/'') (mf_endpoint peer) @ ''/protocol'') [] []) (\<lambda>r.
     io_lift (rbind (ht_json r) (val_protocol_response E)))"

definition get_health ::
    "'w outside \<Rightarrow> federation_client \<Rightarrow> manifest \<Rightarrow> ('w, health_response) io" where
  "get_health E c peer =
     io_bind (client_send E c (mf_node_id peer) ''GET''
       (str_rstrip (CHR ''/'') (mf_endpoint peer) @ ''/health'') [] []) (\<lambda>r.
     io_lift (rbind (ht_json r) (val_health_response E)))"

section \<open>Failure reasons\<close>

fun transport_failure_reason :: "exc \<Rightarrow> string option" where
  "transport_failure_reason (SSRFError _) = Some ''ssrf_rejected''"
| "transport_failure_reason (HttpxTimeoutException _ _) = Some ''timeout''"
| "transport_failure_reason AsyncTimeoutError = Some ''timeout''"
| "transport_failure_reason (HttpxHTTPStatusError _) = Some ''http_error''"
| "transport_failure_reason (HttpxTransportError _ _) = Some ''transport_error''"
| "transport_failure_reason (HttpxHTTPError _ _) = Some ''http_error''"
| "transport_failure_reason _ = None"

text \<open>\<^verbatim>\<open>transport_failure_reason(exc) or exc.__class__.__name__\<close>\<close>

definition reason_or_class :: "exc \<Rightarrow> string" where
  "reason_or_class e = (case transport_failure_reason e of Some r \<Rightarrow> r | None \<Rightarrow> exc_class_name e)"

section \<open>What a call that returns has established\<close>

lemma checked_manifest_Inr:
  "(case r of Inl e \<Rightarrow> (Inl e, w)
      | Inr (ok, reason) \<Rightarrow>
          if \<not> ok then (Inl (ManifestVerificationError reason), w) else (Inr m, w)) = (Inr m', w') \<longleftrightarrow>
   (\<exists>reason. r = Inr (True, reason)) \<and> m' = m \<and> w' = w"
  by (cases r) (auto split: prod.splits)

lemma fetch_manifest_ok:
  "fetch_manifest E c url skew w = (Inr m, w') \<Longrightarrow>
     check_manifest (out_crypto E) (out_now E w') m skew = Inr (True, ''ok'') \<and>
     (\<exists>w1. assert_public_host (out_getaddrinfo E) url (fc_allow_private c) w = (Inr (), w1))"
  by (auto simp: fetch_manifest_def io_simps checked_manifest_Inr dest: check_manifest_True)

definition response_signed_by ::
    "crypto_lib \<Rightarrow> manifest \<Rightarrow> ('m \<Rightarrow> obj) \<Rightarrow> ('m \<Rightarrow> signature option) \<Rightarrow> 'm \<Rightarrow> bool" where
  "response_signed_by L peer dump get_sig resp \<longleftrightarrow>
     (\<exists>s j. get_sig resp = Some s \<and> find_jwk (mf_public_keys peer) (sig_key_id s) = Some j \<and>
        verify_model L dump resp j = Inr True)"

lemma verified_response_ok:
  "verified_response E peer dump get_sig validate r = Inr resp \<Longrightarrow>
     response_signed_by (out_crypto E) peer dump get_sig resp"
  by (auto simp: verified_response_def result_simps response_signed_by_def
      verify_response_signature_def split: if_splits option.splits)

lemma client_introduce_ok:
  "client_introduce E c peer intro w = (Inr resp, w') \<Longrightarrow>
     response_signed_by (out_crypto E) peer dump_introduce_response ir_signature resp"
  by (auto simp: client_introduce_def io_simps dest: verified_response_ok)

lemma get_members_ok:
  "get_members E c peer since w = (Inr resp, w') \<Longrightarrow>
     response_signed_by (out_crypto E) peer dump_members_response mr_signature resp"
  by (auto simp: get_members_def io_simps dest: verified_response_ok)

lemma get_revocations_ok:
  "get_revocations E c peer since w = (Inr resp, w') \<Longrightarrow>
     response_signed_by (out_crypto E) peer dump_revocations_response rr_signature resp"
  by (auto simp: get_revocations_def io_simps dest: verified_response_ok split: option.splits)

lemma send_operation_ok:
  "send_operation E c peer request url w = (Inr resp, w') \<Longrightarrow>
     response_signed_by (out_crypto E) peer dump_operation_response or_signature resp"
  by (auto simp: send_operation_def io_simps dest: verified_response_ok)

end
