(* ===== verification/Refresh.thy ===== *)
theory Refresh
  imports Client
begin

text \<open>
  Manifest refresh decisions (\<^verbatim>\<open>refresh.py\<close>). The concurrent \<open>refresh_all\<close> runs its
  calls in list order; each call sees an arbitrary world, so nothing depends on that order but
  which exception is reported when several calls raise.
\<close>

datatype refresh_action = RF_unchanged | RF_accept | RF_quarantine | RF_reject

record manifest_refresh_decision =
  md_action :: refresh_action
  md_reason :: string
  md_manifest :: "manifest option"
  md_old_revision :: "int option"
  md_new_revision :: "int option"
  md_key_continuity :: "key_continuity_decision option"

text \<open>A decision without a fetched manifest.\<close>

definition no_manifest :: "refresh_action \<Rightarrow> string \<Rightarrow> int option \<Rightarrow> manifest_refresh_decision" where
  "no_manifest a reason old_rev = \<lparr>md_action = a, md_reason = reason, md_manifest = None,
     md_old_revision = old_rev, md_new_revision = None, md_key_continuity = None\<rparr>"

definition with_manifest ::
    "refresh_action \<Rightarrow> string \<Rightarrow> manifest \<Rightarrow> manifest \<Rightarrow> key_continuity_decision option \<Rightarrow>
      manifest_refresh_decision" where
  "with_manifest a reason current refreshed continuity = \<lparr>md_action = a, md_reason = reason,
     md_manifest = Some refreshed, md_old_revision = Some (mf_revision current),
     md_new_revision = Some (mf_revision refreshed), md_key_continuity = continuity\<rparr>"

text \<open>The classification of a failed fetch; \<open>Inl\<close> re-raises.\<close>

definition failed_refresh :: "exc \<Rightarrow> int \<Rightarrow> manifest_refresh_decision result" where
  "failed_refresh e old_rev =
     (case e of
        ManifestVerificationError msg \<Rightarrow>
          let reason = (if msg = [] then ''bad_manifest'' else msg) in
          if reason = ''expired'' \<or> reason = ''not_yet_valid''
          then Inr (no_manifest RF_quarantine ''stale_manifest'' (Some old_rev))
          else Inr (no_manifest RF_reject reason (Some old_rev))
      | _ \<Rightarrow> (case transport_failure_reason e of
            Some reason \<Rightarrow> Inr (no_manifest RF_quarantine reason (Some old_rev))
          | None \<Rightarrow> Inl e))"

definition refresh_peer_manifest ::
    "'w outside \<Rightarrow> federation_client \<Rightarrow> manifest \<Rightarrow> string \<Rightarrow> 'w key_continuity_policy option \<Rightarrow> int \<Rightarrow>
      ('w, manifest_refresh_decision) io" where
  "refresh_peer_manifest E c current manifest_url policy max_skew_seconds w =
     (case fetch_manifest E c manifest_url max_skew_seconds w of
        (Inl e, w') \<Rightarrow> (failed_refresh e (mf_revision current), w')
      | (Inr refreshed, w') \<Rightarrow>
        if mf_revision refreshed < mf_revision current
        then (Inr (with_manifest RF_reject ''revision_rollback'' current refreshed None), w')
        else (case check_key_continuity (out_crypto E) current refreshed policy w' of
            (Inl e, w'') \<Rightarrow> (Inl e, w'')
          | (Inr continuity, w'') \<Rightarrow>
            (case kd_action continuity of
              KC_quarantine \<Rightarrow> (Inr (with_manifest RF_quarantine (kd_reason continuity) current
                refreshed (Some continuity)), w'')
            | KC_reject \<Rightarrow> (Inr (with_manifest RF_reject (kd_reason continuity) current refreshed
                (Some continuity)), w'')
            | KC_accept \<Rightarrow>
                if mf_revision refreshed = mf_revision current
                then (Inr (with_manifest RF_unchanged ''ok'' current refreshed (Some continuity)), w'')
                else (Inr (with_manifest RF_accept ''revision_bump'' current refreshed
                  (Some continuity)), w''))))"

text \<open>
  \<^verbatim>\<open>asyncio.gather\<close>: all calls run to their end, and an exception of one of them is raised.
\<close>

fun gather :: "('w, 'a) io list \<Rightarrow> ('w, 'a list) io" where
  "gather [] w = (Inr [], w)"
| "gather (m # ms) w =
     (case m w of (r, w') \<Rightarrow> (case gather ms w' of (rs, w'') \<Rightarrow>
        (rbind r (\<lambda>x. rbind rs (\<lambda>xs. Inr (x # xs))), w'')))"

definition refresh_one ::
    "'w outside \<Rightarrow> federation_client \<Rightarrow> 'w key_continuity_policy option \<Rightarrow> int \<Rightarrow> manifest \<times> string \<Rightarrow>
      ('w, string \<times> manifest_refresh_decision) io" where
  "refresh_one E c policy skew target =
     io_bind (refresh_peer_manifest E c (fst target) (snd target) policy skew) (\<lambda>d.
       io_lift (Inr (mf_node_id (fst target), d)))"

definition refresh_all_manifests ::
    "'w outside \<Rightarrow> federation_client \<Rightarrow> (manifest \<times> string) list \<Rightarrow> 'w key_continuity_policy option \<Rightarrow>
      int \<Rightarrow> ('w, (string, manifest_refresh_decision) dict) io" where
  "refresh_all_manifests E c peers policy skew =
     io_bind (gather (map (refresh_one E c policy skew) peers)) (\<lambda>rs.
       io_lift (Inr (dict_of_pairs rs)))"

section \<open>What a decision means\<close>

text \<open>The manifest of an accepting decision is verified, not older, and keeps continuity.\<close>

definition sound_refresh ::
    "crypto_lib \<Rightarrow> datetime \<Rightarrow> int \<Rightarrow> manifest \<Rightarrow> manifest_refresh_decision \<Rightarrow> bool" where
  "sound_refresh L now skew current d \<longleftrightarrow>
     (md_action d \<in> {RF_accept, RF_unchanged} \<longrightarrow>
        (\<exists>m. md_manifest d = Some m \<and> check_manifest L now m skew = Inr (True, ''ok'') \<and>
           mf_node_id m = mf_node_id current \<and> mf_org_id m = mf_org_id current \<and>
           (if md_action d = RF_unchanged then mf_revision m = mf_revision current
            else mf_revision current < mf_revision m)))"

lemma failed_refresh_action:
  "failed_refresh e old_rev = Inr d \<Longrightarrow> md_action d \<in> {RF_quarantine, RF_reject} \<and> md_manifest d = None"
  by (auto simp: failed_refresh_def no_manifest_def Let_def split: exc.splits option.splits if_splits)

lemma continuity_same_ids:
  "check_key_continuity L old_m new_m p w = (Inr d, w') \<Longrightarrow> kd_action d = KC_accept \<Longrightarrow>
     mf_node_id new_m = mf_node_id old_m \<and> mf_org_id new_m = mf_org_id old_m"
  by (auto simp: check_key_continuity_def Let_def kc_def split: if_splits)

lemma refresh_peer_sound:
  assumes "refresh_peer_manifest E c current url p skew w = (Inr d, w')"
  shows "\<exists>now. sound_refresh (out_crypto E) now skew current d"
proof (cases "fetch_manifest E c url skew w")
  case (Pair r w1)
  show ?thesis
  proof (cases r)
    case (Inl e)
    with Pair assms have "failed_refresh e (mf_revision current) = Inr d"
      by (simp add: refresh_peer_manifest_def)
    then show ?thesis
      using failed_refresh_action by (fastforce simp: sound_refresh_def)
  next
    case (Inr m)
    with Pair have m: "check_manifest (out_crypto E) (out_now E w1) m skew = Inr (True, ''ok'')"
      using fetch_manifest_ok [of E c url skew w m w1] by simp
    have "sound_refresh (out_crypto E) (out_now E w1) skew current d"
      using assms m Pair Inr continuity_same_ids
      by (fastforce simp: refresh_peer_manifest_def sound_refresh_def with_manifest_def
          split: if_splits prod.splits sum.splits continuity_action.splits)
    then show ?thesis ..
  qed
qed

lemma gather_length: "gather ms w = (Inr xs, w') \<Longrightarrow> length xs = length ms"
  by (induction ms arbitrary: w xs) (auto simp: result_simps split: prod.splits)

lemma gather_each:
  "gather ms w = (Inr xs, w') \<Longrightarrow> i < length ms \<Longrightarrow> \<exists>w1 w2. (ms ! i) w1 = (Inr (xs ! i), w2)"
proof (induction ms arbitrary: w xs w' i)
  case (Cons m ms)
  obtain r w1 where m: "m w = (r, w1)" by fastforce
  obtain rs w2 where g: "gather ms w1 = (rs, w2)" by fastforce
  from Cons.prems(1) m g obtain x ys where "r = Inr x" "rs = Inr ys" "xs = x # ys"
    by (auto simp: result_simps)
  with Cons.IH [of w1 ys w2] Cons.prems(2) m g show ?case
    by (cases i) auto
qed simp

end
