(* ===== verification/Ports.thy ===== *)
theory Ports
  imports Fed_Prelude
begin

text \<open>
  The storage ports (\<^verbatim>\<open>protocols/membership_store.py\<close>, \<^verbatim>\<open>protocols/manifest_store.py\<close>) as
  interfaces. A host puts any database behind them, so an operation may raise, and one that
  raises may or may not have done its write.

  Locale \<open>keyed_store\<close> is an in-memory store of keyed records; \<open>store_port\<close> is the contract of a
  port that can be written and listed, \<open>member_port\<close> adds the lookup. Every in-memory store is
  such a port, one that never raises and keeps records as they are.
\<close>

section \<open>In-memory stores\<close>

text \<open>
  The last record stored under a key is the one found, other keys are untouched, and the values
  are the records found under some key.
\<close>

locale keyed_store =
  fixes get :: "'s \<Rightarrow> string \<Rightarrow> 'r option"
    and upsert :: "'r \<Rightarrow> 's \<Rightarrow> 's"
    and all_values :: "'s \<Rightarrow> 'r list"
    and remove :: "string \<Rightarrow> 's \<Rightarrow> 's"
    and key :: "'r \<Rightarrow> string"
    and valid :: "'s \<Rightarrow> bool"
  assumes get_upsert: "get (upsert r s) k = (if k = key r then Some r else get s k)"
    and get_remove: "get (remove k s) k' = (if k' = k then None else get s k')"
    and in_values: "valid s \<Longrightarrow> r \<in> set (all_values s) \<longleftrightarrow> get s (key r) = Some r"
    and get_key: "valid s \<Longrightarrow> get s k = Some r \<Longrightarrow> key r = k"
    and valid_upsert: "valid s \<Longrightarrow> valid (upsert r s)"
    and valid_remove: "valid s \<Longrightarrow> valid (remove k s)"
begin

lemma set_values: "valid s \<Longrightarrow> set (all_values s) = ran (get s)"
  using in_values get_key by (fastforce simp: ran_def)

end

text \<open>The stores of this package are dictionaries whose records carry their key.\<close>

definition keyed_by :: "('r \<Rightarrow> string) \<Rightarrow> (string, 'r) dict \<Rightarrow> bool" where
  "keyed_by key d \<longleftrightarrow> dict_wf d \<and> (\<forall>(k, r) \<in> set d. key r = k)"

lemma keyed_by_Nil [simp]: "keyed_by key []"
  by (simp add: keyed_by_def)

lemma keyed_by_get: "keyed_by key d \<Longrightarrow> dict_get d k = Some r \<Longrightarrow> key r = k"
  by (auto simp: keyed_by_def dest: map_of_SomeD)

lemma keyed_by_values: "keyed_by key d \<Longrightarrow> r \<in> set (dict_values d) \<longleftrightarrow> dict_get d (key r) = Some r"
  by (force simp: keyed_by_def dict_get_Some_iff)

lemma keyed_by_set: "keyed_by key d \<Longrightarrow> keyed_by key (dict_set (key r) r d)"
  by (auto simp: keyed_by_def set_dict_set)

lemma keyed_by_pop: "keyed_by key d \<Longrightarrow> keyed_by key (dict_pop k d)"
  using dict_wf_pop [of d k] by (auto simp: keyed_by_def AList.delete_eq)

lemma keyed_by_keys: "keyed_by key d \<Longrightarrow> dict_keys d = map key (dict_values d)"
  by (auto simp: keyed_by_def)

text \<open>\<^verbatim>\<open>{key(r): r for r in rs}\<close>\<close>

definition dict_by :: "('r \<Rightarrow> string) \<Rightarrow> 'r list \<Rightarrow> (string, 'r) dict" where
  "dict_by key rs = dict_of_pairs (map (\<lambda>r. (key r, r)) rs)"

lemma keyed_by_dict_by: "keyed_by key (dict_by key rs)"
proof -
  have "dict_get (dict_by key rs) k = Some r \<Longrightarrow> key r = k" for k r
    by (auto simp: dict_by_def dict_get_of_pairs dest: map_of_SomeD)
  moreover have "dict_wf (dict_by key rs)"
    by (simp add: dict_by_def)
  ultimately show ?thesis
    by (auto simp: keyed_by_def dict_get_Some_iff)
qed

text \<open>Reading a store's records back into a dictionary finds each under its key.\<close>

lemma dict_by_ran:
  assumes "set rs = ran f" "\<And>k r. f k = Some r \<Longrightarrow> key r = k"
  shows "dict_get (dict_by key rs) = f"
proof
  fix k
  have some: "r \<in> set rs \<and> key r = k" if "dict_get (dict_by key rs) k = Some r" for r
    using that by (auto simp: dict_by_def dict_get_of_pairs dest: map_of_SomeD)
  show "dict_get (dict_by key rs) k = f k"
  proof (cases "dict_get (dict_by key rs) k")
    case None
    then have "k \<notin> key ` set rs"
      by (force simp: dict_by_def dict_get_of_pairs map_of_eq_None_iff)
    with assms None show ?thesis
      by (cases "f k") (auto simp: ran_def image_iff)
  next
    case (Some r)
    from some [OF this] obtain j where "f j = Some r" "key r = k"
      using assms(1) by (auto simp: ran_def)
    with assms(2) Some show ?thesis by metis
  qed
qed

section \<open>Ports\<close>

text \<open>
  What is behind a port is an arbitrary state; \<open>view\<close> is what it holds. A store may serialize what
  it is given: \<open>kept r\<close> is what it makes of a record, and what is read from it is written back as
  it is. A write that returns has happened, one that raises has happened or not, and nothing else
  changes. A listing that returns is complete.
\<close>

locale store_port =
  fixes upsert :: "'r \<Rightarrow> ('s, unit) io"
    and remove :: "string \<Rightarrow> ('s, unit) io"
    and all_values :: "('s, 'r list) io"
    and key :: "'r \<Rightarrow> string"
    and kept :: "'r \<Rightarrow> 'r"
    and view :: "'s \<Rightarrow> string \<Rightarrow> 'r option"
    and valid :: "'s \<Rightarrow> bool"
  assumes upsert_view: "valid s \<Longrightarrow> upsert r s = (q, s') \<Longrightarrow>
      valid s' \<and> (view s' = (view s)(key r \<mapsto> kept r) \<or> isl q \<and> view s' = view s)"
    and remove_view: "valid s \<Longrightarrow> remove k s = (p, s') \<Longrightarrow>
      valid s' \<and> (view s' = (view s)(k := None) \<or> isl p \<and> view s' = view s)"
    and values_view: "valid s \<Longrightarrow> all_values s = (v, s') \<Longrightarrow>
      valid s' \<and> view s' = view s \<and> (\<forall>rs. v = Inr rs \<longrightarrow> set rs = ran (view s))"
    and view_key: "valid s \<Longrightarrow> view s k = Some r \<Longrightarrow> key r = k"
    and view_kept: "valid s \<Longrightarrow> view s k = Some r \<Longrightarrow> kept r = r"
begin

lemma upsert_ok:
  "valid s \<Longrightarrow> upsert r s = (Inr u, s') \<Longrightarrow> valid s' \<and> view s' = (view s)(key r \<mapsto> kept r)"
  using upsert_view by fastforce

lemma remove_ok:
  "valid s \<Longrightarrow> remove k s = (Inr u, s') \<Longrightarrow> valid s' \<and> view s' = (view s)(k := None)"
  using remove_view by fastforce

lemma values_ok:
  "valid s \<Longrightarrow> all_values s = (Inr rs, s') \<Longrightarrow> valid s' \<and> view s' = view s \<and> dict_get (dict_by key rs) = view s"
  using values_view dict_by_ran [of rs "view s" key] view_key by blast

end

locale member_port = store_port +
  fixes get :: "string \<Rightarrow> ('s, 'r option) io"
  assumes get_view: "valid s \<Longrightarrow> get k s = (g, s') \<Longrightarrow>
      valid s' \<and> view s' = view s \<and> (\<forall>x. g = Inr x \<longrightarrow> x = view s k)"

sublocale keyed_store \<subseteq> port: member_port "\<lambda>r s. (Inr (), upsert r s)" "\<lambda>k s. (Inr (), remove k s)"
    "\<lambda>s. (Inr (all_values s), s)" key id get valid "\<lambda>k s. (Inr (get s k), s)"
  by unfold_locales
    (auto simp: get_upsert get_remove set_values valid_upsert valid_remove fun_eq_iff dest: get_key)

end
