(* ===== verification/Membership.thy ===== *)
theory Membership
  imports Samples Ports
begin

text \<open>
  Membership records, their health policy, the in-memory table, disclosure and revocation
  (\<^verbatim>\<open>membership.py\<close>, \<^verbatim>\<open>protocols/membership_store.py\<close>). Functions that default \<open>now\<close> to
  the clock take it as an argument. A record is a value: an operation returns the changed
  record, also when it raises after changing it.

  The store port is the record \<open>membership_store\<close> with the contract \<open>membership_port\<close>;
  \<open>MembershipTable\<close> is a \<open>keyed_store\<close> and behind the port one that never raises.
\<close>

section \<open>Records and their states\<close>

datatype peer_state = ACTIVE | COOLDOWN | STALE_MANIFEST | REJECTED | REVOKED

record member_record =
  rec_node_id :: string
  rec_manifest_url :: string
  rec_org_id :: "string option"
  rec_manifest_revision :: int
  rec_state :: peer_state
  rec_accepted_until :: "datetime option"
  rec_cooldown_until :: "datetime option"
  rec_failures :: int
  rec_last_refresh :: "datetime option"

text \<open>\<^verbatim>\<open>MemberRecord(node_id=..., org_id=..., manifest_url=..., manifest_revision=...)\<close>\<close>

definition new_record :: "string \<Rightarrow> string option \<Rightarrow> string \<Rightarrow> int \<Rightarrow> member_record" where
  "new_record node_id org_id manifest_url revision =
     \<lparr>rec_node_id = node_id, rec_manifest_url = manifest_url, rec_org_id = org_id,
      rec_manifest_revision = revision, rec_state = ACTIVE, rec_accepted_until = None,
      rec_cooldown_until = None, rec_failures = 0, rec_last_refresh = None\<rparr>"

definition is_eligible :: "datetime \<Rightarrow> member_record \<Rightarrow> bool" where
  "is_eligible now r =
     (if rec_state r \<noteq> ACTIVE then False
      else if (case rec_accepted_until r of None \<Rightarrow> False | Some t \<Rightarrow> t \<le> now) then False
      else if (case rec_cooldown_until r of None \<Rightarrow> False | Some t \<Rightarrow> now < t) then False
      else True)"

section \<open>Health and backoff\<close>

record cooldown_policy =
  cp_base_cooldown :: timedelta
  cp_max_cooldown :: timedelta

definition DEFAULT_COOLDOWN_POLICY :: cooldown_policy where
  "DEFAULT_COOLDOWN_POLICY = \<lparr>cp_base_cooldown = 30 * usec, cp_max_cooldown = 600 * usec\<rparr>"

definition next_cooldown :: "cooldown_policy \<Rightarrow> int \<Rightarrow> timedelta result" where
  "next_cooldown p failures =
     rbind (td_mul (cp_base_cooldown p) (2 ^ nat (max (failures - 1) 0))) (\<lambda>d.
       Inr (min d (cp_max_cooldown p)))"

definition touch :: "datetime \<Rightarrow> member_record \<Rightarrow> member_record" where
  "touch now r = r\<lparr>rec_last_refresh := Some now\<rparr>"

definition admit :: "datetime option \<Rightarrow> datetime \<Rightarrow> member_record \<Rightarrow> member_record" where
  "admit accepted_until now r =
     touch now (r\<lparr>rec_state := ACTIVE, rec_accepted_until := accepted_until, rec_failures := 0,
       rec_cooldown_until := None\<rparr>)"

definition set_state :: "peer_state \<Rightarrow> datetime \<Rightarrow> member_record \<Rightarrow> member_record" where
  "set_state st now r = touch now (r\<lparr>rec_state := st\<rparr>)"

definition record_success :: "datetime \<Rightarrow> member_record \<Rightarrow> member_record" where
  "record_success now r =
     (let r' = r\<lparr>rec_failures := 0, rec_cooldown_until := None\<rparr>
      in touch now (if rec_state r' = COOLDOWN then r'\<lparr>rec_state := ACTIVE\<rparr> else r'))"

definition record_failure ::
    "cooldown_policy \<Rightarrow> datetime \<Rightarrow> member_record \<Rightarrow> unit result \<times> member_record" where
  "record_failure p now r =
     (let r' = r\<lparr>rec_failures := rec_failures r + 1\<rparr> in
      case rbind (next_cooldown p (rec_failures r')) (dt_add now) of
        Inl e \<Rightarrow> (Inl e, r')
      | Inr t \<Rightarrow> (Inr (), touch now (r'\<lparr>rec_cooldown_until := Some t\<rparr>)))"

section \<open>The store port and the in-memory table\<close>

record 't membership_store =
  tb_get :: "string \<Rightarrow> ('t, member_record option) io"
  tb_upsert :: "member_record \<Rightarrow> ('t, unit) io"
  tb_values :: "('t, member_record list) io"
  tb_delete :: "string \<Rightarrow> ('t, unit) io"

type_synonym membership_table = "(string, member_record) dict"

definition table_get :: "membership_table \<Rightarrow> string \<Rightarrow> member_record option" where
  "table_get t node_id = dict_get t node_id"

definition table_upsert :: "member_record \<Rightarrow> membership_table \<Rightarrow> membership_table" where
  "table_upsert r t = dict_set (rec_node_id r) r t"

definition table_values :: "membership_table \<Rightarrow> member_record list" where
  "table_values t = dict_values t"

definition table_delete :: "string \<Rightarrow> membership_table \<Rightarrow> membership_table" where
  "table_delete node_id t = dict_pop node_id t"

definition table_port :: "membership_table membership_store" where
  "table_port = \<lparr>tb_get = (\<lambda>k t. (Inr (table_get t k), t)),
     tb_upsert = (\<lambda>r t. (Inr (), table_upsert r t)),
     tb_values = (\<lambda>t. (Inr (table_values t), t)),
     tb_delete = (\<lambda>k t. (Inr (), table_delete k t))\<rparr>"

lemma table_port_simps [simp]:
  "tb_get table_port k t = (Inr (table_get t k), t)"
  "tb_upsert table_port r t = (Inr (), table_upsert r t)"
  "tb_values table_port t = (Inr (table_values t), t)"
  "tb_delete table_port k t = (Inr (), table_delete k t)"
  by (simp_all add: table_port_def)

definition eligible_peers :: "'t membership_store \<Rightarrow> datetime \<Rightarrow> ('t, member_record list) io" where
  "eligible_peers T now =
     io_bind (tb_values T) (\<lambda>rs. io_lift (Inr (filter (is_eligible now) rs)))"

section \<open>Disclosure\<close>

record disclosure_policy =
  dp_default :: string
  dp_denied :: "string set"
  dp_requester_disclosure :: "(string, string) dict"

text \<open>A Python datetime with or without a time zone, and a \<open>since\<close> cursor.\<close>

datatype py_datetime = Aware datetime | Naive datetime
datatype since_cursor = SinceText string | SinceTime py_datetime

definition is_space :: "char \<Rightarrow> bool" where
  "is_space c \<longleftrightarrow> (of_char c :: nat) \<in> {9, 10, 11, 12, 13, 28, 29, 30, 31, 32}"

definition str_strip :: "string \<Rightarrow> string" where
  "str_strip s = rev (dropWhile is_space (rev (dropWhile is_space s)))"

text \<open>\<open>fromisoformat\<close> is \<^verbatim>\<open>datetime.fromisoformat\<close>; \<open>None\<close> is its \<^verbatim>\<open>ValueError\<close>.\<close>

definition parse_since_cursor ::
    "(string \<Rightarrow> py_datetime option) \<Rightarrow> since_cursor \<Rightarrow> datetime result" where
  "parse_since_cursor fromisoformat since =
     (case (case since of
              SinceText s \<Rightarrow> fromisoformat
                (concat (map (\<lambda>c. if c = CHR ''Z'' then ''+00:00'' else [c]) (str_strip s)))
            | SinceTime t \<Rightarrow> Some t) of
        None \<Rightarrow> Inl (ValueError ''invalid since cursor'')
      | Some (Naive _) \<Rightarrow> Inl (ValueError ''since cursor must be timezone-aware'')
      | Some (Aware t) \<Rightarrow> Inr t)"

definition disclosed_after :: "datetime \<Rightarrow> member_record \<Rightarrow> bool" where
  "disclosed_after since r =
     (case rec_last_refresh r of None \<Rightarrow> True | Some t \<Rightarrow> since < t)"

definition member_ref_of :: "string \<Rightarrow> member_record \<Rightarrow> member_ref" where
  "member_ref_of disclosure r =
     \<lparr>rf_node_id = rec_node_id r, rf_org_id = rec_org_id r, rf_manifest_url = rec_manifest_url r,
      rf_manifest_revision = Some (rec_manifest_revision r), rf_disclosure = disclosure\<rparr>"

definition disclose_members ::
    "(string \<Rightarrow> py_datetime option) \<Rightarrow> datetime \<Rightarrow> member_record list \<Rightarrow> string \<Rightarrow>
      disclosure_policy \<Rightarrow> since_cursor option \<Rightarrow> member_ref list result" where
  "disclose_members fromisoformat now members requester policy since =
     (let disclosure = (case dict_get (dp_requester_disclosure policy) requester of
          None \<Rightarrow> dp_default policy | Some d \<Rightarrow> d) in
      rbind (case since of None \<Rightarrow> Inr None
          | Some c \<Rightarrow> rbind (parse_since_cursor fromisoformat c) (\<lambda>t. Inr (Some t))) (\<lambda>cursor.
        Inr (map (member_ref_of disclosure)
          (filter (\<lambda>r. is_eligible now r \<and> rec_node_id r \<notin> dp_denied policy \<and>
             (case cursor of None \<Rightarrow> True | Some t \<Rightarrow> disclosed_after t r)) members))))"

section \<open>Revocation\<close>

definition self_scoped_authorize :: "revocation_notice \<Rightarrow> bool" where
  "self_scoped_authorize notice \<longleftrightarrow> rn_issuer notice = rn_revoked_node_id notice"

definition apply_revocation_notice ::
    "'t membership_store \<Rightarrow> crypto_lib \<Rightarrow> datetime \<Rightarrow> revocation_notice \<Rightarrow> string \<Rightarrow>
      (string, jwk) dict \<Rightarrow> (revocation_notice \<Rightarrow> bool) \<Rightarrow> ('t, peer_state option) io" where
  "apply_revocation_notice T L now notice federation_id trusted authorize =
     io_bind (tb_get T (rn_revoked_node_id notice)) (\<lambda>found.
       case found of
         None \<Rightarrow> io_lift (Inr None)
       | Some r \<Rightarrow>
         let unchanged = io_lift (Inr (Some (rec_state r))) in
         if rn_federation_id notice \<noteq> federation_id then unchanged
         else (case rn_signature notice of
           None \<Rightarrow> unchanged
         | Some s \<Rightarrow>
           if \<not> authorize notice then unchanged
           else (case dict_get trusted (sig_key_id s) of
             None \<Rightarrow> unchanged
           | Some j \<Rightarrow> io_bind (io_lift (verify_revocation_notice L notice j)) (\<lambda>ok.
               if \<not> ok then unchanged
               else io_bind (tb_upsert T (set_state REVOKED now r)) (\<lambda>_.
                 io_lift (Inr (Some REVOKED)))))))"

text \<open>Both gates, as one predicate.\<close>

definition revocation_trusted ::
    "crypto_lib \<Rightarrow> string \<Rightarrow> (string, jwk) dict \<Rightarrow> (revocation_notice \<Rightarrow> bool) \<Rightarrow> revocation_notice \<Rightarrow> bool" where
  "revocation_trusted L federation_id trusted authorize notice \<longleftrightarrow>
     rn_federation_id notice = federation_id \<and> authorize notice \<and>
     (\<exists>s j. rn_signature notice = Some s \<and> dict_get trusted (sig_key_id s) = Some j \<and>
        verify_model L dump_revocation_notice notice j = Inr True)"

text \<open>A run after its lookup: nothing written, or the record written as revoked.\<close>

lemma apply_revocation_found:
  assumes "tb_get T (rn_revoked_node_id notice) t = (Inr (Some r), t1)"
  shows "revocation_trusted L fed trusted authorize notice \<Longrightarrow>
      apply_revocation_notice T L now notice fed trusted authorize t =
        io_bind (tb_upsert T (set_state REVOKED now r)) (\<lambda>_. io_lift (Inr (Some REVOKED))) t1"
    and "\<not> revocation_trusted L fed trusted authorize notice \<Longrightarrow>
      \<exists>q. apply_revocation_notice T L now notice fed trusted authorize t = (q, t1) \<and>
        (\<forall>st. q = Inr st \<longrightarrow> st = Some (rec_state r))"
  using assms
  by (auto simp: apply_revocation_notice_def revocation_trusted_def verify_revocation_notice_def
      io_bind_def Let_def split: option.splits sum.splits)

text \<open>What the clients of the membership port rely on.\<close>

lemma touched_ids [simp]:
  "rec_node_id (set_state st now r) = rec_node_id r" "rec_state (set_state st now r) = st"
  "rec_node_id (admit u now r) = rec_node_id r" "rec_state (admit u now r) = ACTIVE"
  by (simp_all add: set_state_def admit_def touch_def)

text \<open>A membership store may serialize records, but keeps their state.\<close>

locale membership_port = member_port "tb_upsert T" "tb_delete T" "tb_values T" rec_node_id kept view valid "tb_get T"
  for T :: "'t membership_store" and kept view valid +
  assumes state_kept: "rec_state (kept r) = rec_state r"
begin

lemma eligible_view:
  assumes "valid t" "eligible_peers T now t = (q, t')"
  shows "valid t' \<and> view t' = view t \<and>
    (\<forall>rs. q = Inr rs \<longrightarrow> (\<forall>r. r \<in> set rs \<longleftrightarrow> view t (rec_node_id r) = Some r \<and> is_eligible now r))"
proof -
  from assms(2) obtain v where v: "tb_values T t = (v, t')"
    and q: "q = map_sum id (filter (is_eligible now)) v"
    by (auto simp: eligible_peers_def io_bind_def split: prod.splits sum.splits)
  show ?thesis
    using values_view [OF assms(1) v] view_key [OF assms(1)] q
    by (cases v) (auto simp: ran_def)
qed

lemma revocation_effect:
  assumes "valid t"
    and run: "apply_revocation_notice T L now notice fed trusted authorize t = (q, t')"
  shows "valid t' \<and>
    (view t' = view t \<or> revocation_trusted L fed trusted authorize notice \<and>
       (\<exists>r. view t (rn_revoked_node_id notice) = Some r \<and>
          view t' = (view t)(rn_revoked_node_id notice \<mapsto> kept (set_state REVOKED now r)))) \<and>
    (\<forall>st. q = Inr st \<longrightarrow> st = map_option rec_state (view t' (rn_revoked_node_id notice)) \<and>
       (revocation_trusted L fed trusted authorize notice \<longrightarrow>
          view t' (rn_revoked_node_id notice) =
            map_option (kept \<circ> set_state REVOKED now) (view t (rn_revoked_node_id notice))))"
proof -
  let ?k = "rn_revoked_node_id notice"
  obtain g t1 where g: "tb_get T ?k t = (g, t1)" by fastforce
  have t1: "valid t1" "view t1 = view t" and got: "\<And>x. g = Inr x \<Longrightarrow> x = view t ?k"
    using get_view [OF assms(1) g] by blast+
  show ?thesis
  proof (cases "\<exists>r. g = Inr (Some r)")
    case False
    then consider e where "g = Inl e" | "g = Inr None"
      by (cases g) auto
    then show ?thesis
    proof cases
      case 1
      with run g t1 show ?thesis
        by (auto simp: apply_revocation_notice_def io_bind_def)
    next
      case 2
      with run g t1 got [OF 2] show ?thesis
        by (auto simp: apply_revocation_notice_def io_bind_def)
    qed
  next
    case True
    then obtain r where r: "g = Inr (Some r)" by blast
    with got have rec: "view t ?k = Some r" by metis
    then have id: "rec_node_id (set_state REVOKED now r) = ?k"
      using view_key [OF assms(1)] by simp
    note found = apply_revocation_found [OF g [unfolded r], where L = L and fed = fed and
        trusted = trusted and authorize = authorize and now = now]
    show ?thesis
    proof (cases "revocation_trusted L fed trusted authorize notice")
      case False
      with found(2) run t1 rec show ?thesis by force
    next
      case True
      obtain u t2 where u: "tb_upsert T (set_state REVOKED now r) t1 = (u, t2)" by fastforce
      from upsert_view [OF t1(1) this] id t1 rec found(1) [OF True] run u True show ?thesis
        by (cases u) (auto simp: io_bind_def state_kept)
    qed
  qed
qed

end

interpretation table: keyed_store table_get table_upsert table_values table_delete rec_node_id
  "keyed_by rec_node_id"
proof
  fix s :: membership_table and r k
  assume "keyed_by rec_node_id s"
  then show "r \<in> set (table_values s) \<longleftrightarrow> table_get s (rec_node_id r) = Some r"
    "keyed_by rec_node_id (table_upsert r s)" "keyed_by rec_node_id (table_delete k s)"
    unfolding table_values_def table_get_def table_upsert_def table_delete_def
    by (rule keyed_by_values keyed_by_set keyed_by_pop)+
qed (auto simp: table_get_def table_upsert_def table_delete_def keyed_by_get)

interpretation table: membership_port table_port id table_get "keyed_by rec_node_id"
  using table.port.member_port_axioms
  by (simp add: membership_port_def membership_port_axioms_def table_port_def)

section \<open>Properties\<close>

text \<open>
  C22: Whatever store holds the members, and also when it raises, a revocation notice changes the
  members only when both gates pass (this federation, an authorized issuer, a signature under a
  trusted key), and then only the revoked node's record, to \<open>REVOKED\<close> and stamped with the time (as
  the store keeps it).
  When it is answered, a trusted notice has been applied, and the answer is the record's state
  afterwards.
\<close>

theorem revocation_two_gates:
  assumes "membership_port T kept view valid" "valid t"
    and "apply_revocation_notice T L now notice fed trusted authorize t = (q, t')"
  shows "(view t' = view t \<or> revocation_trusted L fed trusted authorize notice \<and>
       (\<exists>r. view t (rn_revoked_node_id notice) = Some r \<and>
          view t' = (view t)(rn_revoked_node_id notice \<mapsto> kept (set_state REVOKED now r)))) \<and>
    (\<forall>st. q = Inr st \<longrightarrow> st = map_option rec_state (view t' (rn_revoked_node_id notice)) \<and>
       (revocation_trusted L fed trusted authorize notice \<longrightarrow>
          view t' (rn_revoked_node_id notice) =
            map_option (kept \<circ> set_state REVOKED now) (view t (rn_revoked_node_id notice))))"
  using membership_port.revocation_effect [OF assms] by blast

definition toy_notice :: revocation_notice where
  "toy_notice = \<lparr>rn_federation_id = ''fed'', rn_revoked_node_id = ''a'', rn_reason = ''left'',
     rn_issued_at = 0, rn_expires_at = None, rn_issuer = ''a'',
     rn_signature = Some \<lparr>sig_key_id = ''k1'', sig_alg = ''EdDSA'',
       sig_sig = sign_bytes toy_crypto [] [1, 2, 3]\<rparr>\<rparr>"

lemma toy_notice_verifies:
  "verify_model toy_crypto dump_revocation_notice toy_notice (public_jwk toy_crypto []) = Inr True"
  by (simp add: revocation_wire.verify_model_True toy_notice_def verify_bytes_signed toy_crypto_ok)

lemma toy_notice_trusted:
  "revocation_trusted toy_crypto ''fed'' [(''k1'', public_jwk toy_crypto [])] self_scoped_authorize toy_notice"
  using toy_notice_verifies
  by (simp add: revocation_trusted_def self_scoped_authorize_def) (auto simp: toy_notice_def)

lemma revocation_two_gates_witness:
  "let t = [(''a'', new_record ''a'' None ''u'' 1)];
       (q, t') = apply_revocation_notice table_port toy_crypto 5 toy_notice ''fed''
         [(''k1'', public_jwk toy_crypto [])] self_scoped_authorize t
   in table_get t' ''a'' = Some (set_state REVOKED 5 (new_record ''a'' None ''u'' 1))"
proof -
  let ?t = "[(''a'', new_record ''a'' None ''u'' 1)]"
  have id: "rn_revoked_node_id toy_notice = ''a''"
    by (simp add: toy_notice_def)
  have run: "\<exists>t'. apply_revocation_notice table_port toy_crypto 5 toy_notice ''fed''
      [(''k1'', public_jwk toy_crypto [])] self_scoped_authorize ?t = (Inr (Some REVOKED), t')"
    using apply_revocation_found(1) [OF _ toy_notice_trusted, of table_port ?t _ ?t 5]
    by (simp add: id table_get_def io_bind_def)
  then obtain t' where run: "apply_revocation_notice table_port toy_crypto 5 toy_notice ''fed''
      [(''k1'', public_jwk toy_crypto [])] self_scoped_authorize ?t = (Inr (Some REVOKED), t')"
    by blast
  have "keyed_by rec_node_id ?t"
    by (simp add: keyed_by_def dict_wf_def new_record_def)
  note gates = revocation_two_gates [OF table.membership_port_axioms this run, unfolded id]
  have "table_get t' ''a'' = map_option (id \<circ> set_state REVOKED 5) (table_get ?t ''a'')"
    using gates [THEN conjunct2] toy_notice_trusted by blast
  then show ?thesis
    unfolding run Let_def by (simp add: table_get_def)
qed

text \<open>
  Backoff doubles from the base cooldown with each consecutive failure and is capped: with
  the default policy the first to the 42nd failure wait 30 s times a power of two, at most ten
  minutes.
\<close>

theorem default_cooldown:
  assumes "1 \<le> f" "f \<le> 42"
  shows "next_cooldown DEFAULT_COOLDOWN_POLICY f =
    Inr (min (30 * 2 ^ nat (f - 1) * usec) (600 * usec))"
proof -
  have "td_ok (30 * usec * x)" if "0 \<le> x" "x \<le> 2 ^ 41" for x
    using that by (simp add: td_ok_def usec_def day_usec_def)
  moreover have "(2 :: int) ^ nat (f - 1) \<le> 2 ^ 41"
    using assms by (intro power_increasing) auto
  ultimately have "td_ok (30 * usec * 2 ^ nat (f - 1))"
    by simp
  moreover have "max (f - 1) 0 = f - 1"
    using assms by simp
  ultimately show ?thesis
    by (simp add: next_cooldown_def td_mul_def DEFAULT_COOLDOWN_POLICY_def algebra_simps)
qed

lemma default_cooldown_witness:
  "next_cooldown DEFAULT_COOLDOWN_POLICY 3 = Inr (min (30 * 2 ^ nat (3 - 1) * usec) (600 * usec)) \<and>
   next_cooldown DEFAULT_COOLDOWN_POLICY 42 = Inr (min (30 * 2 ^ nat (42 - 1) * usec) (600 * usec))"
  using default_cooldown [of 3] default_cooldown [of 42] by simp

text \<open>
  C38: From the 43rd consecutive failure on the product exceeds the largest \<^verbatim>\<open>timedelta\<close>, so
  \<open>record_failure\<close> raises \<open>OverflowError\<close> instead of capping, with the failure counted but
  the cooldown left as it was.
\<close>

theorem record_failure_overflows:
  assumes "42 \<le> rec_failures r"
  shows "\<exists>msg. record_failure DEFAULT_COOLDOWN_POLICY now r =
    (Inl (OverflowError msg), r\<lparr>rec_failures := rec_failures r + 1\<rparr>)"
proof -
  have "(2 :: int) ^ 42 \<le> 2 ^ nat (rec_failures r)"
    using assms by (intro power_increasing) auto
  then have "\<not> td_ok (30 * usec * 2 ^ nat (rec_failures r))"
    unfolding td_ok_def usec_def day_usec_def by simp
  moreover have "max (rec_failures r) 0 = rec_failures r"
    using assms by simp
  ultimately show ?thesis
    by (simp add: record_failure_def next_cooldown_def td_mul_def DEFAULT_COOLDOWN_POLICY_def)
qed

lemma record_failure_overflows_witness:
  "\<exists>msg. record_failure DEFAULT_COOLDOWN_POLICY 0 (new_record ''a'' None ''u'' 1\<lparr>rec_failures := 42\<rparr>) =
    (Inl (OverflowError msg), (new_record ''a'' None ''u'' 1\<lparr>rec_failures := 42\<rparr>)\<lparr>rec_failures := 42 + 1\<rparr>)"
  using record_failure_overflows [of "new_record ''a'' None ''u'' 1\<lparr>rec_failures := 42\<rparr>" 0]
  by (simp add: new_record_def)

text \<open>
  A failed peer stays out of the eligible set for exactly its cooldown, and a later success
  or re-admission makes it eligible at once.
\<close>

theorem failure_then_recovery:
  assumes "record_failure p now r = (Inr (), r')" and "is_eligible now r"
  shows "\<exists>t. rec_cooldown_until r' = Some t \<and>
    (\<forall>u. is_eligible u r' \<longleftrightarrow> t \<le> u \<and> (\<forall>e. rec_accepted_until r = Some e \<longrightarrow> u < e)) \<and>
    is_eligible now (record_success now r') \<and> (\<forall>u. is_eligible u (admit None now r'))"
  using assms
  by (auto simp: record_failure_def Let_def is_eligible_def record_success_def admit_def touch_def
      split: sum.splits option.splits if_splits)

lemma failure_then_recovery_witness:
  "let r = new_record ''a'' None ''u'' 1;
       r' = touch 0 (r\<lparr>rec_failures := 1, rec_cooldown_until := Some (30 * usec)\<rparr>)
   in record_failure DEFAULT_COOLDOWN_POLICY 0 r = (Inr (), r') \<and>
     (\<exists>t. rec_cooldown_until r' = Some t \<and>
      (\<forall>u. is_eligible u r' \<longleftrightarrow> t \<le> u \<and> (\<forall>e. rec_accepted_until r = Some e \<longrightarrow> u < e)) \<and>
      is_eligible 0 (record_success 0 r') \<and> (\<forall>u. is_eligible u (admit None 0 r')))"
proof -
  have run: "record_failure DEFAULT_COOLDOWN_POLICY 0 (new_record ''a'' None ''u'' 1) =
    (Inr (), touch 0 (new_record ''a'' None ''u'' 1\<lparr>rec_failures := 1, rec_cooldown_until := Some (30 * usec)\<rparr>))"
    by (simp add: record_failure_def next_cooldown_def td_mul_def td_ok_def dt_add_def dt_ok_def
        DEFAULT_COOLDOWN_POLICY_def usec_def day_usec_def new_record_def)
  have "is_eligible 0 (new_record ''a'' None ''u'' 1)"
    by (simp add: is_eligible_def new_record_def)
  from run failure_then_recovery [OF run this] show ?thesis
    unfolding Let_def by (rule conjI)
qed

text \<open>
  C40: Disclosure reveals exactly the eligible members that the policy does not deny and that
  changed after the cursor (members never stamped included), each under the disclosure level
  the policy gives the requester; nothing of a revoked, rejected, stale or cooling peer leaks.
\<close>

theorem disclosed_exactly:
  assumes "disclose_members fromiso now members requester policy since = Inr refs"
  shows "ref \<in> set refs \<longleftrightarrow>
    (\<exists>r \<in> set members. is_eligible now r \<and> rec_state r = ACTIVE \<and> rec_node_id r \<notin> dp_denied policy \<and>
       (\<forall>c t u. since = Some c \<longrightarrow> parse_since_cursor fromiso c = Inr t \<longrightarrow>
          rec_last_refresh r = Some u \<longrightarrow> t < u) \<and>
       ref = member_ref_of (case dict_get (dp_requester_disclosure policy) requester of
          None \<Rightarrow> dp_default policy | Some d \<Rightarrow> d) r)"
proof -
  have elig: "is_eligible now r \<Longrightarrow> rec_state r = ACTIVE" for r
    by (auto simp: is_eligible_def split: if_splits)
  show ?thesis
  proof (cases since)
    case None
    with assms have "set refs = member_ref_of (case dict_get (dp_requester_disclosure policy) requester
        of None \<Rightarrow> dp_default policy | Some d \<Rightarrow> d) `
      {r \<in> set members. is_eligible now r \<and> rec_node_id r \<notin> dp_denied policy}"
      by (auto simp: disclose_members_def Let_def)
    with None show ?thesis
      using elig by auto
  next
    case (Some c)
    with assms obtain t where t: "parse_since_cursor fromiso c = Inr t"
      by (auto simp: disclose_members_def Let_def result_simps)
    with assms Some have "set refs = member_ref_of (case dict_get (dp_requester_disclosure policy)
        requester of None \<Rightarrow> dp_default policy | Some d \<Rightarrow> d) `
      {r \<in> set members. is_eligible now r \<and> rec_node_id r \<notin> dp_denied policy \<and> disclosed_after t r}"
      by (auto simp: disclose_members_def Let_def)
    with Some t show ?thesis
      using elig by (auto simp: disclosed_after_def split: option.splits)
  qed
qed

lemma disclosed_exactly_witness:
  "disclose_members (\<lambda>_. None) 5 [new_record ''a'' None ''u'' 1] ''q''
     \<lparr>dp_default = ''federation'', dp_denied = {}, dp_requester_disclosure = []\<rparr> None =
     Inr [member_ref_of ''federation'' (new_record ''a'' None ''u'' 1)] \<and>
   member_ref_of ''federation'' (new_record ''a'' None ''u'' 1) \<in>
     set [member_ref_of ''federation'' (new_record ''a'' None ''u'' 1)]"
proof -
  have run: "disclose_members (\<lambda>_. None) 5 [new_record ''a'' None ''u'' 1] ''q''
     \<lparr>dp_default = ''federation'', dp_denied = {}, dp_requester_disclosure = []\<rparr> None =
     Inr [member_ref_of ''federation'' (new_record ''a'' None ''u'' 1)]"
    by (simp add: disclose_members_def is_eligible_def new_record_def)
  show ?thesis
    using run disclosed_exactly [OF run, of "member_ref_of ''federation'' (new_record ''a'' None ''u'' 1)"]
    by simp
qed

end
