(* ===== verification/Discovery.thy ===== *)
theory Discovery
  imports Client Membership
begin

text \<open>
  Discovered-peer admission from signed membership hints (\<^verbatim>\<open>discovery.py\<close>) over any
  membership store. The state of a run is what is behind the store's port, the report so far and
  the two sets of references already tried; an exception of the store ends the run.
\<close>

record discovery_outcome =
  do_node_id :: string
  do_manifest_url :: string
  do_source_node_id :: string
  do_reason :: string
  do_manifest :: "manifest option"

record discovery_report =
  dr_accepted :: "discovery_outcome list"
  dr_rejected :: "discovery_outcome list"
  dr_skipped :: "discovery_outcome list"
  dr_failed :: "discovery_outcome list"

record 't discovery_state =
  ds_table :: 't
  ds_report :: discovery_report
  ds_seen_ids :: "string list"
  ds_seen_urls :: "string list"

definition empty_report :: discovery_report where
  "empty_report = \<lparr>dr_accepted = [], dr_rejected = [], dr_skipped = [], dr_failed = []\<rparr>"

definition outcome_with_reason :: "discovery_outcome \<Rightarrow> string \<Rightarrow> discovery_outcome" where
  "outcome_with_reason o1 reason = \<lparr>do_node_id = do_node_id o1, do_manifest_url = do_manifest_url o1,
     do_source_node_id = do_source_node_id o1, do_reason = reason, do_manifest = None\<rparr>"

definition outcome_with_manifest :: "discovery_outcome \<Rightarrow> string \<Rightarrow> manifest \<Rightarrow> discovery_outcome" where
  "outcome_with_manifest o1 reason m = \<lparr>do_node_id = do_node_id o1, do_manifest_url = do_manifest_url o1,
     do_source_node_id = do_source_node_id o1, do_reason = reason, do_manifest = Some m\<rparr>"

text \<open>A reference before it is processed, and what becomes of it.\<close>

definition base_outcome :: "member_ref \<Rightarrow> string \<Rightarrow> discovery_outcome" where
  "base_outcome ref source = \<lparr>do_node_id = rf_node_id ref, do_manifest_url = rf_manifest_url ref,
     do_source_node_id = source, do_reason = ''ok'', do_manifest = None\<rparr>"

definition ref_outcome :: "member_ref \<Rightarrow> string \<Rightarrow> string \<Rightarrow> manifest option \<Rightarrow> discovery_outcome" where
  "ref_outcome ref source reason m =
     (case m of
        None \<Rightarrow> outcome_with_reason (base_outcome ref source) reason
      | Some m \<Rightarrow> outcome_with_manifest (base_outcome ref source) reason m)"

lemma ref_outcome_eq:
  "ref_outcome ref source reason m = \<lparr>do_node_id = rf_node_id ref, do_manifest_url = rf_manifest_url ref,
     do_source_node_id = source, do_reason = reason, do_manifest = m\<rparr>"
  by (simp add: ref_outcome_def outcome_with_reason_def outcome_with_manifest_def base_outcome_def split: option.splits)

definition record_outcome :: "member_record \<Rightarrow> string \<Rightarrow> discovery_outcome" where
  "record_outcome r reason = \<lparr>do_node_id = rec_node_id r, do_manifest_url = rec_manifest_url r,
     do_source_node_id = rec_node_id r, do_reason = reason, do_manifest = None\<rparr>"

definition add_accepted :: "discovery_outcome \<Rightarrow> 't discovery_state \<Rightarrow> 't discovery_state" where
  "add_accepted o1 s =
     s\<lparr>ds_report := (ds_report s)\<lparr>dr_accepted := dr_accepted (ds_report s) @ [o1]\<rparr>\<rparr>"

definition add_rejected :: "discovery_outcome \<Rightarrow> 't discovery_state \<Rightarrow> 't discovery_state" where
  "add_rejected o1 s =
     s\<lparr>ds_report := (ds_report s)\<lparr>dr_rejected := dr_rejected (ds_report s) @ [o1]\<rparr>\<rparr>"

definition add_skipped :: "discovery_outcome \<Rightarrow> 't discovery_state \<Rightarrow> 't discovery_state" where
  "add_skipped o1 s =
     s\<lparr>ds_report := (ds_report s)\<lparr>dr_skipped := dr_skipped (ds_report s) @ [o1]\<rparr>\<rparr>"

definition add_failed :: "discovery_outcome \<Rightarrow> 't discovery_state \<Rightarrow> 't discovery_state" where
  "add_failed o1 s =
     s\<lparr>ds_report := (ds_report s)\<lparr>dr_failed := dr_failed (ds_report s) @ [o1]\<rparr>\<rparr>"

lemmas add_defs = add_accepted_def add_rejected_def add_skipped_def add_failed_def

definition discovery_failure_reason :: "exc \<Rightarrow> string" where
  "discovery_failure_reason e =
     (case e of
        ManifestVerificationError msg \<Rightarrow> if msg = [] then ''bad_manifest'' else msg
      | ValidationError _ \<Rightarrow> ''malformed_manifest''
      | JSONDecodeError _ \<Rightarrow> ''malformed_manifest''
      | _ \<Rightarrow> reason_or_class e)"

section \<open>One reference\<close>

definition discovered_record :: "manifest \<Rightarrow> string \<Rightarrow> datetime \<Rightarrow> member_record" where
  "discovered_record m url now =
     admit None now (new_record (mf_node_id m) (Some (mf_org_id m)) url (mf_revision m))"

text \<open>The exceptions that leave this function are those of \<open>admit_manifest\<close> and of the store.\<close>

definition process_ref ::
    "'t membership_store \<Rightarrow> 'w outside \<Rightarrow> federation_client \<Rightarrow> 'w admission_policy \<Rightarrow> int \<Rightarrow> string \<Rightarrow>
      member_ref \<Rightarrow> 't discovery_state \<Rightarrow> 'w \<Rightarrow> unit result \<times> 't discovery_state \<times> 'w" where
  "process_ref T E c policy skew source ref s w =
     (case fetch_manifest E c (rf_manifest_url ref) skew w of
        (Inl e, w1) \<Rightarrow>
          (Inr (), add_failed (ref_outcome ref source (discovery_failure_reason e) None) s, w1)
      | (Inr m, w1) \<Rightarrow>
        if mf_node_id m \<noteq> rf_node_id ref
        then (Inr (), add_skipped (ref_outcome ref source ''node_id_mismatch'' (Some m)) s, w1)
        else if mf_node_id m = fc_node_id c
        then (Inr (), add_skipped (ref_outcome ref source ''self'' (Some m)) s, w1)
        else (case admit_manifest (out_crypto E) (out_now E w1) m policy skew w1 of
            (Inl e, w2) \<Rightarrow> (Inl e, s, w2)
          | (Inr d, w2) \<Rightarrow>
              if \<not> ad_accepted d
              then (Inr (), add_rejected (ref_outcome ref source (ad_reason d) (Some m)) s, w2)
              else (case tb_upsert T (discovered_record m (rf_manifest_url ref) (out_now E w2)) (ds_table s) of
                  (Inl e, t) \<Rightarrow> (Inl e, s\<lparr>ds_table := t\<rparr>, w2)
                | (Inr _, t) \<Rightarrow>
                    (Inr (), add_accepted (ref_outcome ref source ''ok'' (Some m)) (s\<lparr>ds_table := t\<rparr>), w2))))"

text \<open>
  A reference that is passed over changes at most the other lists of the report; one that is not has
  been fetched, is of the announced node and not this one, was admitted, and has been written.
\<close>

lemma process_ref_cases [consumes 1, case_names passed stored]:
  assumes "process_ref T E c policy skew source ref s w = (r, s', w')"
  obtains "ds_table s' = ds_table s" "dr_accepted (ds_report s') = dr_accepted (ds_report s)"
    | m d w1 w2 u where "fetch_manifest E c (rf_manifest_url ref) skew w = (Inr m, w1)"
      "mf_node_id m = rf_node_id ref" "mf_node_id m \<noteq> fc_node_id c"
      "admit_manifest (out_crypto E) (out_now E w1) m policy skew w1 = (Inr d, w2)" "ad_accepted d"
      "tb_upsert T (discovered_record m (rf_manifest_url ref) (out_now E w2)) (ds_table s) = (u, ds_table s')"
      "r = u"
      "dr_accepted (ds_report s') = dr_accepted (ds_report s) @ (if isl u then [] else [ref_outcome ref source ''ok'' (Some m)])"
proof (cases "\<exists>m w1 d w2. fetch_manifest E c (rf_manifest_url ref) skew w = (Inr m, w1) \<and> mf_node_id m = rf_node_id ref \<and>
    mf_node_id m \<noteq> fc_node_id c \<and> admit_manifest (out_crypto E) (out_now E w1) m policy skew w1 = (Inr d, w2) \<and> ad_accepted d")
  case False
  with assms show ?thesis
    by (intro that(1)) (auto simp: process_ref_def add_defs split: sum.splits prod.splits if_splits)
next
  case True
  then obtain m w1 d w2 where m: "fetch_manifest E c (rf_manifest_url ref) skew w = (Inr m, w1)"
    "mf_node_id m = rf_node_id ref" "mf_node_id m \<noteq> fc_node_id c"
    "admit_manifest (out_crypto E) (out_now E w1) m policy skew w1 = (Inr d, w2)" "ad_accepted d"
    by blast
  obtain u t where u: "tb_upsert T (discovered_record m (rf_manifest_url ref) (out_now E w2)) (ds_table s) = (u, t)"
    by fastforce
  have "ds_table s' = t \<and> r = u \<and> dr_accepted (ds_report s') =
      dr_accepted (ds_report s) @ (if isl u then [] else [ref_outcome ref source ''ok'' (Some m)])"
    using assms m u by (cases u) (auto simp: process_ref_def add_defs)
  with m u show ?thesis by (intro that(2)) auto
qed

section \<open>The loops\<close>

fun process_members ::
    "'t membership_store \<Rightarrow> 'w outside \<Rightarrow> federation_client \<Rightarrow> 'w admission_policy \<Rightarrow> int \<Rightarrow> int \<Rightarrow>
      string \<Rightarrow> int \<Rightarrow> member_ref list \<Rightarrow> 't discovery_state \<Rightarrow> 'w \<Rightarrow>
      unit result \<times> 't discovery_state \<times> 'w" where
  "process_members T E c policy skew cap source index [] s w = (Inr (), s, w)"
| "process_members T E c policy skew cap source index (ref # refs) s w =
     (let skip = (\<lambda>reason s. process_members T E c policy skew cap source (index + 1) refs
            (add_skipped (ref_outcome ref source reason None) s) w) in
      if cap \<le> index then skip ''per_peer_cap'' s
      else if rf_node_id ref = fc_node_id c then skip ''self'' s
      else (case tb_get T (rf_node_id ref) (ds_table s) of
          (Inl e, t) \<Rightarrow> (Inl e, s\<lparr>ds_table := t\<rparr>, w)
        | (Inr (Some r), t) \<Rightarrow> skip ''existing_peer'' (s\<lparr>ds_table := t\<rparr>)
        | (Inr None, t) \<Rightarrow>
          if rf_node_id ref \<in> set (ds_seen_ids s) \<or> rf_manifest_url ref \<in> set (ds_seen_urls s)
          then skip ''duplicate'' (s\<lparr>ds_table := t\<rparr>)
          else (case process_ref T E c policy skew source ref
                  (s\<lparr>ds_table := t, ds_seen_ids := rf_node_id ref # ds_seen_ids s,
                     ds_seen_urls := rf_manifest_url ref # ds_seen_urls s\<rparr>) w of
              (Inl e, s', w') \<Rightarrow> (Inl e, s', w')
            | (Inr _, s', w') \<Rightarrow>
                process_members T E c policy skew cap source (index + 1) refs s' w')))"

text \<open>How the loop goes on after one reference.\<close>

lemma process_members_cases [consumes 1, case_names skipped store stopped went]:
  assumes "process_members T E c policy skew cap source i (ref # refs) s w = (r, s', w')"
  obtains reason s1 where "s1 = s \<or> (\<exists>x t. tb_get T (rf_node_id ref) (ds_table s) = (Inr x, t) \<and> s1 = s\<lparr>ds_table := t\<rparr>)"
      "process_members T E c policy skew cap source (i + 1) refs
        (add_skipped (ref_outcome ref source reason None) s1) w = (r, s', w')"
    | e t where "tb_get T (rf_node_id ref) (ds_table s) = (Inl e, t)" "r = Inl e" "s' = s\<lparr>ds_table := t\<rparr>"
      "w' = w"
    | e t where "tb_get T (rf_node_id ref) (ds_table s) = (Inr None, t)" "r = Inl e"
      "process_ref T E c policy skew source ref (s\<lparr>ds_table := t, ds_seen_ids := rf_node_id ref # ds_seen_ids s,
        ds_seen_urls := rf_manifest_url ref # ds_seen_urls s\<rparr>) w = (Inl e, s', w')"
    | u t s1 w1 where "tb_get T (rf_node_id ref) (ds_table s) = (Inr None, t)"
      "process_ref T E c policy skew source ref (s\<lparr>ds_table := t, ds_seen_ids := rf_node_id ref # ds_seen_ids s,
        ds_seen_urls := rf_manifest_url ref # ds_seen_urls s\<rparr>) w = (Inr u, s1, w1)"
      "process_members T E c policy skew cap source (i + 1) refs s1 w1 = (r, s', w')"
proof (cases "cap \<le> i \<or> rf_node_id ref = fc_node_id c")
  case True
  with assms that(1) [of s] show ?thesis
    by (cases "cap \<le> i") auto
next
  case False
  obtain g t where g: "tb_get T (rf_node_id ref) (ds_table s) = (g, t)" by fastforce
  consider e where "g = Inl e" | x where "g = Inr (Some x)"
    | "g = Inr None" "rf_node_id ref \<in> set (ds_seen_ids s) \<or> rf_manifest_url ref \<in> set (ds_seen_urls s)"
    | "g = Inr None" "\<not> (rf_node_id ref \<in> set (ds_seen_ids s) \<or> rf_manifest_url ref \<in> set (ds_seen_urls s))"
    by (metis option.exhaust sum.exhaust)
  then show ?thesis
  proof cases
    case 1
    with False assms g that(2) show ?thesis by auto
  next
    case 2
    with False assms g that(1) [of "s\<lparr>ds_table := t\<rparr>"] show ?thesis by auto
  next
    case 3
    with False assms g that(1) [of "s\<lparr>ds_table := t\<rparr>"] show ?thesis by auto
  next
    case 4
    then have seen: "rf_node_id ref \<notin> set (ds_seen_ids s)" "rf_manifest_url ref \<notin> set (ds_seen_urls s)"
      by simp_all
    let ?s = "s\<lparr>ds_table := t, ds_seen_ids := rf_node_id ref # ds_seen_ids s,
      ds_seen_urls := rf_manifest_url ref # ds_seen_urls s\<rparr>"
    obtain q s1 w1 where q: "process_ref T E c policy skew source ref ?s w = (q, s1, w1)"
      by (metis prod_cases3)
    have run: "(case process_ref T E c policy skew source ref ?s w of
        (Inl e, s', w') \<Rightarrow> (Inl e, s', w')
      | (Inr _, s', w') \<Rightarrow> process_members T E c policy skew cap source (i + 1) refs s' w') = (r, s', w')"
      using assms False g 4(1) seen by simp
    show ?thesis
    proof (cases q)
      case (Inl e)
      with run q g 4(1) show ?thesis by (intro that(3)) auto
    next
      case (Inr u)
      with run q g 4(1) show ?thesis by (intro that(4)) auto
    qed
  qed
qed

fun visit_peers ::
    "'t membership_store \<Rightarrow> 'w outside \<Rightarrow> federation_client \<Rightarrow> (string, manifest) dict \<Rightarrow>
      'w admission_policy \<Rightarrow> int \<Rightarrow> int \<Rightarrow> string option \<Rightarrow> member_record list \<Rightarrow> 't discovery_state \<Rightarrow>
      'w \<Rightarrow> unit result \<times> 't discovery_state \<times> 'w" where
  "visit_peers T E c peers policy skew cap since [] s w = (Inr (), s, w)"
| "visit_peers T E c peers policy skew cap since (r # rs) s w =
     (case dict_get peers (rec_node_id r) of
        None \<Rightarrow> visit_peers T E c peers policy skew cap since rs
          (add_failed (record_outcome r ''missing_peer_manifest'') s) w
      | Some peer \<Rightarrow> (case get_members E c peer since w of
          (Inl e, w') \<Rightarrow> visit_peers T E c peers policy skew cap since rs
            (add_failed (record_outcome r (discovery_failure_reason e)) s) w'
        | (Inr members, w') \<Rightarrow>
          (case process_members T E c policy skew cap (mf_node_id peer) 0 (mr_members members) s w' of
            (Inl e, s', w'') \<Rightarrow> (Inl e, s', w'')
          | (Inr _, s', w'') \<Rightarrow> visit_peers T E c peers policy skew cap since rs s' w'')))"

definition refresh_discovered_members ::
    "'t membership_store \<Rightarrow> 'w outside \<Rightarrow> federation_client \<Rightarrow> 't \<Rightarrow> (string, manifest) dict \<Rightarrow>
      'w admission_policy \<Rightarrow> int \<Rightarrow> int \<Rightarrow> string option \<Rightarrow> 'w \<Rightarrow> discovery_report result \<times> 't \<times> 'w" where
  "refresh_discovered_members T E c table peers policy skew cap since w =
     (case eligible_peers T (out_now E w) table of
        (Inl e, t) \<Rightarrow> (Inl e, t, w)
      | (Inr rs, t) \<Rightarrow>
        (case visit_peers T E c peers policy skew cap since rs
           \<lparr>ds_table = t, ds_report = empty_report, ds_seen_ids = [], ds_seen_urls = []\<rparr> w of
          (Inl e, s, w') \<Rightarrow> (Inl e, ds_table s, w')
        | (Inr _, s, w') \<Rightarrow> (Inr (ds_report s), ds_table s, w')))"

section \<open>What a run keeps\<close>

text \<open>
  A run that started from the members \<open>v0\<close> keeps their records, and a record it adds is one of a
  manifest that was verified and admitted under the policy, of another node than this one
  (\<open>discovery_keeps\<close>). As long as no exception has ended it, the added records are those of the
  accepted outcomes (\<open>discovery_inv\<close>).
\<close>

definition admitted_now :: "crypto_lib \<Rightarrow> 'w admission_policy \<Rightarrow> int \<Rightarrow> manifest \<Rightarrow> bool" where
  "admitted_now L policy skew m \<longleftrightarrow>
     (\<exists>now. check_manifest L now m skew = Inr (True, ''ok'')) \<and> policy_allows policy m"

definition admitted_outcome ::
    "crypto_lib \<Rightarrow> federation_client \<Rightarrow> 'w admission_policy \<Rightarrow> int \<Rightarrow> (string \<Rightarrow> member_record option) \<Rightarrow>
      discovery_outcome \<Rightarrow> bool" where
  "admitted_outcome L c policy skew v0 o1 \<longleftrightarrow>
     do_node_id o1 \<noteq> fc_node_id c \<and> v0 (do_node_id o1) = None \<and>
     (\<exists>m. do_manifest o1 = Some m \<and> mf_node_id m = do_node_id o1 \<and> admitted_now L policy skew m)"

definition discovery_keeps ::
    "crypto_lib \<Rightarrow> federation_client \<Rightarrow> 'w admission_policy \<Rightarrow> int \<Rightarrow> (member_record \<Rightarrow> member_record) \<Rightarrow>
      (string \<Rightarrow> member_record option) \<Rightarrow> (string \<Rightarrow> member_record option) \<Rightarrow> bool" where
  "discovery_keeps L c policy skew kept v0 v \<longleftrightarrow>
     (\<forall>k. v0 k \<noteq> None \<longrightarrow> v k = v0 k) \<and>
     (\<forall>k r. v0 k = None \<longrightarrow> v k = Some r \<longrightarrow> k \<noteq> fc_node_id c \<and>
        (\<exists>m url t. r = kept (discovered_record m url t) \<and> mf_node_id m = k \<and> admitted_now L policy skew m))"

definition discovery_inv ::
    "crypto_lib \<Rightarrow> federation_client \<Rightarrow> 'w admission_policy \<Rightarrow> int \<Rightarrow> (member_record \<Rightarrow> member_record) \<Rightarrow>
      (string \<Rightarrow> member_record option) \<Rightarrow> (string \<Rightarrow> member_record option) \<Rightarrow> discovery_outcome list \<Rightarrow> bool" where
  "discovery_inv L c policy skew kept v0 v accepted \<longleftrightarrow>
     discovery_keeps L c policy skew kept v0 v \<and>
     (\<forall>k r. v0 k = None \<longrightarrow> v k = Some r \<longrightarrow>
        (\<exists>o1 \<in> set accepted. do_node_id o1 = k \<and>
           (\<exists>m t. do_manifest o1 = Some m \<and> r = kept (discovered_record m (do_manifest_url o1) t)))) \<and>
     (\<forall>o1 \<in> set accepted. admitted_outcome L c policy skew v0 o1 \<and> v (do_node_id o1) \<noteq> None)"

lemma add_table [simp]:
  "ds_table (add_accepted o1 s) = ds_table s" "ds_table (add_rejected o1 s) = ds_table s"
  "ds_table (add_skipped o1 s) = ds_table s" "ds_table (add_failed o1 s) = ds_table s"
  by (simp_all add: add_defs)

lemma add_other_accepted [simp]:
  "dr_accepted (ds_report (add_rejected o1 s)) = dr_accepted (ds_report s)"
  "dr_accepted (ds_report (add_skipped o1 s)) = dr_accepted (ds_report s)"
  "dr_accepted (ds_report (add_failed o1 s)) = dr_accepted (ds_report s)"
  "dr_accepted (ds_report (add_accepted o1 s)) = dr_accepted (ds_report s) @ [o1]"
  by (simp_all add: add_defs)

lemma discovered_record_id [simp]:
  "rec_node_id (discovered_record m url now) = mf_node_id m"
  "rec_state (discovered_record m url now) = ACTIVE"
  by (simp_all add: discovered_record_def new_record_def)

lemma discovery_inv_keeps: "discovery_inv L c policy skew kept v0 v acc \<Longrightarrow> discovery_keeps L c policy skew kept v0 v"
  by (simp add: discovery_inv_def)

lemma discovery_inv_start: "discovery_inv L c policy skew kept v v []"
  by (auto simp: discovery_inv_def discovery_keeps_def)

lemma discovery_keeps_add:
  assumes "discovery_keeps L c policy skew kept v0 v" "v k = None" "k \<noteq> fc_node_id c"
    and "mf_node_id m = k" "admitted_now L policy skew m"
  shows "discovery_keeps L c policy skew kept v0 (v(k \<mapsto> kept (discovered_record m url t)))"
  using assms unfolding discovery_keeps_def by (auto split: if_splits)

lemma discovery_inv_add:
  assumes "discovery_inv L c policy skew kept v0 v acc" "v k = None" "k \<noteq> fc_node_id c"
    and "mf_node_id m = k" "admitted_now L policy skew m"
    and "do_node_id o1 = k" "do_manifest o1 = Some m" "do_manifest_url o1 = url"
  shows "discovery_inv L c policy skew kept v0 (v(k \<mapsto> kept (discovered_record m url t))) (acc @ [o1])"
proof -
  have "v0 k = None"
    using assms(1,2) by (auto simp: discovery_inv_def discovery_keeps_def)
  then show ?thesis
    using assms discovery_keeps_add [OF discovery_inv_keeps [OF assms(1)] assms(2-5), of url t]
    by (fastforce simp: discovery_inv_def admitted_outcome_def)
qed

text \<open>An action on a run's state: the invariant is kept when it returns, its first part always.\<close>

definition inv_after ::
    "crypto_lib \<Rightarrow> federation_client \<Rightarrow> 'w admission_policy \<Rightarrow> int \<Rightarrow> (member_record \<Rightarrow> member_record) \<Rightarrow>
      (string \<Rightarrow> member_record option) \<Rightarrow> ('t \<Rightarrow> string \<Rightarrow> member_record option) \<Rightarrow> ('t \<Rightarrow> bool) \<Rightarrow> 'a result \<Rightarrow> 't discovery_state \<Rightarrow> bool" where
  "inv_after L c policy skew kept v0 view valid r s \<longleftrightarrow>
     valid (ds_table s) \<and> discovery_keeps L c policy skew kept v0 (view (ds_table s)) \<and>
     (\<not> isl r \<longrightarrow> discovery_inv L c policy skew kept v0 (view (ds_table s)) (dr_accepted (ds_report s)))"

lemma inv_after_raise: "inv_after L c policy skew kept v0 view valid (Inr u) s \<Longrightarrow> inv_after L c policy skew kept v0 view valid (Inl e) s"
  by (simp add: inv_after_def)

lemma inv_after_cong:
  "ds_table s' = ds_table s \<Longrightarrow> dr_accepted (ds_report s') = dr_accepted (ds_report s) \<Longrightarrow>
   inv_after L c policy skew kept v0 view valid (Inr u) s' = inv_after L c policy skew kept v0 view valid (Inr u) s"
  by (simp add: inv_after_def)

context membership_port
begin

lemma process_ref_inv:
  fixes s :: "'t discovery_state"
  assumes inv: "inv_after (out_crypto E) c policy skew kept v0 view valid (Inr ()) s"
    and new: "view (ds_table s) (rf_node_id ref) = None"
    and run: "process_ref T E c policy skew source ref s w = (r, s', w')"
  shows "inv_after (out_crypto E) c policy skew kept v0 view valid r s'"
  using run
proof (cases rule: process_ref_cases)
  case passed
  with inv show ?thesis by (simp add: inv_after_def)
next
  case (stored m d w1 w2 u)
  have ok: "admitted_now (out_crypto E) policy skew m"
    using admit_manifest_verified [OF stored(4,5)] by (auto simp: admitted_now_def)
  let ?r = "discovered_record m (rf_manifest_url ref) (out_now E w2)" and ?v = "view (ds_table s)"
  let ?o = "ref_outcome ref source ''ok'' (Some m)"
  have "valid (ds_table s)" using inv by (simp add: inv_after_def)
  from upsert_view [OF this stored(6)] stored(2)
  have up: "valid (ds_table s')" "view (ds_table s') = ?v(rf_node_id ref \<mapsto> kept ?r) \<or> isl u \<and> view (ds_table s') = ?v"
    by auto
  have "discovery_keeps (out_crypto E) c policy skew kept v0 (?v(rf_node_id ref \<mapsto> kept ?r))"
    using inv new ok stored(2,3) by (intro discovery_keeps_add) (auto simp: inv_after_def)
  moreover have "discovery_inv (out_crypto E) c policy skew kept v0 (?v(rf_node_id ref \<mapsto> kept ?r))
      (dr_accepted (ds_report s) @ [?o])"
    using inv new ok stored(2,3) by (intro discovery_inv_add) (auto simp: inv_after_def ref_outcome_eq)
  ultimately show ?thesis
    using up inv stored(7,8) by (auto simp: inv_after_def)
qed

lemma process_members_inv:
  fixes s :: "'t discovery_state"
  shows "process_members T E c policy skew cap source i refs s w = (r, s', w') \<Longrightarrow>
   inv_after (out_crypto E) c policy skew kept v0 view valid (Inr ()) s \<Longrightarrow>
   inv_after (out_crypto E) c policy skew kept v0 view valid r s'"
proof (induction refs arbitrary: i s w)
  case (Cons ref refs)
  let ?inv = "inv_after (out_crypto E) c policy skew kept v0 view valid"
  have "valid (ds_table s)" using Cons.prems(2) by (simp add: inv_after_def)
  note get = get_view [OF this]
  have t: "?inv (Inr ()) (s\<lparr>ds_table := t\<rparr>)" if "tb_get T (rf_node_id ref) (ds_table s) = (g, t)" for g t
    using Cons.prems(2) get [OF that] by (simp add: inv_after_def)
  have ref: "?inv p s1" if "tb_get T (rf_node_id ref) (ds_table s) = (Inr None, t)"
    "process_ref T E c policy skew source ref (s\<lparr>ds_table := t, ds_seen_ids := rf_node_id ref # ds_seen_ids s,
        ds_seen_urls := rf_manifest_url ref # ds_seen_urls s\<rparr>) w = (p, s1, w1)" for p s1 w1 t
    using process_ref_inv [OF _ _ that(2)] t [OF that(1)] get [OF that(1)] by (simp add: inv_after_def)
  from Cons.prems(1) show ?case
  proof (cases rule: process_members_cases)
    case (skipped reason s1)
    from this(1) t Cons.prems(2) have "?inv (Inr ()) s1" by auto
    then show ?thesis
      by (intro Cons.IH [OF skipped(2)]) (simp add: inv_after_def)
  next
    case (store e t)
    then show ?thesis by (simp add: inv_after_raise [OF t [OF store(1)]])
  next
    case (stopped e t)
    then show ?thesis using ref by blast
  next
    case (went u t s1 w1)
    from ref [OF went(1,2)] have "?inv (Inr ()) s1" by (simp add: inv_after_def)
    then show ?thesis by (rule Cons.IH [OF went(3)])
  qed
qed simp

lemma visit_peers_inv:
  fixes s :: "'t discovery_state"
  shows "visit_peers T E c peers policy skew cap since rs s w = (r, s', w') \<Longrightarrow>
   inv_after (out_crypto E) c policy skew kept v0 view valid (Inr ()) s \<Longrightarrow>
   inv_after (out_crypto E) c policy skew kept v0 view valid r s'"
proof (induction rs arbitrary: s w)
  case (Cons x rs)
  let ?inv = "inv_after (out_crypto E) c policy skew kept v0 view valid (Inr ())"
  have failed: "inv_after (out_crypto E) c policy skew kept v0 view valid r s'"
    if "visit_peers T E c peers policy skew cap since rs (add_failed o1 s) w1 = (r, s', w')" for o1 w1
    using Cons.IH [OF that] Cons.prems(2) by (simp add: inv_after_def)
  show ?case
  proof (cases "dict_get peers (rec_node_id x)")
    case None
    with Cons.prems(1) show ?thesis by (auto intro: failed)
  next
    case (Some peer)
    obtain g w1 where g: "get_members E c peer since w = (g, w1)" by fastforce
    show ?thesis
    proof (cases g)
      case (Inl e)
      with Cons.prems(1) Some g show ?thesis by (auto intro: failed)
    next
      case (Inr members)
      obtain p s1 w2 where p: "process_members T E c policy skew cap (mf_node_id peer) 0
          (mr_members members) s w1 = (p, s1, w2)"
        by (metis prod_cases3)
      note s1 = process_members_inv [OF p Cons.prems(2)]
      show ?thesis
        using Cons.prems(1) Some g Inr p s1 Cons.IH
        by (cases p) (auto simp: inv_after_def)
    qed
  qed
qed simp

text \<open>A whole run.\<close>

lemma discovery_run:
  assumes "valid t" "refresh_discovered_members T E c t peers policy skew cap since w = (res, t', w')"
  shows "valid t' \<and> discovery_keeps (out_crypto E) c policy skew kept (view t) (view t') \<and>
    (\<forall>report. res = Inr report \<longrightarrow>
       discovery_inv (out_crypto E) c policy skew kept (view t) (view t') (dr_accepted report))"
proof -
  obtain p t1 where p: "eligible_peers T (out_now E w) t = (p, t1)" by fastforce
  note t1 = eligible_view [OF assms(1) p]
  have start: "inv_after (out_crypto E) c policy skew kept (view t) view valid (Inr ())
      \<lparr>ds_table = t1, ds_report = empty_report, ds_seen_ids = [], ds_seen_urls = []\<rparr>"
    using t1 by (auto simp: inv_after_def empty_report_def intro: discovery_inv_keeps discovery_inv_start)
  show ?thesis
  proof (cases p)
    case (Inl e)
    with assms(2) p t1 show ?thesis
      by (auto simp: refresh_discovered_members_def intro: discovery_inv_keeps discovery_inv_start)
  next
    case (Inr rs)
    obtain r s w1 where v: "visit_peers T E c peers policy skew cap since rs
        \<lparr>ds_table = t1, ds_report = empty_report, ds_seen_ids = [], ds_seen_urls = []\<rparr> w = (r, s, w1)"
      by (metis prod_cases3)
    from visit_peers_inv [OF v start] assms(2) p Inr v show ?thesis
      by (cases r) (auto simp: refresh_discovered_members_def inv_after_def)
  qed
qed

end

section \<open>Every reference is accounted for\<close>

definition outcome_count :: "discovery_report \<Rightarrow> nat" where
  "outcome_count r = length (dr_accepted r) + length (dr_rejected r) + length (dr_skipped r)
     + length (dr_failed r)"

lemma outcome_count_add:
  "outcome_count (ds_report (add_accepted o1 s)) = Suc (outcome_count (ds_report s))"
  "outcome_count (ds_report (add_rejected o1 s)) = Suc (outcome_count (ds_report s))"
  "outcome_count (ds_report (add_skipped o1 s)) = Suc (outcome_count (ds_report s))"
  "outcome_count (ds_report (add_failed o1 s)) = Suc (outcome_count (ds_report s))"
  by (simp_all add: outcome_count_def add_defs)

lemma process_ref_count:
  "process_ref T E c policy skew source ref s w = (Inr u, s', w') \<Longrightarrow>
   outcome_count (ds_report s') = Suc (outcome_count (ds_report s))"
  by (auto simp: process_ref_def outcome_count_add split: prod.splits sum.splits if_splits)

lemma process_members_count:
  "process_members T E c policy skew cap source i refs s w = (Inr u, s', w') \<Longrightarrow>
   outcome_count (ds_report s') = outcome_count (ds_report s) + length refs"
proof (induction refs arbitrary: i s w)
  case (Cons ref refs)
  from Cons.prems show ?case
  proof (cases rule: process_members_cases)
    case (skipped reason s1)
    from skipped(1) have "ds_report s1 = ds_report s" by auto
    with Cons.IH [OF skipped(2)] show ?thesis by (simp add: outcome_count_add)
  next
    case (went v t s1 w1)
    with Cons.IH [OF went(3)] process_ref_count [OF went(2)] show ?thesis by simp
  qed simp_all
qed simp

end
