(* ===== verification/Bootstrap.thy ===== *)
theory Bootstrap
  imports Client "HOL-Library.Multiset"
begin

text \<open>
  Bootstrapping from configured seed peers (\<^verbatim>\<open>bootstrap.py\<close>): fetch, admit and introduce,
  one seed after the other, each ending in one bucket of the report.
\<close>

record bootstrap_outcome =
  bo_seed_manifest_url :: string
  bo_reason :: string
  bo_seed_manifest :: "manifest option"
  bo_response :: "introduce_response option"
  bo_node_id :: "string option"
  bo_source_node_id :: "string option"
  bo_manifest_url :: "string option"

record bootstrap_report =
  br_accepted :: "bootstrap_outcome list"
  br_rejected :: "bootstrap_outcome list"
  br_failed :: "bootstrap_outcome list"

definition bootstrap_outcome_of ::
    "string \<Rightarrow> string \<Rightarrow> manifest option \<Rightarrow> introduce_response option \<Rightarrow> bootstrap_outcome" where
  "bootstrap_outcome_of url reason m resp =
     \<lparr>bo_seed_manifest_url = url, bo_reason = reason, bo_seed_manifest = m, bo_response = resp,
      bo_node_id = map_option mf_node_id m, bo_source_node_id = map_option mf_node_id m,
      bo_manifest_url = Some url\<rparr>"

definition bootstrap_failure_reason :: "exc \<Rightarrow> string" where
  "bootstrap_failure_reason e =
     (case e of
        ManifestVerificationError msg \<Rightarrow> if msg = [] then ''bad_manifest'' else msg
      | ValidationError _ \<Rightarrow> ''malformed_manifest''
      | _ \<Rightarrow> reason_or_class e)"

text \<open>What one seed comes to, with the bucket of the report it goes to.\<close>

datatype seed_bucket = SB_accepted | SB_rejected | SB_failed

definition introduce_to_seed ::
    "'w outside \<Rightarrow> federation_client \<Rightarrow> string \<Rightarrow> manifest \<Rightarrow> string \<Rightarrow> manifest \<Rightarrow>
      ('w, introduce_response) io" where
  "introduce_to_seed E c local_url local_m disclosure_level seed_m w =
     (case out_uuid_bytes E w of (nonce_bytes, w1) \<Rightarrow>
        client_introduce E c seed_m
          \<lparr>iq_federation_id = fc_federation_id c, iq_manifest_url = local_url,
           iq_manifest = local_m, iq_requested_disclosure = disclosure_level,
           iq_nonce = b64u_encode nonce_bytes, iq_timestamp = out_now E w1\<rparr> w1)"

definition response_reason :: "introduce_response \<Rightarrow> string" where
  "response_reason r =
     (case ir_reason r of
        Some reason \<Rightarrow>
          if reason \<noteq> [] then reason else if ir_accepted r then ''ok'' else ''rejected''
      | None \<Rightarrow> if ir_accepted r then ''ok'' else ''rejected'')"

definition bootstrap_seed ::
    "'w outside \<Rightarrow> federation_client \<Rightarrow> string \<Rightarrow> manifest \<Rightarrow> 'w admission_policy \<Rightarrow> string \<Rightarrow> int \<Rightarrow>
      string \<Rightarrow> ('w, seed_bucket \<times> bootstrap_outcome) io" where
  "bootstrap_seed E c local_url local_m policy disclosure_level skew seed_url w =
     (case fetch_manifest E c seed_url skew w of
        (Inl e, w1) \<Rightarrow>
          (Inr (SB_failed, bootstrap_outcome_of seed_url (bootstrap_failure_reason e) None None), w1)
      | (Inr m, w1) \<Rightarrow>
        (case admit_manifest (out_crypto E) (out_now E w1) m policy skew w1 of
          (Inl e, w2) \<Rightarrow> (Inl e, w2)
        | (Inr d, w2) \<Rightarrow>
          if \<not> ad_accepted d
          then (Inr (SB_rejected, bootstrap_outcome_of seed_url (ad_reason d) (Some m) None), w2)
          else (case introduce_to_seed E c local_url local_m disclosure_level m w2 of
            (Inl e, w3) \<Rightarrow> (Inr (SB_failed,
              bootstrap_outcome_of seed_url (bootstrap_failure_reason e) (Some m) None), w3)
          | (Inr resp, w3) \<Rightarrow> (Inr (if ir_accepted resp then SB_accepted else SB_rejected,
              bootstrap_outcome_of seed_url (response_reason resp) (Some m) (Some resp)), w3))))"

fun bootstrap_seeds ::
    "'w outside \<Rightarrow> federation_client \<Rightarrow> string \<Rightarrow> manifest \<Rightarrow> 'w admission_policy \<Rightarrow> string \<Rightarrow> int \<Rightarrow>
      string list \<Rightarrow> bootstrap_report \<Rightarrow> ('w, bootstrap_report) io" where
  "bootstrap_seeds E c lu lm policy dl skew [] report w = (Inr report, w)"
| "bootstrap_seeds E c lu lm policy dl skew (url # urls) report w =
     (case bootstrap_seed E c lu lm policy dl skew url w of
        (Inl e, w') \<Rightarrow> (Inl e, w')
      | (Inr (b, o1), w') \<Rightarrow> bootstrap_seeds E c lu lm policy dl skew urls
          (case b of
             SB_accepted \<Rightarrow> report\<lparr>br_accepted := br_accepted report @ [o1]\<rparr>
           | SB_rejected \<Rightarrow> report\<lparr>br_rejected := br_rejected report @ [o1]\<rparr>
           | SB_failed \<Rightarrow> report\<lparr>br_failed := br_failed report @ [o1]\<rparr>) w')"

definition bootstrap_from_seeds ::
    "'w outside \<Rightarrow> federation_client \<Rightarrow> string list \<Rightarrow> string \<Rightarrow> manifest \<Rightarrow> 'w admission_policy \<Rightarrow>
      string \<Rightarrow> int \<Rightarrow> ('w, bootstrap_report) io" where
  "bootstrap_from_seeds E c seed_urls local_url local_m policy disclosure_level skew =
     bootstrap_seeds E c local_url local_m policy disclosure_level skew seed_urls
       \<lparr>br_accepted = [], br_rejected = [], br_failed = []\<rparr>"

section \<open>Buckets\<close>

text \<open>An accepted seed: verified, admitted, and its signed answer says it accepts this node.\<close>

definition accepted_seed :: "crypto_lib \<Rightarrow> 'w admission_policy \<Rightarrow> int \<Rightarrow> bootstrap_outcome \<Rightarrow> bool" where
  "accepted_seed L policy skew o1 \<longleftrightarrow>
     (\<exists>m resp now. bo_seed_manifest o1 = Some m \<and> bo_response o1 = Some resp \<and>
        bo_node_id o1 = Some (mf_node_id m) \<and>
        check_manifest L now m skew = Inr (True, ''ok'') \<and> policy_allows policy m \<and>
        response_signed_by L m dump_introduce_response ir_signature resp \<and> ir_accepted resp)"

lemma introduce_to_seed_ok:
  "introduce_to_seed E c lu lm dl m w = (Inr resp, w') \<Longrightarrow>
     response_signed_by (out_crypto E) m dump_introduce_response ir_signature resp"
  by (auto simp: introduce_to_seed_def dest: client_introduce_ok split: prod.splits)

lemma bootstrap_seed_outcome:
  assumes "bootstrap_seed E c lu lm policy dl skew url w = (Inr (b, o1), w')"
  shows "bo_seed_manifest_url o1 = url"
    and "b = SB_accepted \<Longrightarrow> accepted_seed (out_crypto E) policy skew o1"
proof -
  show "bo_seed_manifest_url o1 = url"
    using assms by (auto simp: bootstrap_seed_def bootstrap_outcome_of_def
        split: prod.splits sum.splits if_splits)
  assume b: "b = SB_accepted"
  obtain m w1 where f: "fetch_manifest E c url skew w = (Inr m, w1)"
    using assms b by (auto simp: bootstrap_seed_def split: prod.splits sum.splits)
  obtain d w2 where a: "admit_manifest (out_crypto E) (out_now E w1) m policy skew w1 = (Inr d, w2)"
    using assms b f by (auto simp: bootstrap_seed_def split: prod.splits sum.splits)
  have d: "ad_accepted d"
    using assms b f a by (auto simp: bootstrap_seed_def split: if_splits)
  obtain resp w3 where i: "introduce_to_seed E c lu lm dl m w2 = (Inr resp, w3)"
    using assms b f a d by (auto simp: bootstrap_seed_def split: prod.splits sum.splits)
  have "ir_accepted resp" "o1 = bootstrap_outcome_of url (response_reason resp) (Some m) (Some resp)"
    using assms b f a d i by (auto simp: bootstrap_seed_def split: if_splits)
  then show "accepted_seed (out_crypto E) policy skew o1"
    using admit_manifest_verified [OF a d] introduce_to_seed_ok [OF i]
    by (auto simp: accepted_seed_def bootstrap_outcome_of_def)
qed

lemma bootstrap_seeds_report:
  "bootstrap_seeds E c lu lm policy dl skew urls rep w = (Inr rep', w') \<Longrightarrow>
   \<forall>o1 \<in> set (br_accepted rep). accepted_seed (out_crypto E) policy skew o1 \<Longrightarrow>
   (\<forall>o1 \<in> set (br_accepted rep'). accepted_seed (out_crypto E) policy skew o1) \<and>
   mset (map bo_seed_manifest_url (br_accepted rep' @ br_rejected rep' @ br_failed rep')) =
     mset (map bo_seed_manifest_url (br_accepted rep @ br_rejected rep @ br_failed rep)) + mset urls"
proof (induction urls arbitrary: rep w)
  case (Cons url urls)
  obtain b o1 w1 where s: "bootstrap_seed E c lu lm policy dl skew url w = (Inr (b, o1), w1)"
    using Cons.prems(1) by (auto split: prod.splits sum.splits)
  note o = bootstrap_seed_outcome [OF s]
  show ?case
  proof (cases b)
    case SB_accepted
    then show ?thesis
      using Cons.IH [of "rep\<lparr>br_accepted := br_accepted rep @ [o1]\<rparr>" w1] Cons.prems s o by simp
  next
    case SB_rejected
    then show ?thesis
      using Cons.IH [of "rep\<lparr>br_rejected := br_rejected rep @ [o1]\<rparr>" w1] Cons.prems s o by simp
  next
    case SB_failed
    then show ?thesis
      using Cons.IH [of "rep\<lparr>br_failed := br_failed rep @ [o1]\<rparr>" w1] Cons.prems s o by simp
  qed
qed simp

end
