(* ===== verification/Toy_Outside.thy ===== *)
theory Toy_Outside
  imports Refresh Discovery Bootstrap
begin

text \<open>
  A concrete world for the witnesses: every host resolves to a public address, every request
  succeeds, and the validators answer with given values. The world's state counts seconds.
\<close>

definition toy_client :: federation_client where
  "toy_client = \<lparr>fc_node_id = ''me'', fc_federation_id = ''fed'', fc_key = [], fc_key_id = ''k1'',
     fc_manifest_revision = 1, fc_allow_private = False\<rparr>"

definition signed_members :: "member_ref list \<Rightarrow> members_response" where
  "signed_members refs = \<lparr>mr_source_node_id = ''a'', mr_cursor = None, mr_members = refs,
     mr_signature = Some \<lparr>sig_key_id = ''k1'', sig_alg = ''EdDSA'',
       sig_sig = sign_bytes toy_crypto [] [1, 2, 3]\<rparr>\<rparr>"

definition signed_introduction :: "introduce_response" where
  "signed_introduction = \<lparr>ir_accepted = True, ir_accepted_node_id = None,
     ir_accepted_manifest_revision = None, ir_accepted_until = None, ir_reason = None,
     ir_membership_cursor = None, ir_known_peer_count = None,
     ir_signature = Some \<lparr>sig_key_id = ''k1'', sig_alg = ''EdDSA'',
       sig_sig = sign_bytes toy_crypto [] [1, 2, 3]\<rparr>\<rparr>"

definition signed_operation :: "operation_response" where
  "signed_operation = \<lparr>or_operation_id = ''op'', or_source_node_id = ''a'', or_payload = [],
     or_items = [], or_metadata = [],
     or_signature = Some \<lparr>sig_key_id = ''k1'', sig_alg = ''EdDSA'',
       sig_sig = sign_bytes toy_crypto [] [1, 2, 3]\<rparr>\<rparr>"

definition toy_out :: "manifest \<Rightarrow> member_ref list \<Rightarrow> unit outside" where
  "toy_out m refs = \<lparr>out_crypto = toy_crypto, out_now = \<lambda>w. 0,
     out_uuid_text = \<lambda>w. (''id'', w), out_uuid_bytes = \<lambda>w. ([7], w),
     out_getaddrinfo = \<lambda>h w. (Inr [''8.8.8.8''], w),
     out_request = \<lambda>verb url body params hs w.
       (Inr \<lparr>ht_status_error = None, ht_json = Inr JNull\<rparr>, w),
     out_json_text = \<lambda>j. ''text'',
     val_manifest = \<lambda>j. Inr m, val_signed_request = read_as dec_signed_request,
     val_introduce_response = \<lambda>j. Inr signed_introduction,
     val_members_response = \<lambda>j. Inr (signed_members refs),
     val_revocations_response = read_as dec_revocations_response,
     val_operation_response = \<lambda>j. Inr signed_operation,
     val_protocol_response = read_as dec_protocol_response,
     val_health_response = read_as dec_health_response\<rparr>"

lemma toy_out_simps:
  "out_crypto (toy_out m refs) = toy_crypto" "out_now (toy_out m refs) w = 0"
  "out_uuid_text (toy_out m refs) w = (''id'', w)" "out_uuid_bytes (toy_out m refs) w = ([7], w)"
  "out_request (toy_out m refs) verb url body params hs w =
     (Inr \<lparr>ht_status_error = None, ht_json = Inr JNull\<rparr>, w)"
  "val_manifest (toy_out m refs) j = Inr m"
  by (simp_all add: toy_out_def)

lemma toy_public: "assert_public_host (\<lambda>h w. (Inr [''8.8.8.8''], w)) ''https://h/m'' False w = (Inr (), w)"
proof -
  have "urlparse ''https://h/m'' = Inr \<lparr>us_scheme = ''https'', us_netloc = ''h'', us_path = ''/m''\<rparr>"
    "us_hostname \<lparr>us_scheme = ''https'', us_netloc = ''h'', us_path = ''/m''\<rparr> = ''h''"
    "check_addresses ''h'' [''8.8.8.8''] = Inr ()"
    by code_simp+
  then show ?thesis
    by (simp add: assert_public_host_def)
qed

lemma toy_fetch:
  "fetch_manifest (toy_out (toy_signed (toy_manifest n e)) refs) toy_client ''https://h/m'' 300 w =
     (Inr (toy_signed (toy_manifest n e)), w)"
  by (simp add: fetch_manifest_def io_bind_def io_lift_def raise_for_status_def toy_out_def toy_client_def
      toy_public toy_check)

lemma toy_verify_all:
  "response_signed_by toy_crypto (toy_signed (toy_manifest n e)) dump_members_response mr_signature
     (signed_members refs)"
  "response_signed_by toy_crypto (toy_signed (toy_manifest n e)) dump_introduce_response ir_signature
     signed_introduction"
  "response_signed_by toy_crypto (toy_signed (toy_manifest n e)) dump_operation_response or_signature
     signed_operation"
  by (simp_all add: response_signed_by_def members_wire.verify_model_True
      introduce_response_wire.verify_model_True operation_response_wire.verify_model_True
      signed_members_def signed_introduction_def signed_operation_def toy_signed_def toy_manifest_def
      verify_bytes_signed toy_crypto_ok)

lemma verified_response_signed:
  "response_signed_by (out_crypto E) peer dump get_sig resp \<Longrightarrow> ht_json r = Inr j \<Longrightarrow> validate j = Inr resp \<Longrightarrow>
     verified_response E peer dump get_sig validate r = Inr resp"
  by (auto simp: verified_response_def verify_response_signature_def response_signed_by_def)

lemma toy_envelope:
  "\<exists>env. signed_envelope (toy_out m refs) toy_client target verb path body w = (Inr env, w)"
proof -
  have "\<exists>env. sign_model toy_crypto dump_signed_request (read_as dec_signed_request) r [] ''k1'' = Inr env"
    if "sr_timestamp r = 0" for r
    using request_wire.sign_model_eq [OF _ reads_read_as toy_jcs, of r "[]" "''k1''"] that
    by (simp add: signed_request_ok_def dt_ok_def day_usec_def)
  then show ?thesis
    by (auto simp: signed_envelope_def toy_out_def toy_client_def build_signed_request_def
        unsigned_request_def)
qed

lemma toy_send:
  assumes "urlparse url = Inr u"
  shows "client_send (toy_out m refs) toy_client target verb url body params w =
    (Inr \<lparr>ht_status_error = None, ht_json = Inr JNull\<rparr>, w)"
  using toy_envelope [of m refs target verb "us_path u" body w] assms
  by (auto simp: client_send_def signed_headers_def io_bind_def io_lift_def raise_for_status_def
      toy_out_simps)

abbreviation toy_peer :: manifest where
  "toy_peer \<equiv> toy_signed (toy_manifest ''a'' ''https://h'')"

lemma toy_urls: "\<exists>u. urlparse (mb_members_url (mf_membership toy_peer)) = Inr u"
  "\<exists>u. urlparse (mb_introduce_url (mf_membership toy_peer)) = Inr u"
proof -
  have "case urlparse ''https://h/members'' of Inr u \<Rightarrow> True | Inl e \<Rightarrow> False"
    "case urlparse ''https://h/introduce'' of Inr u \<Rightarrow> True | Inl e \<Rightarrow> False"
    by code_simp+
  then show "\<exists>u. urlparse (mb_members_url (mf_membership toy_peer)) = Inr u"
    "\<exists>u. urlparse (mb_introduce_url (mf_membership toy_peer)) = Inr u"
    by (auto simp: toy_signed_def toy_manifest_def split: sum.splits)
qed

lemma toy_get_members:
  "get_members (toy_out m refs) toy_client toy_peer None w = (Inr (signed_members refs), w)"
proof -
  obtain u where "urlparse (mb_members_url (mf_membership toy_peer)) = Inr u"
    using toy_urls by blast
  note send = toy_send [OF this]
  have "verified_response (toy_out m refs) toy_peer dump_members_response mr_signature
      (val_members_response (toy_out m refs)) \<lparr>ht_status_error = None, ht_json = Inr JNull\<rparr> =
    Inr (signed_members refs)"
    by (rule verified_response_signed) (simp_all add: toy_out_def toy_verify_all)
  then show ?thesis
    by (simp add: get_members_def io_bind_def io_lift_def send)
qed

lemma toy_introduce:
  "client_introduce (toy_out m refs) toy_client toy_peer intro w = (Inr signed_introduction, w)"
proof -
  obtain u where "urlparse (mb_introduce_url (mf_membership toy_peer)) = Inr u"
    using toy_urls by blast
  note send = toy_send [OF this]
  have "verified_response (toy_out m refs) toy_peer dump_introduce_response ir_signature
      (val_introduce_response (toy_out m refs)) \<lparr>ht_status_error = None, ht_json = Inr JNull\<rparr> =
    Inr signed_introduction"
    by (rule verified_response_signed) (simp_all add: toy_out_def toy_verify_all)
  then show ?thesis
    by (simp add: client_introduce_def io_bind_def io_lift_def send)
qed

lemma toy_send_operation:
  assumes "urlparse url = Inr u"
  shows "send_operation (toy_out m refs) toy_client toy_peer request url w = (Inr signed_operation, w)"
proof -
  have "verified_response (toy_out m refs) toy_peer dump_operation_response or_signature
      (val_operation_response (toy_out m refs)) \<lparr>ht_status_error = None, ht_json = Inr JNull\<rparr> =
    Inr signed_operation"
    by (rule verified_response_signed) (simp_all add: toy_out_def toy_verify_all)
  then show ?thesis
    by (simp add: send_operation_def io_bind_def io_lift_def toy_send [OF assms])
qed

lemma toy_bootstrap:
  "\<exists>report. bootstrap_from_seeds (toy_out toy_peer refs) toy_client [''https://h/m''] ''u'' toy_peer
     toy_policy ''federation'' 300 w = (Inr report, w) \<and> length (br_accepted report) = 1"
  by (simp add: bootstrap_from_seeds_def bootstrap_seed_def toy_fetch toy_out_simps toy_admitted
      accept_decision_def introduce_to_seed_def toy_introduce)
    (simp add: signed_introduction_def)

definition toy_ref :: member_ref where
  "toy_ref = \<lparr>rf_node_id = ''b'', rf_org_id = None, rf_manifest_url = ''https://h/m'',
     rf_manifest_revision = None, rf_disclosure = ''federation''\<rparr>"

definition toy_table :: membership_table where
  "toy_table = [(''a'', new_record ''a'' None ''https://h/m'' 1)]"

lemma toy_discovery:
  "\<exists>report t'. refresh_discovered_members table_port
     (toy_out (toy_signed (toy_manifest ''b'' ''https://h'')) [toy_ref]) toy_client
     toy_table [(''a'', toy_peer)] toy_policy 300 100 None w = (Inr report, t', w) \<and>
     map do_node_id (dr_accepted report) = [''b'']"
proof -
  let ?m = "toy_signed (toy_manifest ''b'' ''https://h'')"
  let ?E = "toy_out ?m [toy_ref]"
  have ref: "rf_manifest_url toy_ref = ''https://h/m''" "rf_node_id toy_ref = ''b''"
    and ids: "mf_node_id ?m = ''b''" "mf_node_id toy_peer = ''a''" and me: "fc_node_id toy_client = ''me''"
    by (simp_all add: toy_ref_def toy_signed_def toy_manifest_def toy_client_def)
  have one: "process_ref table_port ?E toy_client toy_policy 300 src toy_ref s v =
      (Inr (), add_accepted (ref_outcome toy_ref src ''ok'' (Some ?m))
        (s\<lparr>ds_table := table_upsert (discovered_record ?m ''https://h/m'' 0) (ds_table s)\<rparr>), v)" for src s v
    by (simp add: process_ref_def ref ids me toy_fetch toy_out_simps toy_admitted)
      (simp add: accept_decision_def)
  have unknown: "table_get toy_table ''b'' = None"
    by (simp add: toy_table_def table_get_def)
  have all: "\<exists>s'. process_members table_port ?E toy_client toy_policy 300 100 ''a'' 0 [toy_ref]
      \<lparr>ds_table = toy_table, ds_report = empty_report, ds_seen_ids = [], ds_seen_urls = []\<rparr> w =
      (Inr (), s', w) \<and> map do_node_id (dr_accepted (ds_report s')) = [''b'']"
    using unknown by (simp add: ref ids me one Let_def)
      (simp add: add_accepted_def empty_report_def ref_outcome_eq ref)
  have "eligible_peers table_port 0 toy_table = (Inr [new_record ''a'' None ''https://h/m'' 1], toy_table)"
    by (simp add: eligible_peers_def io_bind_def table_values_def toy_table_def is_eligible_def new_record_def)
  moreover have "rec_node_id (new_record ''a'' None ''https://h/m'' 1) = ''a''"
    by (simp add: new_record_def)
  moreover have "mr_members (signed_members [toy_ref]) = [toy_ref]"
    by (simp add: signed_members_def)
  ultimately show ?thesis
    using all by (auto simp: refresh_discovered_members_def toy_out_simps toy_get_members ids
        simp del: process_members.simps)
qed

end
