(* ===== verification/Orchestration_Properties.thy ===== *)
theory Orchestration_Properties
  imports Toy_Outside
begin

text \<open>
  What the client's orchestration guarantees, whatever the network and the other peers do:
  fetching, refreshing, discovery and bootstrap.
\<close>

section \<open>Fetching and refreshing\<close>

text \<open>
  \<open>fetch_manifest\<close> returns only a manifest that is self-signed and fresh when it is
  checked, and only for a URL that passed the SSRF guard.
\<close>

theorem fetched_manifest_verified:
  assumes "fetch_manifest E c url skew w = (Inr m, w')"
  shows "self_signed (out_crypto E) m \<and> fresh_at (out_now E w') skew m \<and>
    (\<exists>w1. assert_public_host (out_getaddrinfo E) url (fc_allow_private c) w = (Inr (), w1))"
  using fetch_manifest_ok [OF assms] by (auto simp: check_manifest_True_iff)

lemma fetched_manifest_verified_witness:
  "self_signed toy_crypto toy_peer \<and> fresh_at 0 300 toy_peer"
  using fetched_manifest_verified [OF toy_fetch [of "''a''" "''https://h''" "[]" "()"]]
  by (simp add: toy_out_simps)

text \<open>
  A refresh that answers \<open>accept\<close> or \<open>unchanged\<close> carries a verified manifest of the same
  node and organisation, with a larger revision for \<open>accept\<close> and the same one for
  \<open>unchanged\<close>: a rollback is never taken over.
\<close>

theorem refresh_never_rolls_back:
  assumes "refresh_peer_manifest E c current url p skew w = (Inr d, w')"
    and "md_action d \<in> {RF_accept, RF_unchanged}"
  shows "\<exists>m now. md_manifest d = Some m \<and> self_signed (out_crypto E) m \<and> fresh_at now skew m \<and>
    mf_node_id m = mf_node_id current \<and> mf_org_id m = mf_org_id current \<and>
    mf_revision current \<le> mf_revision m \<and>
    (md_action d = RF_accept \<longleftrightarrow> mf_revision current < mf_revision m)"
  using refresh_peer_sound [OF assms(1)] assms(2)
  by (auto simp: sound_refresh_def check_manifest_True_iff split: if_splits)

lemma refresh_never_rolls_back_witness:
  "\<exists>d m now. refresh_peer_manifest (toy_out toy_peer []) toy_client toy_peer ''https://h/m'' None 300 () =
     (Inr d, ()) \<and> md_action d = RF_unchanged \<and> md_manifest d = Some m \<and> fresh_at now 300 m"
proof -
  have eq: "dict_eq_by (dict_eq_by (=)) (keys_by_id toy_peer) (keys_by_id toy_peer)"
    by (simp add: keys_by_id_def toy_signed_def toy_manifest_def dict_of_pairs_def dict_eq_by_def
        public_jwk_def jwk_of_raw_def)
  obtain d where run: "refresh_peer_manifest (toy_out toy_peer []) toy_client toy_peer ''https://h/m'' None
      300 () = (Inr d, ())" "md_action d = RF_unchanged"
    by (simp add: refresh_peer_manifest_def toy_fetch check_key_continuity_def eq kc_def with_manifest_def)
  then show ?thesis
    using refresh_never_rolls_back [OF run(1)] by auto
qed

section \<open>Discovery\<close>

text \<open>
  C33: Whatever store holds the members, whatever the advertising peers say, and also when the run
  is cut short by an exception: discovery leaves the records already there as they were, and adds
  only fresh active records (as the store keeps them) of peers other than this node whose
  manifest was fetched, verified and admitted under the local policy. A run that returns reports exactly the peers it added as
  accepted.
\<close>

theorem discovery_adds_only_admitted:
  assumes "membership_port T kept view valid" "valid t"
    and "refresh_discovered_members T E c t peers policy skew cap since w = (res, t', w')"
  shows "(\<forall>k. view t k \<noteq> None \<longrightarrow> view t' k = view t k) \<and>
    (\<forall>k r. view t k = None \<longrightarrow> view t' k = Some r \<longrightarrow> k \<noteq> fc_node_id c \<and>
       (\<exists>m url now. r = kept (discovered_record m url now) \<and> mf_node_id m = k \<and>
          self_signed (out_crypto E) m \<and> policy_allows policy m)) \<and>
    (\<forall>report. res = Inr report \<longrightarrow>
       (\<forall>o1 \<in> set (dr_accepted report). admitted_outcome (out_crypto E) c policy skew (view t) o1) \<and>
       do_node_id ` set (dr_accepted report) = {k. view t k = None \<and> view t' k \<noteq> None})"
proof -
  note run = membership_port.discovery_run [OF assms]
  have keeps: "discovery_keeps (out_crypto E) c policy skew kept (view t) (view t')"
    using run by blast
  have "do_node_id ` set (dr_accepted report) = {k. view t k = None \<and> view t' k \<noteq> None}"
    if "res = Inr report" for report
  proof -
    have inv: "discovery_inv (out_crypto E) c policy skew kept (view t) (view t') (dr_accepted report)"
      using run that by blast
    have "k \<in> do_node_id ` set (dr_accepted report)" if "view t k = None" "view t' k = Some r" for k r
    proof -
      have "\<exists>o1 \<in> set (dr_accepted report). do_node_id o1 = k"
        using inv that unfolding discovery_inv_def by blast
      then show ?thesis by blast
    qed
    moreover have "view t (do_node_id o1) = None \<and> view t' (do_node_id o1) \<noteq> None"
      if "o1 \<in> set (dr_accepted report)" for o1
      using inv that unfolding discovery_inv_def admitted_outcome_def by blast
    ultimately show ?thesis by fastforce
  qed
  moreover have "\<forall>o1 \<in> set (dr_accepted report). admitted_outcome (out_crypto E) c policy skew (view t) o1"
    if "res = Inr report" for report
    using run that by (simp add: discovery_inv_def)
  moreover have "k \<noteq> fc_node_id c \<and> (\<exists>m url now. r = kept (discovered_record m url now) \<and> mf_node_id m = k \<and>
      self_signed (out_crypto E) m \<and> policy_allows policy m)" if "view t k = None" "view t' k = Some r" for k r
    using keeps that by (fastforce simp: discovery_keeps_def admitted_now_def check_manifest_True_iff)
  ultimately show ?thesis
    using keeps by (simp add: discovery_keeps_def)
qed

lemma discovery_adds_only_admitted_witness:
  "\<exists>report t'. refresh_discovered_members table_port
     (toy_out (toy_signed (toy_manifest ''b'' ''https://h'')) [toy_ref]) toy_client
     toy_table [(''a'', toy_peer)] toy_policy 300 100 None () = (Inr report, t', ()) \<and>
     table_get t' ''a'' = table_get toy_table ''a'' \<and> table_get t' ''b'' \<noteq> None"
proof -
  obtain report t' where run: "refresh_discovered_members table_port
     (toy_out (toy_signed (toy_manifest ''b'' ''https://h'')) [toy_ref]) toy_client
     toy_table [(''a'', toy_peer)] toy_policy 300 100 None () = (Inr report, t', ())"
    and acc: "map do_node_id (dr_accepted report) = [''b'']"
    using toy_discovery [of "()"] by auto
  have "keyed_by rec_node_id toy_table"
    by (simp add: toy_table_def keyed_by_def dict_wf_def new_record_def)
  note adds = discovery_adds_only_admitted [OF table.membership_port_axioms this run]
  have "table_get toy_table ''a'' \<noteq> None"
    by (simp add: toy_table_def table_get_def)
  with adds have a: "table_get t' ''a'' = table_get toy_table ''a''" by blast
  have "do_node_id ` set (dr_accepted report) = {''b''}"
    using arg_cong [OF acc, of set] by simp
  with adds have "{k. table_get toy_table k = None \<and> table_get t' k \<noteq> None} = {''b''}"
    by simp
  then have "table_get t' ''b'' \<noteq> None" by blast
  with run a show ?thesis by blast
qed

text \<open>
  Every reference a peer announces ends in exactly one outcome of the report, accepted,
  rejected, skipped or failed.
\<close>

theorem every_reference_reported:
  assumes "process_members T E c policy skew cap source i refs s w = (Inr u, s', w')"
  shows "outcome_count (ds_report s') = outcome_count (ds_report s) + length refs"
  using process_members_count [OF assms] .

lemma every_reference_reported_witness:
  "\<exists>s'. process_members table_port (toy_out toy_peer []) toy_client toy_policy 300 0 ''a'' 0 [toy_ref]
      \<lparr>ds_table = [], ds_report = empty_report, ds_seen_ids = [], ds_seen_urls = []\<rparr> () = (Inr (), s', ()) \<and>
    outcome_count (ds_report s') = 0 + length [toy_ref]"
proof -
  obtain s' where run: "process_members table_port (toy_out toy_peer []) toy_client toy_policy 300 0 ''a'' 0 [toy_ref]
      \<lparr>ds_table = [], ds_report = empty_report, ds_seen_ids = [], ds_seen_urls = []\<rparr> () = (Inr (), s', ())"
    by (simp add: Let_def)
  show ?thesis
    using run every_reference_reported [OF run] by (simp add: outcome_count_def empty_report_def)
qed

section \<open>Bootstrap\<close>

text \<open>
  A bootstrap that returns has put every configured seed in exactly one bucket (as often as
  it was configured), and the accepted ones are exactly as trustworthy as an admission: their
  manifest verified, the local policy admits it, and a response signed by that seed accepts
  this node.
\<close>

theorem bootstrap_buckets:
  assumes "bootstrap_from_seeds E c seeds lu lm policy dl skew w = (Inr report, w')"
  shows "(\<forall>o1 \<in> set (br_accepted report). accepted_seed (out_crypto E) policy skew o1) \<and>
    mset (map bo_seed_manifest_url (br_accepted report @ br_rejected report @ br_failed report)) =
      mset seeds"
  using bootstrap_seeds_report [OF assms [unfolded bootstrap_from_seeds_def]] by simp

lemma bootstrap_buckets_witness:
  "\<exists>report. bootstrap_from_seeds (toy_out toy_peer []) toy_client [''https://h/m''] ''u'' toy_peer
     toy_policy ''federation'' 300 () = (Inr report, ()) \<and>
   (\<forall>o1 \<in> set (br_accepted report). accepted_seed toy_crypto toy_policy 300 o1) \<and> br_accepted report \<noteq> []"
proof -
  obtain report where run: "bootstrap_from_seeds (toy_out toy_peer []) toy_client [''https://h/m''] ''u''
      toy_peer toy_policy ''federation'' 300 () = (Inr report, ())" "length (br_accepted report) = 1"
    using toy_bootstrap [of "[]" "()"] by blast
  show ?thesis
    using run bootstrap_buckets [OF run(1)] by (auto simp: toy_out_simps)
qed

text \<open>
  One seed can abort the whole bootstrap: when its manifest is validly signed and only its
  endpoint does not parse as a URL, \<open>admit_manifest\<close> raises outside the loop's handler, and the
  outcomes of the seeds before it are lost with the report.
\<close>

theorem malformed_endpoint_aborts_bootstrap:
  assumes "fetch_manifest E c url skew w = (Inr m, w1)" "urlparse (mf_endpoint m) = Inl e"
    and "\<not> ap_require_expires_at policy \<or> mf_expires_at m \<noteq> None"
    and "ap_federation_id policy \<in> set (mf_federations m)"
    and "set (mf_protocol_versions m) \<inter> set (ap_protocol_versions policy) \<noteq> {}"
    and "\<not> ap_require_signed_http policy \<or> ''signed_http'' \<in> set (mf_auth_methods m)"
    and "ap_auth_method_verifiers policy = []"
  shows "bootstrap_seeds E c lu lm policy dl skew (url # urls) report w = (Inl e, w1)"
proof -
  have "check_manifest (out_crypto E) (out_now E w1) m skew = Inr (True, ''ok'')"
    using fetch_manifest_ok [OF assms(1)] by simp
  moreover have "check_auth_methods [] m as w1 = (Inr None, w1)" for as
    by (induction as) auto
  moreover have "check_endpoint (mf_endpoint m) policy = Inl e"
    using assms(2) by (simp add: check_endpoint_def)
  ultimately have "admit_manifest (out_crypto E) (out_now E w1) m policy skew w1 = (Inl e, w1)"
    using assms(3-7) by (simp add: admit_manifest_def)
  with assms(1) show ?thesis
    by (simp add: bootstrap_seed_def)
qed

lemma malformed_endpoint_aborts_bootstrap_witness:
  "\<exists>e. bootstrap_seeds (toy_out (toy_signed (toy_manifest ''b'' ''https://['')) []) toy_client ''u'' toy_peer
     toy_policy ''federation'' 300 [''https://h/m'', ''https://h/n'']
     \<lparr>br_accepted = [], br_rejected = [], br_failed = []\<rparr> () = (Inl e, ())"
proof -
  have "urlparse ''https://['' = Inl (ValueError ''Invalid IPv6 URL'')"
    by code_simp
  then have "urlparse (mf_endpoint (toy_signed (toy_manifest ''b'' ''https://[''))) =
      Inl (ValueError ''Invalid IPv6 URL'')"
    by (simp add: toy_signed_def toy_manifest_def)
  then show ?thesis
    by (intro exI malformed_endpoint_aborts_bootstrap [OF toy_fetch])
      (simp_all add: toy_policy_def, simp_all add: toy_signed_def toy_manifest_def)
qed

section \<open>What can leave a run\<close>

text \<open>
  Where the admission of a verified manifest can raise: at the endpoint, after the verifiers of its
  auth methods have approved, or in one of the host's verifiers after those before it have.
\<close>

definition auth_verifiers :: "'w admission_policy \<Rightarrow> manifest \<Rightarrow> 'w verifier list" where
  "auth_verifiers policy m = List.map_filter (dict_get (ap_auth_method_verifiers policy)) (mf_auth_methods m)"

definition admission_raised :: "'w admission_policy \<Rightarrow> manifest \<Rightarrow> 'w \<Rightarrow> exc \<Rightarrow> 'w \<Rightarrow> bool" where
  "admission_raised policy m w e w' \<longleftrightarrow>
     all_approve m (auth_verifiers policy m) w w' \<and> urlparse (mf_endpoint m) = Inl e \<or>
     (\<exists>vs verify rest w1. consulted policy m = vs @ verify # rest \<and> all_approve m vs w w1 \<and>
        verify m w1 = (Inl e, w'))"

lemma check_auth_methods_raised:
  "check_auth_methods verifiers m methods w = (Inl e, w') \<Longrightarrow>
   \<exists>vs verify rest w1. List.map_filter (dict_get verifiers) methods = vs @ verify # rest \<and>
     all_approve m vs w w1 \<and> verify m w1 = (Inl e, w')"
proof (induction methods arbitrary: w)
  case (Cons a methods)
  show ?case
  proof (cases "dict_get verifiers a")
    case None
    with Cons show ?thesis by (simp add: map_filter_simps)
  next
    case (Some verify)
    obtain r w1 where r: "verify m w = (r, w1)" by fastforce
    show ?thesis
    proof (cases r)
      case (Inl e')
      then have "verify m w = (Inl e, w')"
        using Cons.prems Some r by simp
      then show ?thesis
        using Some by (intro exI [of _ "[]"]) (simp add: map_filter_simps)
    next
      case (Inr a')
      then have yes: "verify m w = (Inr (True, snd a'), w1)"
        and "check_auth_methods verifiers m methods w1 = (Inl e, w')"
        using Cons.prems Some r by (auto split: prod.splits if_splits)
      from Cons.IH [OF this(2)] obtain vs v rest w2 where
        "List.map_filter (dict_get verifiers) methods = vs @ v # rest" "all_approve m vs w1 w2"
        "v m w2 = (Inl e, w')"
        by blast
      then show ?thesis
        using Some yes by (intro exI [of _ "verify # vs"]) (fastforce simp: map_filter_simps)
    qed
  qed
qed (simp add: map_filter_simps)

lemma consulted_auth:
  "consulted policy m = auth_verifiers policy m @
     (case ap_evidence_verifier policy of None \<Rightarrow> [] | Some verify \<Rightarrow> [verify])"
  by (simp add: consulted_def auth_verifiers_def)

lemma check_endpoint_raised: "check_endpoint endpoint policy = Inl e \<Longrightarrow> urlparse endpoint = Inl e"
  by (cases "urlparse endpoint") (auto simp: check_endpoint_def Let_def split: option.splits if_splits)

text \<open>A manifest just fetched passes its check again.\<close>

lemma admit_fetched_raised:
  assumes "fetch_manifest E c url skew w = (Inr m, w1)"
    and "admit_manifest (out_crypto E) (out_now E w1) m policy skew w1 = (Inl e, w')"
  shows "admission_raised policy m w1 e w'"
proof -
  have "check_manifest (out_crypto E) (out_now E w1) m skew = Inr (True, ''ok'')"
    using fetch_manifest_ok [OF assms(1)] by simp
  with assms(2) have "check_auth_methods (ap_auth_method_verifiers policy) m (mf_auth_methods m) w1 = (Inl e, w') \<or>
      (\<exists>w2. check_auth_methods (ap_auth_method_verifiers policy) m (mf_auth_methods m) w1 = (Inr None, w2) \<and>
        (check_endpoint (mf_endpoint m) policy = Inl e \<and> w' = w2 \<or>
         (\<exists>verify. ap_evidence_verifier policy = Some verify \<and> verify m w2 = (Inl e, w'))))"
    by (auto simp: admit_manifest_def split: if_splits sum.splits option.splits prod.splits)
  then consider
      (auth) "check_auth_methods (ap_auth_method_verifiers policy) m (mf_auth_methods m) w1 = (Inl e, w')"
    | (endpoint) "all_approve m (auth_verifiers policy m) w1 w'" "check_endpoint (mf_endpoint m) policy = Inl e"
    | (evidence) w2 verify where "all_approve m (auth_verifiers policy m) w1 w2"
        "ap_evidence_verifier policy = Some verify" "verify m w2 = (Inl e, w')"
    by (auto simp: check_auth_methods_approve auth_verifiers_def)
  then show ?thesis
  proof cases
    case auth
    from check_auth_methods_raised [OF this] show ?thesis
      by (fastforce simp: admission_raised_def consulted_auth auth_verifiers_def)
  next
    case endpoint
    then show ?thesis by (simp add: admission_raised_def check_endpoint_raised)
  next
    case evidence
    then show ?thesis by (fastforce simp: admission_raised_def consulted_auth)
  qed
qed

text \<open>
  An exception that ends a bootstrap: the seeds before one went through, that one's manifest was
  fetched, and its admission raised.
\<close>

definition bootstrap_stopped ::
    "'w outside \<Rightarrow> federation_client \<Rightarrow> string list \<Rightarrow> string \<Rightarrow> manifest \<Rightarrow> 'w admission_policy \<Rightarrow>
      string \<Rightarrow> int \<Rightarrow> 'w \<Rightarrow> exc \<Rightarrow> 'w \<Rightarrow> bool" where
  "bootstrap_stopped E c seeds lu lm policy dl skew w e w' \<longleftrightarrow>
     (\<exists>pre url post report w1 m w2. seeds = pre @ url # post \<and>
        bootstrap_from_seeds E c pre lu lm policy dl skew w = (Inr report, w1) \<and>
        fetch_manifest E c url skew w1 = (Inr m, w2) \<and> admission_raised policy m w2 e w')"

lemma bootstrap_seeds_append:
  "bootstrap_seeds E c lu lm policy dl skew (us @ vs) rep w =
     (case bootstrap_seeds E c lu lm policy dl skew us rep w of
        (Inl e, w') \<Rightarrow> (Inl e, w')
      | (Inr rep', w') \<Rightarrow> bootstrap_seeds E c lu lm policy dl skew vs rep' w')"
  by (induction us arbitrary: rep w) (auto split: prod.splits sum.splits)

lemma bootstrap_seed_raised:
  "bootstrap_seed E c lu lm policy dl skew url w = (Inl e, w') \<Longrightarrow>
   \<exists>m w1. fetch_manifest E c url skew w = (Inr m, w1) \<and> admission_raised policy m w1 e w'"
  by (auto simp: bootstrap_seed_def split: prod.splits sum.splits if_splits dest: admit_fetched_raised)

lemma bootstrap_raised:
  "bootstrap_from_seeds E c seeds lu lm policy dl skew w = (Inl e, w') \<Longrightarrow>
   bootstrap_stopped E c seeds lu lm policy dl skew w e w'"
proof (induction seeds rule: rev_induct)
  case (snoc url seeds)
  obtain r w1 where r: "bootstrap_from_seeds E c seeds lu lm policy dl skew w = (r, w1)" by fastforce
  show ?case
  proof (cases r)
    case (Inl e')
    with r snoc.prems have "bootstrap_from_seeds E c seeds lu lm policy dl skew w = (Inl e, w')"
      by (simp add: bootstrap_from_seeds_def bootstrap_seeds_append)
    from snoc.IH [OF this] show ?thesis
      unfolding bootstrap_stopped_def by (metis append_Cons append_assoc)
  next
    case (Inr rep)
    with r snoc.prems have "bootstrap_seed E c lu lm policy dl skew url w1 = (Inl e, w')"
      by (auto simp: bootstrap_from_seeds_def bootstrap_seeds_append split: prod.splits sum.splits)
    from bootstrap_seed_raised [OF this] show ?thesis
      unfolding bootstrap_stopped_def using r Inr by blast
  qed
qed (simp add: bootstrap_from_seeds_def)

text \<open>
  An exception that ends the handling of one reference, from the store \<open>t\<close> on: looking the node
  up, or after that admitting the manifest fetched, or writing the record.
\<close>

definition reference_stopped ::
    "'t membership_store \<Rightarrow> 'w outside \<Rightarrow> federation_client \<Rightarrow> 'w admission_policy \<Rightarrow> int \<Rightarrow> member_ref \<Rightarrow>
      't \<Rightarrow> 'w \<Rightarrow> exc \<Rightarrow> 't \<Rightarrow> 'w \<Rightarrow> bool" where
  "reference_stopped T E c policy skew ref t w e t' w' \<longleftrightarrow>
     tb_get T (rf_node_id ref) t = (Inl e, t') \<and> w' = w \<or>
     (\<exists>t1 m w1. tb_get T (rf_node_id ref) t = (Inr None, t1) \<and>
        fetch_manifest E c (rf_manifest_url ref) skew w = (Inr m, w1) \<and>
        (admission_raised policy m w1 e w' \<and> t' = t1 \<or>
         (\<exists>d. admit_manifest (out_crypto E) (out_now E w1) m policy skew w1 = (Inr d, w') \<and> ad_accepted d \<and>
            tb_upsert T (discovered_record m (rf_manifest_url ref) (out_now E w')) t1 = (Inl e, t'))))"

lemma process_members_append:
  "process_members T E c policy skew cap source i (xs @ ys) s w =
     (case process_members T E c policy skew cap source i xs s w of
        (Inl e, s', w') \<Rightarrow> (Inl e, s', w')
      | (Inr _, s', w') \<Rightarrow> process_members T E c policy skew cap source (i + int (length xs)) ys s' w')"
proof (induction xs arbitrary: i s w)
  case (Cons ref xs)
  obtain g t where g: "tb_get T (rf_node_id ref) (ds_table s) = (g, t)" by fastforce
  obtain q s1 w1 where q: "process_ref T E c policy skew source ref
      (s\<lparr>ds_table := t, ds_seen_ids := rf_node_id ref # ds_seen_ids s,
        ds_seen_urls := rf_manifest_url ref # ds_seen_urls s\<rparr>) w = (q, s1, w1)"
    by (metis prod_cases3)
  have i: "i + 1 + int (length xs) = i + int (length (ref # xs))" by simp
  note ih = Cons.IH [of "i + 1", unfolded i]
  show ?case
  proof (cases "cap \<le> i \<or> rf_node_id ref = fc_node_id c")
    case True
    then show ?thesis by (cases "cap \<le> i") (simp_all add: ih)
  next
    case False
    consider e where "g = Inl e" | x where "g = Inr (Some x)"
      | "g = Inr None" "rf_node_id ref \<in> set (ds_seen_ids s) \<or> rf_manifest_url ref \<in> set (ds_seen_urls s)"
      | "g = Inr None" "rf_node_id ref \<notin> set (ds_seen_ids s)" "rf_manifest_url ref \<notin> set (ds_seen_urls s)"
      by (metis option.exhaust sum.exhaust)
    then show ?thesis
    proof cases
      case 4
      with False g q show ?thesis by (cases q) (simp_all add: ih)
    qed (use False g in \<open>simp_all add: ih\<close>)
  qed
qed simp

lemma process_one_raised:
  assumes "process_members T E c policy skew cap source i [ref] s w = (Inl e, s', w')"
  shows "reference_stopped T E c policy skew ref (ds_table s) w e (ds_table s') w'"
  using assms
proof (cases rule: process_members_cases)
  case (stopped e' t)
  then show ?thesis
    by (auto simp: reference_stopped_def process_ref_def dest: admit_fetched_raised
        split: prod.splits sum.splits if_splits)
qed (auto simp: reference_stopped_def)

lemma process_members_raised:
  "process_members T E c policy skew cap source i refs s w = (Inl e, s', w') \<Longrightarrow>
   \<exists>pre ref post s1 w1. refs = pre @ ref # post \<and>
     process_members T E c policy skew cap source i pre s w = (Inr (), s1, w1) \<and>
     reference_stopped T E c policy skew ref (ds_table s1) w1 e (ds_table s') w'"
proof (induction refs rule: rev_induct)
  case (snoc ref refs)
  obtain q s1 w1 where q: "process_members T E c policy skew cap source i refs s w = (q, s1, w1)"
    by (metis prod_cases3)
  show ?case
  proof (cases q)
    case (Inl e')
    with q snoc.prems have "process_members T E c policy skew cap source i refs s w = (Inl e, s', w')"
      by (simp add: process_members_append)
    from snoc.IH [OF this] show ?thesis
      by (metis append_Cons append_assoc)
  next
    case (Inr u)
    with q snoc.prems
    have "process_members T E c policy skew cap source (i + int (length refs)) [ref] s1 w1 = (Inl e, s', w')"
      by (simp add: process_members_append)
    from process_one_raised [OF this] show ?thesis
      using q Inr by fastforce
  qed
qed simp

text \<open>
  An exception that ends a discovery: the store raised when it was asked for the eligible peers; or
  the peers before one, and the references of that peer before one, went through, and the handling
  of that reference raised.
\<close>

definition discovery_stopped ::
    "'t membership_store \<Rightarrow> 'w outside \<Rightarrow> federation_client \<Rightarrow> 't \<Rightarrow> (string, manifest) dict \<Rightarrow>
      'w admission_policy \<Rightarrow> int \<Rightarrow> int \<Rightarrow> string option \<Rightarrow> 'w \<Rightarrow> exc \<Rightarrow> 't \<Rightarrow> 'w \<Rightarrow> bool" where
  "discovery_stopped T E c t peers policy skew cap since w e t' w' \<longleftrightarrow>
     eligible_peers T (out_now E w) t = (Inl e, t') \<and> w' = w \<or>
     (\<exists>t0 rs1 r rs2 s1 w1 peer members w2 refs1 ref refs2 s2 w3.
        eligible_peers T (out_now E w) t = (Inr (rs1 @ r # rs2), t0) \<and>
        visit_peers T E c peers policy skew cap since rs1
          \<lparr>ds_table = t0, ds_report = empty_report, ds_seen_ids = [], ds_seen_urls = []\<rparr> w = (Inr (), s1, w1) \<and>
        dict_get peers (rec_node_id r) = Some peer \<and> get_members E c peer since w1 = (Inr members, w2) \<and>
        mr_members members = refs1 @ ref # refs2 \<and>
        process_members T E c policy skew cap (mf_node_id peer) 0 refs1 s1 w2 = (Inr (), s2, w3) \<and>
        reference_stopped T E c policy skew ref (ds_table s2) w3 e t' w')"

lemma visit_peers_append:
  "visit_peers T E c peers policy skew cap since (xs @ ys) s w =
     (case visit_peers T E c peers policy skew cap since xs s w of
        (Inl e, s', w') \<Rightarrow> (Inl e, s', w')
      | (Inr _, s', w') \<Rightarrow> visit_peers T E c peers policy skew cap since ys s' w')"
  by (induction xs arbitrary: s w) (auto split: prod.splits sum.splits option.splits)

lemma visit_peers_raised:
  "visit_peers T E c peers policy skew cap since rs s w = (Inl e, s', w') \<Longrightarrow>
   \<exists>rs1 r rs2 s1 w1 peer members w2. rs = rs1 @ r # rs2 \<and>
     visit_peers T E c peers policy skew cap since rs1 s w = (Inr (), s1, w1) \<and>
     dict_get peers (rec_node_id r) = Some peer \<and> get_members E c peer since w1 = (Inr members, w2) \<and>
     process_members T E c policy skew cap (mf_node_id peer) 0 (mr_members members) s1 w2 = (Inl e, s', w')"
proof (induction rs rule: rev_induct)
  case (snoc r rs)
  obtain q s1 w1 where q: "visit_peers T E c peers policy skew cap since rs s w = (q, s1, w1)"
    by (metis prod_cases3)
  show ?case
  proof (cases q)
    case (Inl e')
    with q snoc.prems have "visit_peers T E c peers policy skew cap since rs s w = (Inl e, s', w')"
      by (simp add: visit_peers_append)
    from snoc.IH [OF this] show ?thesis
      by (metis append_Cons append_assoc)
  next
    case (Inr u)
    with q snoc.prems have "visit_peers T E c peers policy skew cap since [r] s1 w1 = (Inl e, s', w')"
      by (simp add: visit_peers_append)
    then obtain peer members w2 where "dict_get peers (rec_node_id r) = Some peer"
      "get_members E c peer since w1 = (Inr members, w2)"
      "process_members T E c policy skew cap (mf_node_id peer) 0 (mr_members members) s1 w2 = (Inl e, s', w')"
      by (auto split: prod.splits sum.splits option.splits)
    then show ?thesis
      using q Inr by (intro exI [of _ rs]) fastforce
  qed
qed simp

lemma discovery_raised:
  assumes "refresh_discovered_members T E c t peers policy skew cap since w = (Inl e, t', w')"
  shows "discovery_stopped T E c t peers policy skew cap since w e t' w'"
proof -
  obtain p t0 where p: "eligible_peers T (out_now E w) t = (p, t0)" by fastforce
  show ?thesis
  proof (cases p)
    case (Inl e')
    with p assms show ?thesis
      by (simp add: refresh_discovered_members_def discovery_stopped_def)
  next
    case (Inr rs)
    with p assms obtain s where s: "visit_peers T E c peers policy skew cap since rs
        \<lparr>ds_table = t0, ds_report = empty_report, ds_seen_ids = [], ds_seen_urls = []\<rparr> w = (Inl e, s, w')"
      and t': "t' = ds_table s"
      by (auto simp: refresh_discovered_members_def split: prod.splits sum.splits)
    from visit_peers_raised [OF s] obtain rs1 r rs2 s1 w1 peer members w2 where
      v: "rs = rs1 @ r # rs2" "visit_peers T E c peers policy skew cap since rs1
        \<lparr>ds_table = t0, ds_report = empty_report, ds_seen_ids = [], ds_seen_urls = []\<rparr> w = (Inr (), s1, w1)"
      "dict_get peers (rec_node_id r) = Some peer" "get_members E c peer since w1 = (Inr members, w2)"
      and m: "process_members T E c policy skew cap (mf_node_id peer) 0 (mr_members members) s1 w2 = (Inl e, s, w')"
      by blast
    from process_members_raised [OF m] obtain refs1 ref refs2 s2 w3 where
      "mr_members members = refs1 @ ref # refs2"
      "process_members T E c policy skew cap (mf_node_id peer) 0 refs1 s1 w2 = (Inr (), s2, w3)"
      "reference_stopped T E c policy skew ref (ds_table s2) w3 e t' w'"
      unfolding t' by blast
    with v p Inr show ?thesis
      unfolding discovery_stopped_def by blast
  qed
qed

text \<open>
  C34: Bootstrap and discovery end with a report whatever the network, the seeds and the peers
  answer: errors, garbage, other nodes' manifests, long lists are all outcomes. The only
  exceptions that leave them come out of the admission of a manifest that this run has fetched
  and verified, because its endpoint does not parse as a URL or because a host verifier raised
  after the ones before it had approved; or, in a discovery, out of the membership store: listing
  the peers, looking a reference up or writing an admitted peer. In each case everything before
  in the run's order, the earlier seeds or peers and references, had been worked off.
\<close>

theorem orchestration_returns:
  "((\<exists>report w'. bootstrap_from_seeds E c seeds lu lm policy dl skew w = (Inr report, w')) \<or>
    (\<exists>e w'. bootstrap_from_seeds E c seeds lu lm policy dl skew w = (Inl e, w') \<and>
       bootstrap_stopped E c seeds lu lm policy dl skew w e w')) \<and>
   ((\<exists>report t' w'. refresh_discovered_members T E c t peers policy skew cap since w =
       (Inr report, t', w')) \<or>
    (\<exists>e t' w'. refresh_discovered_members T E c t peers policy skew cap since w = (Inl e, t', w') \<and>
       discovery_stopped T E c t peers policy skew cap since w e t' w'))"
proof
  obtain r w' where "bootstrap_from_seeds E c seeds lu lm policy dl skew w = (r, w')" by fastforce
  then show "(\<exists>report w'. bootstrap_from_seeds E c seeds lu lm policy dl skew w = (Inr report, w')) \<or>
      (\<exists>e w'. bootstrap_from_seeds E c seeds lu lm policy dl skew w = (Inl e, w') \<and>
         bootstrap_stopped E c seeds lu lm policy dl skew w e w')"
    by (cases r) (auto dest: bootstrap_raised)
  obtain q t' w1 where "refresh_discovered_members T E c t peers policy skew cap since w = (q, t', w1)"
    by (metis prod_cases3)
  then show "(\<exists>report t' w'. refresh_discovered_members T E c t peers policy skew cap since w =
         (Inr report, t', w')) \<or>
      (\<exists>e t' w'. refresh_discovered_members T E c t peers policy skew cap since w = (Inl e, t', w') \<and>
         discovery_stopped T E c t peers policy skew cap since w e t' w')"
    by (cases q) (auto dest: discovery_raised)
qed

lemma fetch_manifest_validated:
  "fetch_manifest E c url skew w = (Inr m, w') \<Longrightarrow> \<exists>j. val_manifest E j = Inr m"
  by (auto simp: fetch_manifest_def io_simps checked_manifest_Inr result_simps)

lemma orchestration_returns_witness:
  "\<exists>report w'. bootstrap_from_seeds (toy_out toy_peer []) toy_client [''https://h/m''] ''u'' toy_peer
     toy_policy ''federation'' 300 () = (Inr report, w')"
proof -
  have only: "m = toy_peer" if run: "fetch_manifest (toy_out toy_peer []) toy_client url 300 w1 = (Inr m, w2)" for url m w1 w2
  proof -
    obtain j where "val_manifest (toy_out toy_peer []) j = Inr m"
      using fetch_manifest_validated [OF run] by blast
    then show ?thesis by (simp add: toy_out_simps)
  qed
  have "mf_endpoint toy_peer = ''https://h''"
    by (simp add: toy_signed_def toy_manifest_def)
  then have "\<exists>u. urlparse (mf_endpoint toy_peer) = Inr u"
    using toy_endpoint by (auto simp: check_endpoint_passes)
  then have "\<not> admission_raised toy_policy toy_peer w e w'" for w e w'
    by (auto simp: admission_raised_def consulted_def toy_policy_def map_filter_def)
  then have "\<not> bootstrap_stopped (toy_out toy_peer []) toy_client seeds lu lm toy_policy dl 300 w e w'"
    for seeds lu lm dl w e w'
    by (auto simp: bootstrap_stopped_def dest: only)
  note none = this
  from orchestration_returns [where E = "toy_out toy_peer []" and c = toy_client
      and seeds = "[''https://h/m'']" and lu = "''u''" and lm = toy_peer and policy = toy_policy
      and dl = "''federation''" and skew = 300 and w = "()", THEN conjunct1]
  show ?thesis
    by (elim disjE exE conjE) (simp_all add: none)
qed

end
