(* ===== verification/Fanout.thy ===== *)
theory Fanout
  imports Toy_Outside
begin

text \<open>
  Operation fan-out (\<^verbatim>\<open>fanout.py\<close>) and the health probe (\<^verbatim>\<open>health.py\<close>). The calls of a
  fan-out run through \<open>gather\<close>; \<^verbatim>\<open>asyncio.wait_for\<close> is a parameter that wraps a call and
  may end it with an exception of its own.
\<close>

section \<open>Fan-out\<close>

record operation_outcome =
  oo_node_id :: string
  oo_operations_url :: string
  oo_reason :: string
  oo_response :: "operation_response option"
  oo_source_node_id :: "string option"
  oo_manifest_url :: "string option"

record fan_out_report =
  fo_succeeded :: "operation_outcome list"
  fo_failed :: "operation_outcome list"

definition fanout_failure_reason :: "exc \<Rightarrow> string" where
  "fanout_failure_reason e =
     (case e of
        ResponseSignatureError _ \<Rightarrow> ''bad_signature''
      | ValidationError _ \<Rightarrow> ''malformed_response''
      | JSONDecodeError _ \<Rightarrow> ''malformed_response''
      | _ \<Rightarrow> reason_or_class e)"

definition operation_outcome_of ::
    "manifest \<Rightarrow> string \<Rightarrow> string \<Rightarrow> operation_response option \<Rightarrow> operation_outcome" where
  "operation_outcome_of peer url reason resp =
     \<lparr>oo_node_id = mf_node_id peer, oo_operations_url = url, oo_reason = reason,
      oo_response = resp, oo_source_node_id = Some (mf_node_id peer),
      oo_manifest_url = mf_manifest_url peer\<rparr>"

type_synonym 'w wait_for =
  "real \<Rightarrow> ('w, operation_response) io \<Rightarrow> ('w, operation_response) io"

definition call_one ::
    "'w outside \<Rightarrow> 'w wait_for \<Rightarrow> federation_client \<Rightarrow> operation_request \<Rightarrow> manifest \<Rightarrow> string \<Rightarrow>
      real option \<Rightarrow> ('w, operation_outcome) io" where
  "call_one E wait_for c request peer url timeout w =
     (let coro = send_operation E c peer request url in
      case (case timeout of None \<Rightarrow> coro | Some t \<Rightarrow> if t = 0 then coro else wait_for t coro) w of
        (Inl e, w') \<Rightarrow> (Inr (operation_outcome_of peer url (fanout_failure_reason e) None), w')
      | (Inr resp, w') \<Rightarrow> (Inr (operation_outcome_of peer url ''ok'' (Some resp)), w'))"

definition fan_out_operation ::
    "'w outside \<Rightarrow> 'w wait_for \<Rightarrow> federation_client \<Rightarrow> operation_request \<Rightarrow> (manifest \<times> string) list \<Rightarrow>
      real option \<Rightarrow> ('w, fan_out_report) io" where
  "fan_out_operation E wait_for c request targets timeout =
     io_bind (gather (map (\<lambda>(peer, url). call_one E wait_for c request peer url timeout) targets))
       (\<lambda>outcomes. io_lift (Inr
         \<lparr>fo_succeeded = filter (\<lambda>o1. oo_reason o1 = ''ok'') outcomes,
          fo_failed = filter (\<lambda>o1. oo_reason o1 \<noteq> ''ok'') outcomes\<rparr>))"

lemma call_one_returns: "\<exists>o1 w'. call_one E wait c request peer url timeout w = (Inr o1, w')"
  by (auto simp: call_one_def Let_def split: prod.splits sum.splits)

lemma call_one_outcome:
  "call_one E wait c request peer url timeout w = (Inr o1, w') \<Longrightarrow>
     oo_node_id o1 = mf_node_id peer \<and> oo_operations_url o1 = url"
  by (auto simp: call_one_def Let_def operation_outcome_of_def split: prod.splits sum.splits)

text \<open>What is asked of \<^verbatim>\<open>wait_for\<close>: a result it returns is the call's own.\<close>

definition honest_wait :: "'w wait_for \<Rightarrow> bool" where
  "honest_wait wait \<longleftrightarrow>
     (\<forall>t m w x w'. wait t m w = (Inr x, w') \<longrightarrow> (\<exists>w1 w2. m w1 = (Inr x, w2)))"

lemma call_one_ok:
  assumes "honest_wait wait" "call_one E wait c request peer url timeout w = (Inr o1, w')"
    and "oo_response o1 = Some resp"
  shows "response_signed_by (out_crypto E) peer dump_operation_response or_signature resp"
proof -
  let ?run = "(case timeout of None \<Rightarrow> send_operation E c peer request url
    | Some t \<Rightarrow> if t = 0 then send_operation E c peer request url
        else wait t (send_operation E c peer request url)) w"
  have "?run = (Inr resp, w')"
    using assms(2,3) by (auto simp: call_one_def Let_def operation_outcome_of_def
        split: prod.splits sum.splits)
  then have "\<exists>w1 w2. send_operation E c peer request url w1 = (Inr resp, w2)"
    using assms(1) unfolding honest_wait_def by (cases timeout) (simp_all split: if_splits, blast+)
  then show ?thesis
    by (elim exE) (rule send_operation_ok)
qed

lemma gather_all_return:
  "(\<And>m w. m \<in> set ms \<Longrightarrow> \<exists>x w'. m w = (Inr x, w')) \<Longrightarrow> \<exists>xs w'. gather ms w = (Inr xs, w')"
proof (induction ms arbitrary: w)
  case (Cons m ms)
  obtain x w1 where "m w = (Inr x, w1)" using Cons.prems [of m] by fastforce
  moreover obtain xs w2 where "gather ms w1 = (Inr xs, w2)" using Cons by fastforce
  ultimately show ?case by simp
qed simp

section \<open>Health\<close>

record health_probe =
  hp_healthy :: bool
  hp_reason :: string
  hp_suggested_state :: peer_state
  hp_protocol :: "protocol_response option"
  hp_health :: "health_response option"
  hp_error :: "string option"

definition HEALTHY_STATUSES :: "string list" where
  "HEALTHY_STATUSES = [''ok'', ''healthy'', ''pass'']"

definition error_text :: "exc \<Rightarrow> string" where
  "error_text e = (if exc_str e = [] then exc_class_name e else exc_str e)"

definition probe_peer_health :: "'w outside \<Rightarrow> federation_client \<Rightarrow> manifest \<Rightarrow> ('w, health_probe) io" where
  "probe_peer_health E c peer w =
     (case get_protocol E c peer w of
        (Inl e, w1) \<Rightarrow> (Inr \<lparr>hp_healthy = False, hp_reason = ''protocol_probe_failed'',
          hp_suggested_state = COOLDOWN, hp_protocol = None, hp_health = None,
          hp_error = Some (error_text e)\<rparr>, w1)
      | (Inr protocol, w1) \<Rightarrow>
        (case get_health E c peer w1 of
          (Inl e, w2) \<Rightarrow> (Inr \<lparr>hp_healthy = False, hp_reason = ''health_probe_failed'',
            hp_suggested_state = COOLDOWN, hp_protocol = Some protocol, hp_health = None,
            hp_error = Some (error_text e)\<rparr>, w2)
        | (Inr health, w2) \<Rightarrow>
            if str_lower (hr_status health) \<notin> set HEALTHY_STATUSES
            then (Inr \<lparr>hp_healthy = False, hp_reason = ''unhealthy'', hp_suggested_state = COOLDOWN,
              hp_protocol = Some protocol, hp_health = Some health, hp_error = None\<rparr>, w2)
            else (Inr \<lparr>hp_healthy = True, hp_reason = ''ok'', hp_suggested_state = ACTIVE,
              hp_protocol = Some protocol, hp_health = Some health, hp_error = None\<rparr>, w2)))"

section \<open>Properties\<close>

text \<open>
  A fan-out never raises for a peer: it returns, every target lands in exactly one of
  \<open>succeeded\<close> and \<open>failed\<close> (targets counted with multiplicity), and each outcome names its
  target.
\<close>

theorem fan_out_partitions_targets:
  "\<exists>report w'. fan_out_operation E wait c request targets timeout w = (Inr report, w') \<and>
     mset (map (\<lambda>o1. (oo_node_id o1, oo_operations_url o1)) (fo_succeeded report @ fo_failed report)) =
     mset (map (\<lambda>(peer, url). (mf_node_id peer, url)) targets)"
proof -
  let ?calls = "map (\<lambda>(peer, url). call_one E wait c request peer url timeout) targets"
  let ?name = "\<lambda>o1. (oo_node_id o1, oo_operations_url o1)"
  obtain os w' where os: "gather ?calls w = (Inr os, w')"
    using gather_all_return [of ?calls w] call_one_returns by fastforce
  have "map ?name os = map (\<lambda>(peer, url). (mf_node_id peer, url)) targets"
  proof (rule nth_equalityI)
    show "length (map ?name os) = length (map (\<lambda>(peer, url). (mf_node_id peer, url)) targets)"
      using gather_length [OF os] by simp
    fix i assume "i < length (map ?name os)"
    then have i: "i < length targets" "i < length os" "i < length ?calls"
      using gather_length [OF os] by simp_all
    obtain w1 w2 where "(?calls ! i) w1 = (Inr (os ! i), w2)"
      using gather_each [OF os i(3)] by blast
    then show "map ?name os ! i = map (\<lambda>(peer, url). (mf_node_id peer, url)) targets ! i"
      using i by (auto simp: split_beta dest: call_one_outcome)
  qed
  then have "mset (map ?name os) = mset (map (\<lambda>(peer, url). (mf_node_id peer, url)) targets)"
    by simp
  moreover have "mset (map ?name (filter (\<lambda>o1. oo_reason o1 = ''ok'') os @
      filter (\<lambda>o1. oo_reason o1 \<noteq> ''ok'') os)) = mset (map ?name os)"
    by (induction os) auto
  ultimately show ?thesis
    using os by (auto simp: fan_out_operation_def io_bind_def io_lift_def)
qed

text \<open>
  C35: A response reported by a fan-out is signed by the peer it was sent to; a failed peer
  contributes no response.
\<close>

theorem fan_out_responses_signed:
  assumes "honest_wait wait"
    and "fan_out_operation E wait c request targets timeout w = (Inr report, w')"
    and "o1 \<in> set (fo_succeeded report @ fo_failed report)" "oo_response o1 = Some resp"
  shows "\<exists>peer. (peer, oo_operations_url o1) \<in> set targets \<and> oo_node_id o1 = mf_node_id peer \<and>
    response_signed_by (out_crypto E) peer dump_operation_response or_signature resp"
proof -
  let ?calls = "map (\<lambda>(peer, url). call_one E wait c request peer url timeout) targets"
  obtain os where os: "gather ?calls w = (Inr os, w')" and "o1 \<in> set os"
    using assms(2,3) by (auto simp: fan_out_operation_def io_simps)
  then obtain i where i: "i < length os" "o1 = os ! i"
    by (auto simp: in_set_conv_nth)
  then have len: "i < length targets" "i < length ?calls"
    using gather_length [OF os] by simp_all
  obtain peer url where t: "targets ! i = (peer, url)" by fastforce
  obtain w1 w2 where "(?calls ! i) w1 = (Inr (os ! i), w2)"
    using gather_each [OF os len(2)] by blast
  then have call: "call_one E wait c request peer url timeout w1 = (Inr o1, w2)"
    using i t len by simp
  have "(peer, url) \<in> set targets"
    using t len nth_mem by metis
  then show ?thesis
    using call_one_ok [OF assms(1) call assms(4)] call_one_outcome [OF call] by auto
qed

text \<open>
  A health probe never raises: it returns, says healthy exactly when both probes answered
  and the status is, whatever its case, one of the healthy ones, and suggests \<open>ACTIVE\<close> for a
  healthy peer and \<open>COOLDOWN\<close> otherwise.
\<close>

theorem health_probe_classifies:
  "\<exists>p w'. probe_peer_health E c peer w = (Inr p, w') \<and>
     (hp_healthy p \<longleftrightarrow> (\<exists>pr w1 h. get_protocol E c peer w = (Inr pr, w1) \<and>
        get_health E c peer w1 = (Inr h, w') \<and> str_lower (hr_status h) \<in> {''ok'', ''healthy'', ''pass''})) \<and>
     hp_suggested_state p = (if hp_healthy p then ACTIVE else COOLDOWN) \<and>
     (hp_reason p = ''ok'' \<longleftrightarrow> hp_healthy p)"
proof -
  have "\<exists>p w'. probe_peer_health E c peer w = (Inr p, w')"
    by (auto simp: probe_peer_health_def split: prod.splits sum.splits)
  then obtain p w' where run: "probe_peer_health E c peer w = (Inr p, w')"
    by blast
  show ?thesis
    by (rule exI [of _ p], rule exI [of _ w'])
      (use run in \<open>auto simp: probe_peer_health_def HEALTHY_STATUSES_def split: prod.splits sum.splits if_splits\<close>)
qed

lemma fan_out_responses_signed_witness:
  "\<exists>report. fan_out_operation (toy_out toy_peer []) (\<lambda>t m. m) toy_client
      \<lparr>oq_operation_id = ''op'', oq_operation = ''search'', oq_payload = [], oq_metadata = []\<rparr>
      [(toy_peer, ''https://h/op'')] None () = (Inr report, ()) \<and>
    (\<exists>o1 \<in> set (fo_succeeded report). oo_response o1 = Some signed_operation) \<and>
    response_signed_by toy_crypto toy_peer dump_operation_response or_signature signed_operation"
proof -
  let ?o = "operation_outcome_of toy_peer ''https://h/op'' ''ok'' (Some signed_operation)"
  let ?q = "\<lparr>oq_operation_id = ''op'', oq_operation = ''search'', oq_payload = [], oq_metadata = []\<rparr>"
  have "case urlparse ''https://h/op'' of Inr u \<Rightarrow> True | Inl e \<Rightarrow> False"
    by code_simp
  then obtain u where u: "urlparse ''https://h/op'' = Inr u"
    by (auto split: sum.splits)
  have run: "fan_out_operation (toy_out toy_peer []) (\<lambda>t m. m) toy_client ?q
      [(toy_peer, ''https://h/op'')] None () =
    (Inr \<lparr>fo_succeeded = [?o], fo_failed = []\<rparr>, ())"
    by (simp add: fan_out_operation_def io_bind_def io_lift_def call_one_def toy_send_operation [OF u])
      (simp add: operation_outcome_of_def)
  have "honest_wait (\<lambda>t (m :: (unit, operation_response) io). m)"
    by (auto simp: honest_wait_def)
  from fan_out_responses_signed [OF this run, of ?o signed_operation] run show ?thesis
    by (auto simp: operation_outcome_of_def toy_out_simps)
qed

end
