(* ===== verification/Py_Float.thy ===== *)
theory Py_Float
  imports Fed_Prelude "HOL-Library.Log_Nat"
begin

text \<open>
  Python's \<^verbatim>\<open>float\<close>: IEEE doubles as the rational numbers they stand for. Every operation
  computes exactly and rounds once, to 53 significant bits, half to even (\<open>double\<close>). The range is
  left open. At its upper end this is what the rate limiter does anyway: it takes the minimum of a
  sum with a finite number, so an infinity has the effect of any large number. At its lower end
  sums and differences of doubles, and their products with integers, are multiples of the smallest
  double and are not rounded. What does raise is the conversion of an integer out of range.
\<close>

section \<open>Rounding\<close>

text \<open>The position of the leading bit.\<close>

definition float_exponent :: "rat \<Rightarrow> int" where
  "float_exponent x =
     (case quotient_of \<bar>x\<bar> of (p, q) \<Rightarrow>
        let e = bitlen p - bitlen q in if 2 powi e \<le> \<bar>x\<bar> then e else e - 1)"

definition round_half_even :: "rat \<Rightarrow> int" where
  "round_half_even y =
     (let n = \<lfloor>y\<rfloor>; r = y - of_int n in if r < 1 / 2 \<or> r = 1 / 2 \<and> even n then n else n + 1)"

definition double :: "rat \<Rightarrow> rat" where
  "double x =
     (if x = 0 then 0
      else let u = 2 powi (float_exponent x - 52) in of_int (round_half_even (x / u)) * u)"

definition float_of_int :: "int \<Rightarrow> rat result" where
  "float_of_int i =
     (if 2 ^ 1024 - 2 ^ 970 \<le> \<bar>i\<bar> then Inl (OverflowError ''int too large to convert to float'')
      else Inr (double (of_int i)))"

section \<open>The error of one rounding\<close>

lemma bitlen_powi: "0 < n \<Longrightarrow> 2 powi (bitlen n - 1) \<le> (of_int n :: rat) \<and> of_int n < (2 :: rat) powi bitlen n"
proof -
  assume n: "0 < n"
  have "2 ^ nat (bitlen n - 1) \<le> n" "n < 2 ^ nat (bitlen n)"
    using bitlen_bounds [OF n] by auto
  then have "(of_int (2 ^ nat (bitlen n - 1)) :: rat) \<le> of_int n" "(of_int n :: rat) < of_int (2 ^ nat (bitlen n))"
    by (simp_all only: of_int_le_iff of_int_less_iff)
  moreover have "0 < bitlen n"
    using n bitlen_nonneg [of n] bitlen_eq_zero_iff [of n] by linarith
  ultimately show ?thesis
    by (simp add: power_int_def)
qed

lemma float_exponent:
  assumes "x \<noteq> 0"
  shows "2 powi (float_exponent x) \<le> \<bar>x\<bar>" "\<bar>x\<bar> < 2 powi (float_exponent x + 1)"
proof -
  obtain p q where pq: "quotient_of \<bar>x\<bar> = (p, q)" by fastforce
  have q: "0 < q" and x: "\<bar>x\<bar> = of_int p / of_int q"
    using quotient_of_denom_pos [OF pq] quotient_of_div [OF pq] by auto
  have p: "0 < p"
    using assms x q by (metis divide_eq_0_iff divide_nonpos_pos linorder_not_less of_int_0_less_iff
        of_int_le_0_iff zero_less_abs_iff)
  let ?e = "bitlen p - bitlen q"
  have "\<bar>x\<bar> < 2 powi bitlen p / 2 powi (bitlen q - 1)"
    unfolding x using bitlen_powi [OF p] bitlen_powi [OF q] less_imp_le [OF p] by (intro frac_less) auto
  also have "\<dots> = 2 powi (?e + 1)"
    by (simp add: power_int_diff power_int_add)
  finally have up: "\<bar>x\<bar> < 2 powi (?e + 1)" .
  have "(2 :: rat) powi (?e - 1) = 2 powi (bitlen p - 1) / 2 powi bitlen q"
    by (simp add: power_int_diff)
  also have "\<dots> \<le> \<bar>x\<bar>"
    unfolding x using bitlen_powi [OF p] bitlen_powi [OF q] q less_imp_le [OF p] by (intro frac_le) auto
  finally have low: "2 powi (?e - 1) \<le> \<bar>x\<bar>" .
  show "2 powi (float_exponent x) \<le> \<bar>x\<bar>" "\<bar>x\<bar> < 2 powi (float_exponent x + 1)"
    using up low by (auto simp: float_exponent_def pq Let_def)
qed

lemma round_half_even_error: "\<bar>of_int (round_half_even y) - y\<bar> \<le> 1 / 2"
  using floor_correct [of y] by (auto simp: round_half_even_def Let_def)

lemma round_half_even_of_int [simp]: "round_half_even (of_int n) = n"
  by (simp add: round_half_even_def)

lemma round_half_even_ge: "of_int n \<le> y \<Longrightarrow> n \<le> round_half_even y"
  using floor_mono [of "of_int n" y] by (auto simp: round_half_even_def Let_def)

lemma double_error: "\<bar>double x - x\<bar> \<le> \<bar>x\<bar> / 2 ^ 53"
proof (cases "x = 0")
  case False
  define u :: rat where "u = 2 powi (float_exponent x - 52)"
  have u: "0 < u" by (simp add: u_def)
  have "double x - x = (of_int (round_half_even (x / u)) - x / u) * u"
    using False u by (simp add: double_def u_def [symmetric] algebra_simps)
  then have "\<bar>double x - x\<bar> = \<bar>of_int (round_half_even (x / u)) - x / u\<bar> * u"
    using u by (simp add: abs_mult)
  also have "\<dots> \<le> 1 / 2 * u"
    using round_half_even_error u by (intro mult_right_mono) auto
  also have "\<dots> = 2 powi (float_exponent x) / 2 ^ 53"
    by (simp add: u_def power_int_diff)
  also have "\<dots> \<le> \<bar>x\<bar> / 2 ^ 53"
    using float_exponent(1) [OF False] by (simp add: divide_right_mono)
  finally show ?thesis .
qed (simp add: double_def)

definition rounding :: rat where
  "rounding = 1 + 1 / 2 ^ 53"

lemma rounding_ge_1 [simp]: "1 \<le> rounding" "0 < rounding" "0 \<le> rounding"
  by (simp_all add: rounding_def)

lemma rounding_power [simp]: "1 \<le> rounding ^ n" "0 \<le> rounding ^ n" "0 < rounding ^ n"
  by simp_all

lemma le_rounding: "0 \<le> x \<Longrightarrow> x \<le> rounding ^ n * x"
  using mult_right_mono [of 1 "rounding ^ n" x] by simp

lemma double_le: "0 \<le> x \<Longrightarrow> double x \<le> rounding * x"
  using double_error [of x] unfolding abs_le_iff rounding_def by (simp add: algebra_simps)

lemma double_nonpos: "x \<le> 0 \<Longrightarrow> double x \<le> 0"
  using double_error [of x] unfolding abs_le_iff by (simp add: algebra_simps)

lemma double_nonneg: "0 \<le> x \<Longrightarrow> 0 \<le> double x"
  using double_error [of x] unfolding abs_le_iff by (simp add: algebra_simps)

lemma double_0 [simp]: "double 0 = 0"
  by (simp add: double_def)

section \<open>What is not rounded\<close>

text \<open>Fewer than 53 bits over a power of two.\<close>

definition on_grid :: "nat \<Rightarrow> rat \<Rightarrow> bool" where
  "on_grid g x \<longleftrightarrow> of_int \<lfloor>x * 2 ^ g\<rfloor> = x * 2 ^ g"

lemma on_grid_iff: "on_grid g x \<longleftrightarrow> (\<exists>k :: int. x * 2 ^ g = of_int k)"
  by (auto simp: on_grid_def intro: sym)

lemma on_grid_intros:
  "on_grid g (of_int i)" "on_grid g 0" "on_grid g 1"
  "on_grid g x \<Longrightarrow> on_grid g y \<Longrightarrow> on_grid g (x + y)"
  "on_grid g x \<Longrightarrow> on_grid g y \<Longrightarrow> on_grid g (x - y)"
  "on_grid g x \<Longrightarrow> on_grid g (x * of_int i)"
  "on_grid g x \<Longrightarrow> on_grid g y \<Longrightarrow> on_grid g (min x y)"
proof -
  show i: "on_grid g (of_int i)" for i
    by (auto simp: on_grid_iff intro: exI [of _ "i * 2 ^ g"])
  show "on_grid g 0" "on_grid g 1"
    using i [of 0] i [of 1] by simp_all
  show "on_grid g x \<Longrightarrow> on_grid g y \<Longrightarrow> on_grid g (x + y)"
    "on_grid g x \<Longrightarrow> on_grid g y \<Longrightarrow> on_grid g (x - y)"
    by (auto simp: on_grid_iff ring_distribs simp flip: of_int_add of_int_diff)
  show "on_grid g x \<Longrightarrow> on_grid g (x * of_int i)"
    by (metis mult.assoc mult.commute of_int_mult on_grid_iff)
  show "on_grid g x \<Longrightarrow> on_grid g y \<Longrightarrow> on_grid g (min x y)"
    by (simp add: min_def)
qed

lemma double_bits:
  assumes "x * 2 ^ g = of_int k" "float_exponent x + int g \<le> 52"
  shows "double x = x"
proof (cases "x = 0")
  case False
  let ?u = "2 powi (float_exponent x - 52) :: rat"
  have "52 - float_exponent x = int (nat (52 - float_exponent x - int g)) + int g"
    using assms(2) by simp
  then have "2 powi (52 - float_exponent x) = (2 :: rat) ^ nat (52 - float_exponent x - int g) * 2 ^ g"
    by (metis power_int_add power_int_of_nat zero_neq_numeral)
  moreover have "x / ?u = x * 2 powi (52 - float_exponent x)"
    by (simp add: power_int_diff)
  ultimately have "x / ?u = of_int (k * 2 ^ nat (52 - float_exponent x - int g))"
    using assms(1) by (simp add: ac_simps)
  then have "of_int (round_half_even (x / ?u)) * ?u = x / ?u * ?u"
    by (metis round_half_even_of_int)
  then show ?thesis
    using False by (simp add: double_def Let_def)
qed simp

lemma double_on_grid:
  assumes "on_grid g x" "\<bar>x\<bar> * 2 ^ g < 2 ^ 53"
  shows "double x = x"
proof (cases "x = 0")
  case False
  obtain k :: int where k: "x * 2 ^ g = of_int k"
    using assms(1) by (auto simp: on_grid_iff)
  have "2 powi (float_exponent x + int g) \<le> \<bar>x\<bar> * 2 ^ g"
    using float_exponent(1) [OF False] by (simp add: power_int_add)
  also have "\<dots> < 2 powi 53"
    using assms(2) by simp
  finally have "float_exponent x + int g < 53"
    by (metis linorder_not_less one_le_numeral power_int_increasing)
  then show ?thesis
    using double_bits [OF k] by simp
qed simp

lemma double_of_int:
  assumes "\<bar>i\<bar> < 2 ^ 53"
  shows "double (of_int i) = of_int i"
proof -
  have "\<bar>of_int i :: rat\<bar> < of_int (2 ^ 53)"
    using assms by (metis of_int_abs of_int_less_iff)
  then show ?thesis
    by (intro double_on_grid [of 0]) (simp_all add: on_grid_def)
qed

text \<open>A small integer is not rounded past.\<close>

lemma double_ge_int:
  assumes "of_int r \<le> x" "0 < r" "r < 2 ^ 53"
  shows "of_int r \<le> double x"
proof -
  let ?e = "float_exponent x"
  define u :: rat where "u = 2 powi (?e - 52)"
  have u: "0 < u" by (simp add: u_def)
  have x: "0 < x" using assms(1,2) by (metis less_le_trans of_int_0_less_iff)
  have d: "double x = of_int (round_half_even (x / u)) * u"
    using x by (simp add: double_def u_def Let_def)
  show ?thesis
  proof (cases "?e \<le> 52")
    case True
    then have "2 powi (52 - ?e) = (2 :: rat) ^ nat (52 - ?e)"
      by (simp add: power_int_def)
    then have k: "of_int r / u = of_int (r * 2 ^ nat (52 - ?e))"
      by (simp add: u_def power_int_diff divide_simps)
    have "of_int (r * 2 ^ nat (52 - ?e)) \<le> x / u"
      unfolding k [symmetric] using assms(1) u by (simp add: divide_right_mono)
    then have "of_int r / u \<le> of_int (round_half_even (x / u))"
      unfolding k by (metis of_int_le_iff round_half_even_ge)
    then show ?thesis
      using u by (simp add: d divide_le_eq)
  next
    case False
    have "2 powi ?e = 2 ^ 52 * u"
      by (simp add: u_def power_int_diff)
    then have "of_int (2 ^ 52) \<le> x / u"
      using float_exponent(1) [of x] x u by (simp add: le_divide_eq)
    then have "(of_int (2 ^ 52) :: rat) \<le> of_int (round_half_even (x / u))"
      by (metis of_int_le_iff round_half_even_ge)
    moreover have "2 powi 1 \<le> u"
      unfolding u_def using False by (intro power_int_increasing) auto
    ultimately have "2 ^ 52 * 2 \<le> double x"
      unfolding d by (intro mult_mono) auto
    moreover have "(of_int r :: rat) < of_int (2 ^ 53)"
      using assms(3) by (simp only: of_int_less_iff)
    ultimately show ?thesis by simp
  qed
qed

lemma float_of_int_small: "\<bar>i\<bar> < 2 ^ 53 \<Longrightarrow> float_of_int i = Inr (of_int i)"
  by (simp add: float_of_int_def double_of_int)

text \<open>
  A double between two powers of two is a multiple of its last place, so a clock that returns
  doubles reads on the grid: with 22 binary places between \<open>2\<^sup>3\<^sup>0\<close> and \<open>2\<^sup>3\<^sup>1\<close> seconds.
\<close>

lemma double_grid:
  assumes "double x = x" "2 ^ e \<le> x" "x < 2 ^ Suc e" "e \<le> 52"
  shows "on_grid (52 - e) x"
proof -
  have x: "0 < x" using assms(2) by (metis less_le_trans zero_less_numeral zero_less_power)
  have "float_exponent x = int e"
  proof (rule antisym)
    have "2 powi float_exponent x < (2 :: rat) powi (int e + 1)"
      using float_exponent(1) [of x] x assms(3) by (simp add: power_int_add)
    then show "float_exponent x \<le> int e"
      using power_int_le_imp_less_exp [of 2 "float_exponent x" "int e + 1"] by simp
    have "(2 :: rat) powi int e < 2 powi (float_exponent x + 1)"
      using float_exponent(2) [of x] x assms(2) by simp
    then show "int e \<le> float_exponent x"
      using power_int_increasing [of "float_exponent x + 1" "int e" "2 :: rat"] by linarith
  qed
  then have "x = of_int (round_half_even (x / 2 powi (int e - 52))) * 2 powi (int e - 52)"
    using assms(1) x by (simp add: double_def Let_def)
  moreover have "(2 :: rat) powi (int e - 52) * 2 ^ (52 - e) = 1"
    using assms(4) by (simp add: of_nat_diff flip: power_int_of_nat power_int_add)
  ultimately show ?thesis
    by (metis mult.assoc mult.right_neutral on_grid_iff)
qed

lemma clock_double_on_grid: "double x = x \<Longrightarrow> 2 ^ 30 \<le> x \<Longrightarrow> x < 2 ^ 31 \<Longrightarrow> on_grid 22 x"
  using double_grid [of x 30] by simp

end
