(* ===== verification/Rate_Limit.thy ===== *)
theory Rate_Limit
  imports Models Py_Float
begin

text \<open>
  The in-memory token bucket (\<^verbatim>\<open>protocols/rate_limit.py\<close>). Times and tokens are doubles,
  rounded after every operation as the code's floats are (\<open>Py_Float\<close>). Buckets live in the
  limiter's dictionary and are changed in place, here by storing the changed bucket.
\<close>

record bucket =
  bk_tokens :: rat
  bk_updated_at :: rat

type_synonym buckets = "(string, bucket) dict"

definition peer_rate :: "(string, manifest_limits option) dict \<Rightarrow> string \<Rightarrow> int option" where
  "peer_rate limits peer =
     (case dict_get limits peer of
        Some (Some l) \<Rightarrow> ml_max_operation_rps_per_peer l
      | _ \<Rightarrow> None)"

text \<open>The refill takes \<^verbatim>\<open>float(rate)\<close>; \<^verbatim>\<open>elapsed * rate\<close> converts the rate to the same float.\<close>

definition refill :: "rat \<Rightarrow> rat \<Rightarrow> bucket \<Rightarrow> bucket" where
  "refill rate now b =
     (let elapsed = max 0 (double (now - bk_updated_at b)) in
      if elapsed \<noteq> 0
      then \<lparr>bk_tokens = min rate (double (bk_tokens b + double (elapsed * rate))), bk_updated_at = now\<rparr>
      else b)"

definition rate_allow ::
    "(string, manifest_limits option) dict \<Rightarrow> string \<Rightarrow> rat \<Rightarrow> buckets \<Rightarrow> bool result \<times> buckets" where
  "rate_allow limits peer now bs =
     (case peer_rate limits peer of
        None \<Rightarrow> (Inr True, bs)
      | Some rate \<Rightarrow>
        if rate \<le> 0 then (Inr False, bs)
        else case float_of_int rate of
          Inl e \<Rightarrow> (Inl e, bs)
        | Inr burst \<Rightarrow>
          let b = (case dict_get bs peer of
                 Some b \<Rightarrow> b | None \<Rightarrow> \<lparr>bk_tokens = burst, bk_updated_at = now\<rparr>);
               b' = refill burst now b in
          if bk_tokens b' < 1 then (Inr False, dict_set peer b' bs)
          else (Inr True, dict_set peer (b'\<lparr>bk_tokens := double (bk_tokens b' - 1)\<rparr>) bs))"

text \<open>A run of calls; the answers come with the peer that asked.\<close>

fun rate_run ::
    "(string, manifest_limits option) dict \<Rightarrow> (string \<times> rat) list \<Rightarrow> buckets \<Rightarrow> (string \<times> bool result) list" where
  "rate_run limits [] bs = []"
| "rate_run limits ((peer, now) # es) bs =
     (case rate_allow limits peer now bs of (r, bs') \<Rightarrow> (peer, r) # rate_run limits es bs')"

definition granted :: "string \<Rightarrow> (string \<times> bool result) list \<Rightarrow> nat" where
  "granted peer answers = length (filter (\<lambda>(q, r). q = peer \<and> r = Inr True) answers)"

lemma granted_simps [simp]:
  "granted p [] = 0"
  "granted p ((q, r) # as) = (if q = p \<and> r = Inr True then Suc (granted p as) else granted p as)"
  by (simp_all add: granted_def)

lemma rate_allow_other:
  "rate_allow limits q now bs = (r, bs') \<Longrightarrow> p \<noteq> q \<Longrightarrow> dict_get bs' p = dict_get bs p"
  by (auto simp: rate_allow_def Let_def split: option.splits if_splits sum.splits)

text \<open>The bucket that a call finds after the refill.\<close>

definition bucket_at :: "rat \<Rightarrow> rat \<Rightarrow> bucket option \<Rightarrow> bucket" where
  "bucket_at burst now found = (case found of Some b \<Rightarrow> refill burst now b
     | None \<Rightarrow> \<lparr>bk_tokens = burst, bk_updated_at = now\<rparr>)"

definition take_token :: "bucket \<Rightarrow> bucket" where
  "take_token b = (if bk_tokens b < 1 then b else b\<lparr>bk_tokens := double (bk_tokens b - 1)\<rparr>)"

lemma rate_allow_bucket:
  assumes "peer_rate limits p = Some rate" "0 < rate" "float_of_int rate = Inr burst"
  shows "rate_allow limits p now bs =
    (Inr (1 \<le> bk_tokens (bucket_at burst now (dict_get bs p))),
     dict_set p (take_token (bucket_at burst now (dict_get bs p))) bs)"
  using assms by (auto simp: rate_allow_def bucket_at_def take_token_def refill_def Let_def
      split: option.splits)

lemma rate_allow_overflow:
  assumes "peer_rate limits p = Some rate" "0 < rate" "float_of_int rate = Inl e"
  shows "rate_allow limits p now bs = (Inl e, bs)"
  using assms by (simp add: rate_allow_def)

lemma float_of_int_double: "float_of_int i = Inr x \<Longrightarrow> x = double (of_int i)"
  by (auto simp: float_of_int_def split: if_splits)

section \<open>How much a bucket can grant\<close>

text \<open>
  What a bucket can still grant until time \<open>t\<close>, in exact arithmetic. A refill rounds four times on
  the way to the tokens (the rate, the elapsed time, their product, the sum) and a granted call
  once more.
\<close>

definition potential :: "rat \<Rightarrow> rat \<Rightarrow> bucket \<Rightarrow> rat" where
  "potential rate t b = bk_tokens b + rate * (t - bk_updated_at b)"

lemma refill_potential:
  assumes "0 < rate" "0 \<le> burst" "burst \<le> rounding * rate" "now \<le> t"
    and "0 \<le> bk_tokens b" "bk_updated_at b \<le> t"
  shows "potential rate t (refill burst now b) \<le> rounding ^ 4 * potential rate t b"
    "0 \<le> bk_tokens (refill burst now b)" "bk_updated_at (refill burst now b) \<le> t"
proof -
  let ?q = rounding and ?u = "bk_updated_at b" and ?T = "bk_tokens b"
  let ?d = "double (now - ?u)"
  have pot: "0 \<le> potential rate t b"
    using assms by (simp add: potential_def)
  have "potential rate t (refill burst now b) \<le> ?q ^ 4 * potential rate t b \<and>
      0 \<le> bk_tokens (refill burst now b) \<and> bk_updated_at (refill burst now b) \<le> t"
  proof (cases "?d \<le> 0")
    case True
    then have "refill burst now b = b"
      by (simp add: refill_def)
    then show ?thesis
      using assms le_rounding [OF pot] by simp
  next
    case False
    then have d: "0 < ?d" and u: "0 \<le> now - ?u"
      using double_nonpos [of "now - ?u"] by linarith+
    let ?p = "double (?d * burst)"
    have "?d * burst \<le> ?q * (now - ?u) * (?q * rate)"
      using d u assms by (intro mult_mono double_le) auto
    moreover have "?p \<le> ?q * (?d * burst)"
      using d assms by (intro double_le) auto
    ultimately have "?p \<le> ?q * (?q * (now - ?u) * (?q * rate))"
      by (meson mult_left_mono order_trans rounding_ge_1(3))
    then have p: "?p \<le> ?q ^ 3 * (rate * (now - ?u))"
      by (simp add: power3_eq_cube ac_simps)
    have p0: "0 \<le> ?p"
      using d assms by (intro double_nonneg) auto
    have "double (?T + ?p) \<le> ?q * (?T + ?p)"
      using p0 assms by (intro double_le) auto
    also have "\<dots> \<le> ?q * (?q ^ 3 * ?T + ?q ^ 3 * (rate * (now - ?u)))"
      using p le_rounding [OF assms(5), of 3] by (intro mult_left_mono add_mono) auto
    also have "\<dots> = ?q ^ 4 * (?T + rate * (now - ?u))"
      by (simp add: algebra_simps eval_nat_numeral)
    finally have s: "double (?T + ?p) \<le> ?q ^ 4 * (?T + rate * (now - ?u))" .
    moreover have "rate * (t - now) \<le> ?q ^ 4 * (rate * (t - now))"
      using assms by (intro le_rounding) auto
    ultimately have "double (?T + ?p) + rate * (t - now) \<le> ?q ^ 4 * potential rate t b"
      by (simp add: potential_def algebra_simps)
    moreover have "0 \<le> double (?T + ?p)"
      using p0 assms by (intro double_nonneg) auto
    ultimately show ?thesis
      using d assms by (auto simp: refill_def Let_def potential_def max_def min_def)
  qed
  then show "potential rate t (refill burst now b) \<le> ?q ^ 4 * potential rate t b"
    "0 \<le> bk_tokens (refill burst now b)" "bk_updated_at (refill burst now b) \<le> t"
    by auto
qed

lemma take_token_potential:
  assumes "0 < rate" "1 \<le> bk_tokens b" "bk_updated_at b \<le> t"
  shows "potential rate t (take_token b) \<le> rounding * (potential rate t b - 1)"
    "0 \<le> bk_tokens (take_token b)" "bk_updated_at (take_token b) \<le> t"
proof -
  have "double (bk_tokens b - 1) \<le> rounding * (bk_tokens b - 1)"
    using assms by (intro double_le) simp
  moreover have "rate * (t - bk_updated_at b) \<le> rounding ^ 1 * (rate * (t - bk_updated_at b))"
    using assms by (intro le_rounding) simp
  ultimately show "potential rate t (take_token b) \<le> rounding * (potential rate t b - 1)"
    using assms(2) by (simp add: potential_def take_token_def algebra_simps)
  show "0 \<le> bk_tokens (take_token b)" "bk_updated_at (take_token b) \<le> t"
    using assms by (auto simp: take_token_def intro: double_nonneg)
qed

text \<open>The peer's calls in a run.\<close>

definition calls_of :: "string \<Rightarrow> (string \<times> rat) list \<Rightarrow> rat list" where
  "calls_of p calls = map snd (filter (\<lambda>(q, t). q = p) calls)"

lemma calls_of_simps [simp]:
  "calls_of p [] = []"
  "calls_of p ((q, t) # es) = (if q = p then t # calls_of p es else calls_of p es)"
  "calls_of p (es @ fs) = calls_of p es @ calls_of p fs"
  by (simp_all add: calls_of_def)

lemma grant_step:
  assumes "of_nat g \<le> rounding ^ (5 * n) * y" "y \<le> rounding * (x - 1)" "x \<le> rounding ^ 4 * z"
  shows "of_nat (Suc g) \<le> rounding ^ (5 * Suc n) * z"
proof -
  let ?q = "rounding ^ (5 * n + 1)"
  have "rounding ^ (5 * n) * y \<le> rounding ^ (5 * n) * (rounding * (x - 1))"
    using assms(2) by (intro mult_left_mono) auto
  from order_trans [OF assms(1) this] have "of_nat g \<le> ?q * (x - 1)"
    by (simp add: ac_simps)
  then have "of_nat (Suc g) \<le> ?q * x"
    using rounding_power(1) [of "5 * n + 1"] by (simp add: right_diff_distrib)
  also have "\<dots> \<le> ?q * (rounding ^ 4 * z)"
    using assms(3) by (intro mult_left_mono) auto
  also have "\<dots> = rounding ^ (5 * Suc n) * z"
    by (simp add: eval_nat_numeral ac_simps)
  finally show ?thesis .
qed

lemma granted_bound:
  assumes "peer_rate limits p = Some rate" "0 < rate" "float_of_int rate = Inr burst"
  shows "dict_get bs p = Some b \<Longrightarrow> 0 \<le> bk_tokens b \<Longrightarrow> bk_updated_at b \<le> t \<Longrightarrow>
    \<forall>now \<in> set (calls_of p es). now \<le> t \<Longrightarrow>
    of_nat (granted p (rate_run limits es bs)) \<le>
      rounding ^ (5 * length (calls_of p es)) * potential (of_int rate) t b"
proof (induction es arbitrary: bs b)
  case Nil
  then show ?case using assms(2) by (simp add: potential_def)
next
  case (Cons e es)
  obtain q now where e: "e = (q, now)" by fastforce
  obtain r bs' where a: "rate_allow limits q now bs = (r, bs')" by fastforce
  show ?case
  proof (cases "q = p")
    case False
    then have "dict_get bs' p = Some b"
      using rate_allow_other [OF a] Cons.prems(1) by simp
    then show ?thesis
      using Cons.IH Cons.prems e a False by simp
  next
    case True
    let ?b = "refill burst now b" and ?r = "of_int rate :: rat"
    have burst: "0 \<le> burst" "burst \<le> rounding * ?r"
      using assms(2) float_of_int_double [OF assms(3)] by (auto intro: double_nonneg double_le)
    have "now \<le> t" "0 < ?r" using Cons.prems(4) e True assms(2) by auto
    note f = refill_potential [OF this(2) burst this(1) Cons.prems(2,3)]
    have new: "r = Inr (1 \<le> bk_tokens ?b)" "dict_get bs' p = Some (take_token ?b)"
      using a True Cons.prems(1) rate_allow_bucket [OF assms] by (auto simp: bucket_at_def)
    show ?thesis
    proof (cases "1 \<le> bk_tokens ?b")
      case False
      then have "of_nat (granted p (rate_run limits es bs')) \<le>
          rounding ^ (5 * length (calls_of p es)) * potential ?r t ?b"
        using Cons.IH [of bs' ?b] Cons.prems(4) f e new True by (simp add: take_token_def)
      also have "\<dots> \<le> rounding ^ (5 * length (calls_of p es)) * (rounding ^ 4 * potential ?r t b)"
        using f by (intro mult_left_mono) auto
      also have "\<dots> \<le> rounding ^ (5 * Suc (length (calls_of p es))) * potential ?r t b"
        using le_rounding [of "rounding ^ (5 * length (calls_of p es)) * (rounding ^ 4 * potential ?r t b)" 1]
          Cons.prems(2,3) assms(2)
        by (simp add: potential_def eval_nat_numeral ac_simps)
      finally show ?thesis
        using e a True new False by simp
    next
      case take: True
      note k = take_token_potential [OF \<open>0 < ?r\<close> take f(3)]
      have "of_nat (granted p (rate_run limits es bs')) \<le>
          rounding ^ (5 * length (calls_of p es)) * potential ?r t (take_token ?b)"
        using Cons.IH [OF new(2)] k Cons.prems(4) e True by simp
      from grant_step [OF this k(1) f(1)] show ?thesis
        using e a True new take by simp
    qed
  qed
qed

text \<open>The first call fills the bucket. A rate that overflows grants nothing.\<close>

lemma granted_overflow:
  assumes "peer_rate limits p = Some rate" "0 < rate" "float_of_int rate = Inl e"
  shows "granted p (rate_run limits es bs) = 0"
proof (induction es arbitrary: bs)
  case (Cons c es)
  obtain q now where c: "c = (q, now)" by fastforce
  show ?case
    using Cons rate_allow_overflow [OF assms]
    by (cases "rate_allow limits q now bs") (auto simp: c)
qed simp

lemma granted_bound_fresh:
  assumes "peer_rate limits p = Some rate" "0 < rate" "float_of_int rate = Inr burst" "t0 \<le> t"
  shows "dict_get bs p = None \<Longrightarrow> \<forall>now \<in> set (calls_of p es). t0 \<le> now \<and> now \<le> t \<Longrightarrow>
    of_nat (granted p (rate_run limits es bs)) \<le>
      rounding ^ (5 * length (calls_of p es)) * (of_int rate * (t - t0) + of_int rate)"
proof (induction es arbitrary: bs)
  case Nil
  have "(0 :: rat) \<le> of_int rate * (t - t0)"
    using assms(2,4) by simp
  then show ?case using assms(2) by simp
next
  case (Cons e es)
  obtain q now where e: "e = (q, now)" by fastforce
  obtain r bs' where a: "rate_allow limits q now bs = (r, bs')" by fastforce
  show ?case
  proof (cases "q = p")
    case False
    then have "dict_get bs' p = None"
      using rate_allow_other [OF a] Cons.prems(1) by simp
    then show ?thesis
      using Cons.IH Cons.prems e a False by simp
  next
    case True
    then have now: "t0 \<le> now" "now \<le> t" using Cons.prems(2) e by auto
    let ?r = "of_int rate :: rat" and ?b = "\<lparr>bk_tokens = burst, bk_updated_at = now\<rparr>"
    have r: "1 \<le> ?r" using assms(2) by simp
    have burst: "0 \<le> burst" "burst \<le> rounding * ?r"
      using r float_of_int_double [OF assms(3)] by (auto intro: double_nonneg double_le)
    have new: "r = Inr (1 \<le> burst)" "dict_get bs' p = Some (take_token ?b)"
      using a True Cons.prems(1) rate_allow_bucket [OF assms(1-3)] by (auto simp: bucket_at_def)
    have "?r * (t - now) \<le> ?r * (t - t0)"
      using r now by (intro mult_left_mono) auto
    then have "rounding * ?r + ?r * (t - now) \<le> rounding ^ 4 * ?r + rounding ^ 4 * (?r * (t - t0))"
      using le_rounding [of "?r * (t - t0)" 4] le_rounding [of "rounding * ?r" 3] r assms(4)
      by (intro add_mono) (auto simp: eval_nat_numeral ac_simps)
    then have pot: "potential ?r t ?b \<le> rounding ^ 4 * (?r * (t - t0) + ?r)"
      using burst by (simp add: potential_def algebra_simps)
    have full: "1 \<le> bk_tokens ?b"
      using double_ge_int [of 1 ?r] r float_of_int_double [OF assms(3)] by simp
    note k = take_token_potential [of ?r ?b t]
    have "of_nat (granted p (rate_run limits es bs')) \<le>
        rounding ^ (5 * length (calls_of p es)) * potential ?r t (take_token ?b)"
      by (rule granted_bound [OF assms(1-3) new(2)]) (use k full r now Cons.prems(2) e True in auto)
    moreover have "potential ?r t (take_token ?b) \<le> rounding * (potential ?r t ?b - 1)"
      using k full r now by simp
    ultimately show ?thesis
      using grant_step [OF _ _ pot] e a True new full by simp
  qed
qed


section \<open>When nothing is rounded\<close>

text \<open>
  Times from 0 on that are multiples of \<open>2\<^sup>-\<^sup>g\<close> and have 53 bits at most, and a rate with
  \<open>rate \<cdot> 2\<^sup>g < 2\<^sup>5\<^sup>3\<close>: the tokens then stay on the grid. For \<open>g = 22\<close> these are the readings of a
  Unix clock from 2004 to 2038 (\<open>clock_double_on_grid\<close>) and rates below \<open>2\<^sup>3\<^sup>1\<close>.
\<close>

definition exact_time :: "nat \<Rightarrow> rat \<Rightarrow> bool" where
  "exact_time g t \<longleftrightarrow> on_grid g t \<and> 0 \<le> t \<and> t * 2 ^ g < 2 ^ 53"

definition exact_rate :: "nat \<Rightarrow> int \<Rightarrow> bool" where
  "exact_rate g rate \<longleftrightarrow> 0 < rate \<and> rate * 2 ^ g < 2 ^ 53"

definition exact_bucket :: "nat \<Rightarrow> int \<Rightarrow> bucket \<Rightarrow> bool" where
  "exact_bucket g rate b \<longleftrightarrow> on_grid g (bk_tokens b) \<and> 0 \<le> bk_tokens b \<and>
     bk_tokens b \<le> of_int rate \<and> exact_time g (bk_updated_at b)"

lemma exact_rate_less:
  assumes "exact_rate g rate"
  shows "rate < 2 ^ 53" "x \<le> of_int rate \<Longrightarrow> x * 2 ^ g < (2 :: rat) ^ 53"
proof -
  have "rate * 1 \<le> rate * 2 ^ g"
    using assms by (intro mult_left_mono) (auto simp: exact_rate_def)
  then show "rate < 2 ^ 53"
    using assms unfolding exact_rate_def by linarith
  assume "x \<le> of_int rate"
  then have "x * 2 ^ g \<le> of_int (rate * 2 ^ g)"
    by simp
  also have "\<dots> < of_int (2 ^ 53)"
    using assms unfolding of_int_less_iff by (simp add: exact_rate_def)
  finally show "x * 2 ^ g < (2 :: rat) ^ 53" by simp
qed

lemma double_exact:
  assumes "exact_rate g rate" "on_grid g x" "0 \<le> x" "x \<le> of_int rate"
  shows "double x = x"
  using assms exact_rate_less(2) [OF assms(1,4)] by (simp add: double_on_grid)

lemma double_capped:
  assumes "exact_rate g rate" "on_grid g x" "0 \<le> x"
  shows "min (of_int rate) (double x) = min (of_int rate) x"
proof (cases "x \<le> of_int rate")
  case True
  then show ?thesis using double_exact [OF assms] by simp
next
  case False
  then have "of_int rate \<le> double x"
    using assms(1) exact_rate_less(1) [OF assms(1)] by (intro double_ge_int) (auto simp: exact_rate_def)
  then show ?thesis using False by simp
qed

lemma refill_exact:
  assumes "exact_rate g rate" "exact_bucket g rate b" "exact_time g now" "bk_updated_at b \<le> now"
  shows "refill (of_int rate) now b =
      \<lparr>bk_tokens = min (of_int rate) (bk_tokens b + of_int rate * (now - bk_updated_at b)), bk_updated_at = now\<rparr>"
    and "exact_bucket g rate (refill (of_int rate) now b)"
proof -
  let ?u = "bk_updated_at b" and ?T = "bk_tokens b" and ?r = "of_int rate :: rat"
  let ?p = "(now - ?u) * ?r"
  have r: "0 < ?r" using assms(1) by (simp add: exact_rate_def)
  have b: "on_grid g ?T" "0 \<le> ?T" "?T \<le> ?r" "on_grid g ?u" "0 \<le> ?u"
    using assms(2) by (auto simp: exact_bucket_def exact_time_def)
  have p: "0 \<le> ?p" "on_grid g ?p"
    using r assms(3,4) b by (auto simp: exact_time_def intro!: on_grid_intros)
  have "(now - ?u) * 2 ^ g \<le> now * 2 ^ g"
    using b by simp
  also have "\<dots> < 2 ^ 53"
    using assms(3) by (simp add: exact_time_def)
  finally have "\<bar>now - ?u\<bar> * 2 ^ g < 2 ^ 53"
    using assms(4) by simp
  then have d: "double (now - ?u) = now - ?u"
    using assms(3) b by (intro double_on_grid [of g]) (auto simp: exact_time_def intro: on_grid_intros)
  have "min ?r (double (?T + double ?p)) = min ?r (?T + ?p)"
  proof (cases "?p \<le> ?r")
    case True
    then have "double ?p = ?p"
      using double_exact [OF assms(1) p(2,1)] by simp
    moreover have "on_grid g (?T + ?p)" "0 \<le> ?T + ?p"
      using b p by (auto intro: on_grid_intros)
    ultimately show ?thesis
      using double_capped [OF assms(1)] by simp
  next
    case False
    note small = exact_rate_less(1) [OF assms(1)]
    have "?r \<le> double ?p"
      using False r small by (intro double_ge_int) auto
    then have "?r \<le> double (?T + double ?p)"
      using b r small by (intro double_ge_int) auto
    then show ?thesis using False b by simp
  qed
  then show eq: "refill ?r now b = \<lparr>bk_tokens = min ?r (?T + ?r * (now - ?u)), bk_updated_at = now\<rparr>"
  proof (cases "?u = now")
    case True
    then show ?thesis using b by (cases b) (simp add: refill_def min_absorb2)
  next
    case False
    then have "max 0 (double (now - ?u)) = now - ?u" "now - ?u \<noteq> 0"
      using assms(4) d by auto
    then show ?thesis
      using \<open>min ?r (double (?T + double ?p)) = min ?r (?T + ?p)\<close>
      by (simp add: refill_def Let_def mult.commute)
  qed
  show "exact_bucket g rate (refill ?r now b)"
    unfolding eq using assms(3) b p r
    by (auto simp: exact_bucket_def mult.commute intro!: on_grid_intros)
qed

lemma take_token_exact:
  assumes "exact_rate g rate" "exact_bucket g rate b"
  shows "take_token b = b\<lparr>bk_tokens := bk_tokens b - (if 1 \<le> bk_tokens b then 1 else 0)\<rparr>"
    and "exact_bucket g rate (take_token b)"
proof -
  have "double (bk_tokens b - 1) = bk_tokens b - 1" if "1 \<le> bk_tokens b"
    using that assms(2) by (intro double_exact [OF assms(1)]) (auto simp: exact_bucket_def intro: on_grid_intros)
  then show eq: "take_token b = b\<lparr>bk_tokens := bk_tokens b - (if 1 \<le> bk_tokens b then 1 else 0)\<rparr>"
    by (simp add: take_token_def)
  show "exact_bucket g rate (take_token b)"
    unfolding eq using assms(2) by (auto simp: exact_bucket_def intro: on_grid_intros)
qed

section \<open>The reference: bounded windows\<close>

text \<open>
  The limiter's buckets after a run of calls, and what it answered one peer. The reference
  grants a request when no window that starts at an earlier request of the peer then holds more
  grants than its length and one burst allow.
\<close>

fun rate_buckets ::
    "(string, manifest_limits option) dict \<Rightarrow> (string \<times> rat) list \<Rightarrow> buckets \<Rightarrow> buckets" where
  "rate_buckets limits [] bs = bs"
| "rate_buckets limits ((q, now) # es) bs = rate_buckets limits es (snd (rate_allow limits q now bs))"

fun peer_history ::
    "(string, manifest_limits option) dict \<Rightarrow> string \<Rightarrow> (string \<times> rat) list \<Rightarrow> buckets \<Rightarrow>
      (rat \<times> bool) list" where
  "peer_history limits p [] bs = []"
| "peer_history limits p ((q, now) # es) bs =
     (if q = p then [(now, fst (rate_allow limits q now bs) = Inr True)] else []) @
     peer_history limits p es (snd (rate_allow limits q now bs))"

definition grants :: "(rat \<times> bool) list \<Rightarrow> rat" where
  "grants h = of_nat (length (filter snd h))"

definition window_free :: "int \<Rightarrow> (rat \<times> bool) list \<Rightarrow> rat \<Rightarrow> bool" where
  "window_free rate h t \<longleftrightarrow>
     (\<forall>i < length h. grants (drop i h) + 1 \<le> of_int rate * (t - fst (h ! i)) + of_int rate)"

lemma rate_buckets_append [simp]:
  "rate_buckets limits (es @ fs) bs = rate_buckets limits fs (rate_buckets limits es bs)"
  by (induction es arbitrary: bs) auto

lemma peer_history_append [simp]:
  "peer_history limits p (es @ fs) bs =
     peer_history limits p es bs @ peer_history limits p fs (rate_buckets limits es bs)"
  by (induction es arbitrary: bs) auto

text \<open>The bucket holds the largest number of tokens that keeps every window in bounds.\<close>

definition bucket_matches :: "int \<Rightarrow> (rat \<times> bool) list \<Rightarrow> bucket \<Rightarrow> bool" where
  "bucket_matches rate h b \<longleftrightarrow> h \<noteq> [] \<and> bk_updated_at b = fst (last h) \<and>
     (\<forall>x. x \<le> bk_tokens b \<longleftrightarrow>
       (\<forall>i < length h. x + grants (drop i h) \<le> of_int rate * (bk_updated_at b - fst (h ! i)) + of_int rate))"

lemma matches_refill:
  assumes "bucket_matches rate h b" "exact_rate g rate" "exact_bucket g rate b" "exact_time g now"
    and "fst (last h) \<le> now"
  shows "x \<le> bk_tokens (refill (of_int rate) now b) \<longleftrightarrow> x \<le> of_int rate \<and>
      (\<forall>i < length h. x + grants (drop i h) \<le> of_int rate * (now - fst (h ! i)) + of_int rate)"
    and "bk_updated_at (refill (of_int rate) now b) = now"
proof -
  let ?u = "bk_updated_at b" and ?T = "bk_tokens b"
  have tokens: "\<And>x. x \<le> ?T \<longleftrightarrow>
      (\<forall>i < length h. x + grants (drop i h) \<le> of_int rate * (?u - fst (h ! i)) + of_int rate)"
    and "?u \<le> now"
    using assms(1,5) by (auto simp: bucket_matches_def)
  note r = refill_exact(1) [OF assms(2-4) this(2)]
  have "x \<le> ?T + of_int rate * (now - ?u) \<longleftrightarrow> x - of_int rate * (now - ?u) \<le> ?T"
    by linarith
  also have "\<dots> \<longleftrightarrow>
      (\<forall>i < length h. x + grants (drop i h) \<le> of_int rate * (now - fst (h ! i)) + of_int rate)"
    unfolding tokens by (simp add: algebra_simps)
  finally show "x \<le> bk_tokens (refill (of_int rate) now b) \<longleftrightarrow> x \<le> of_int rate \<and>
      (\<forall>i < length h. x + grants (drop i h) \<le> of_int rate * (now - fst (h ! i)) + of_int rate)"
    by (simp add: r)
  show "bk_updated_at (refill (of_int rate) now b) = now"
    by (simp add: r)
qed

text \<open>A request that is answered \<open>ok\<close> takes that many tokens of a refilled bucket.\<close>

lemma matches_answer:
  assumes "\<And>x. x \<le> bk_tokens b \<longleftrightarrow> x \<le> of_int rate \<and>
      (\<forall>i < length h. x + grants (drop i h) \<le> of_int rate * (now - fst (h ! i)) + of_int rate)"
    and "bk_updated_at b = now"
  shows "bucket_matches rate (h @ [(now, ok)]) (b\<lparr>bk_tokens := bk_tokens b - (if ok then 1 else 0)\<rparr>)"
proof -
  let ?g = "if ok then 1 else 0 :: rat"
  have "x \<le> bk_tokens b - ?g \<longleftrightarrow> x + ?g \<le> bk_tokens b" for x
    by linarith
  moreover have "(\<forall>i < length (h @ [(now, ok)]). x + grants (drop i (h @ [(now, ok)])) \<le>
        of_int rate * (now - fst ((h @ [(now, ok)]) ! i)) + of_int rate) \<longleftrightarrow>
      x + ?g \<le> of_int rate \<and> (\<forall>i < length h. x + ?g + grants (drop i h) \<le>
        of_int rate * (now - fst (h ! i)) + of_int rate)" for x
    by (auto simp: less_Suc_eq nth_append grants_def algebra_simps)
  ultimately show ?thesis
    using assms by (simp add: bucket_matches_def)
qed

text \<open>What the limiter keeps of a peer: no bucket before its first call, then a matching one.\<close>

definition bucket_tracks :: "nat \<Rightarrow> int \<Rightarrow> (rat \<times> bool) list \<Rightarrow> bucket option \<Rightarrow> bool" where
  "bucket_tracks g rate h found \<longleftrightarrow>
     (case found of None \<Rightarrow> h = [] | Some b \<Rightarrow> bucket_matches rate h b \<and> exact_bucket g rate b)"

lemma bucket_at_tracks:
  assumes "bucket_tracks g rate h found" "exact_rate g rate" "exact_time g now"
    and "h \<noteq> [] \<Longrightarrow> fst (last h) \<le> now"
  shows "x \<le> bk_tokens (bucket_at (of_int rate) now found) \<longleftrightarrow> x \<le> of_int rate \<and>
      (\<forall>i < length h. x + grants (drop i h) \<le> of_int rate * (now - fst (h ! i)) + of_int rate)"
    and "bk_updated_at (bucket_at (of_int rate) now found) = now"
    and "exact_bucket g rate (bucket_at (of_int rate) now found)"
proof -
  let ?b = "bucket_at (of_int rate) now found"
  have "(x \<le> bk_tokens ?b \<longleftrightarrow> x \<le> of_int rate \<and>
      (\<forall>i < length h. x + grants (drop i h) \<le> of_int rate * (now - fst (h ! i)) + of_int rate)) \<and>
    bk_updated_at ?b = now \<and> exact_bucket g rate ?b"
  proof (cases found)
    case None
    with assms(1-3) show ?thesis
      by (simp add: bucket_at_def bucket_tracks_def exact_bucket_def exact_rate_def on_grid_intros)
  next
    case (Some b)
    with assms(1) have m: "bucket_matches rate h b" "exact_bucket g rate b"
      by (simp_all add: bucket_tracks_def)
    then have u: "fst (last h) \<le> now" "bk_updated_at b \<le> now"
      using assms(4) by (auto simp: bucket_matches_def)
    show ?thesis
      using Some matches_refill [OF m(1) assms(2) m(2) assms(3) u(1)] refill_exact(2) [OF assms(2) m(2) assms(3) u(2)]
      by (simp add: bucket_at_def)
  qed
  then show "x \<le> bk_tokens ?b \<longleftrightarrow> x \<le> of_int rate \<and>
      (\<forall>i < length h. x + grants (drop i h) \<le> of_int rate * (now - fst (h ! i)) + of_int rate)"
    "bk_updated_at ?b = now" "exact_bucket g rate ?b"
    by auto
qed

lemma exact_rate_burst: "exact_rate g rate \<Longrightarrow> 0 < rate \<and> float_of_int rate = Inr (of_int rate)"
  using exact_rate_less(1) [of g rate] by (simp add: float_of_int_small exact_rate_def)

lemma bucket_history:
  assumes "peer_rate limits p = Some rate" "exact_rate g rate"
  shows "sorted (calls_of p calls) \<Longrightarrow> \<forall>t \<in> set (calls_of p calls). exact_time g t \<Longrightarrow>
    bucket_tracks g rate (peer_history limits p calls []) (dict_get (rate_buckets limits calls []) p) \<and>
    map fst (peer_history limits p calls []) = calls_of p calls"
proof (induction calls rule: rev_induct)
  case (snoc e calls)
  obtain q now where e: "e = (q, now)" by fastforce
  let ?bs = "rate_buckets limits calls []" and ?h = "peer_history limits p calls []"
  have "sorted (calls_of p calls)" "\<forall>t \<in> set (calls_of p calls). exact_time g t"
    using snoc.prems by (auto simp: sorted_append)
  note ih = snoc.IH [OF this]
  show ?case
  proof (cases "q = p")
    case False
    then have hist: "peer_history limits p (calls @ [e]) [] = ?h"
      and same: "dict_get (rate_buckets limits (calls @ [e]) []) p = dict_get ?bs p"
      using e rate_allow_other [of limits q now ?bs _ _ p]
      by (cases "rate_allow limits q now ?bs"; simp)+
    show ?thesis
      unfolding hist same using ih False e by simp
  next
    case True
    let ?b = "bucket_at (of_int rate) now (dict_get ?bs p)"
    have last: "fst (last ?h) \<le> now" if "?h \<noteq> []"
    proof -
      have "fst (last ?h) \<in> set (map fst ?h)"
        using that by simp
      then show ?thesis
        using ih snoc.prems(1) True e by (auto simp: sorted_append)
    qed
    have now: "exact_time g now"
      using snoc.prems(2) True e by simp
    note found = bucket_at_tracks [OF ih [THEN conjunct1] assms(2) now last]
    note take = take_token_exact [OF assms(2) found(3)]
    have burst: "0 < rate" "float_of_int rate = Inr (of_int rate)"
      using exact_rate_burst [OF assms(2)] by auto
    have hist: "peer_history limits p (calls @ [e]) [] = ?h @ [(now, 1 \<le> bk_tokens ?b)]"
      and new: "dict_get (rate_buckets limits (calls @ [e]) []) p = Some (take_token ?b)"
      using True e rate_allow_bucket [OF assms(1) burst, of now ?bs] by simp_all
    have "bucket_matches rate (?h @ [(now, 1 \<le> bk_tokens ?b)]) (take_token ?b)"
      using matches_answer [OF found(1,2), of "1 \<le> bk_tokens ?b"] take(1) by simp
    then show ?thesis
      unfolding hist new using True e ih take(2) by (simp add: bucket_tracks_def)
  qed
qed (simp add: bucket_tracks_def)

section \<open>Properties\<close>

text \<open>
  C36: However requests of different peers are interleaved and in whatever order their times
  come, a peer with a positive limit of \<open>rate\<close> per second is granted at most
  \<open>rate \<cdot> (t - t0) + rate\<close> requests between \<open>t0\<close> and \<open>t\<close>, counted from its first request, up to
  the error of the doubles: five roundings of one part in \<open>2\<^sup>5\<^sup>3\<close> for each of its requests.
\<close>

theorem token_bucket_bound:
  assumes "peer_rate limits p = Some rate" "0 < rate" "t0 \<le> t"
    and "\<forall>now \<in> set (calls_of p calls). t0 \<le> now \<and> now \<le> t"
  shows "of_nat (granted p (rate_run limits calls [])) \<le>
    (1 + 1 / 2 ^ 53) ^ (5 * length (calls_of p calls)) * (of_int rate * (t - t0) + of_int rate)"
proof (cases "float_of_int rate")
  case (Inl e)
  have "0 \<le> of_int rate * (t - t0) + (of_int rate :: rat)"
    using assms(2,3) by simp
  then show ?thesis
    using granted_overflow [OF assms(1,2) Inl] by simp
next
  case (Inr burst)
  from granted_bound_fresh [OF assms(1,2) Inr assms(3) _ assms(4)] show ?thesis
    by (simp add: rounding_def)
qed

lemma token_bucket_bound_witness:
  "of_nat (granted ''a'' (rate_run
      [(''a'', Some \<lparr>ml_max_operation_rps_per_peer = Some 1, ml_max_operation_timeout_ms = None,
         ml_max_operation_items = None\<rparr>)]
      [(''a'', 0), (''b'', 9), (''a'', 0), (''a'', 1)] [])) \<le>
    (1 + 1 / 2 ^ 53) ^ 15 * (1 * (1 - 0) + 1 :: rat)"
  using token_bucket_bound [of "[(''a'', Some \<lparr>ml_max_operation_rps_per_peer = Some 1,
      ml_max_operation_timeout_ms = None, ml_max_operation_items = None\<rparr>)]" "''a''" 1 0 1
      "[(''a'', 0), (''b'', 9), (''a'', 0), (''a'', 1)]"]
  by (simp add: peer_rate_def)

text \<open>
  C37: The token bucket is the most generous limiter that respects the windows, where nothing is
  rounded: for a positive rate and times of the peer that are multiples of \<open>2\<^sup>-\<^sup>g\<close>, from 0 on and
  within 53 bits, whatever other peers do in between, a request of the peer, not earlier than its
  previous ones, is granted exactly when every window from an earlier request of that peer to now,
  this request included, holds at most \<open>rate\<close> grants per second and one burst of \<open>rate\<close>.
\<close>

theorem token_bucket_reference:
  assumes "peer_rate limits p = Some rate" "exact_rate g rate"
    and "sorted (calls_of p (calls @ [(p, now)]))"
    and "\<forall>t \<in> set (calls_of p (calls @ [(p, now)])). exact_time g t"
  shows "fst (rate_allow limits p now (rate_buckets limits calls [])) = Inr True \<longleftrightarrow>
    window_free rate (peer_history limits p calls []) now"
proof -
  let ?bs = "rate_buckets limits calls []" and ?h = "peer_history limits p calls []"
  have "sorted (calls_of p calls)" "\<forall>t \<in> set (calls_of p calls). exact_time g t"
    using assms(3,4) by (auto simp: sorted_append)
  note hist = bucket_history [OF assms(1,2) this]
  have "fst (last ?h) \<le> now" if "?h \<noteq> []"
  proof -
    have "fst (last ?h) \<in> set (map fst ?h)"
      using that by simp
    then show ?thesis
      using hist assms(3) by (auto simp: sorted_append)
  qed
  moreover have "exact_time g now"
    using assms(4) by simp
  moreover have "0 < rate" "float_of_int rate = Inr (of_int rate)" "(1 :: rat) \<le> of_int rate"
    using exact_rate_burst [OF assms(2)] by auto
  ultimately show ?thesis
    using bucket_at_tracks(1) [OF hist [THEN conjunct1] assms(2), of now 1]
      rate_allow_bucket [OF assms(1), of "of_int rate" now ?bs]
    by (auto simp: window_free_def add.commute)
qed

lemma token_bucket_reference_witness:
  "let limits = [(''a'', Some \<lparr>ml_max_operation_rps_per_peer = Some 1, ml_max_operation_timeout_ms = None,
         ml_max_operation_items = None\<rparr>)];
       calls = [(''a'', 0), (''b'', 9)]
   in fst (rate_allow limits ''a'' (1 / 2) (rate_buckets limits calls [])) \<noteq> Inr True \<and>
     \<not> window_free 1 (peer_history limits ''a'' calls []) (1 / 2)"
proof -
  let ?limits = "[(''a'', Some \<lparr>ml_max_operation_rps_per_peer = Some 1, ml_max_operation_timeout_ms = None,
         ml_max_operation_items = None\<rparr>)]"
  let ?calls = "[(''a'', 0), (''b'', 9)] :: (string \<times> rat) list"
  have "peer_rate ?limits ''a'' = Some 1"
    by (simp add: peer_rate_def)
  moreover have "\<not> window_free 1 (peer_history ?limits ''a'' ?calls []) (1 / 2)"
    by (simp add: window_free_def rate_allow_def peer_rate_def refill_def Let_def grants_def
        float_of_int_small [of 1, simplified])
  ultimately show ?thesis
    using token_bucket_reference [of ?limits "''a''" 1 1 ?calls "1 / 2"]
    by (simp add: exact_rate_def exact_time_def on_grid_def)
qed

text \<open>
  Off the grid the doubles grant more than the exact bound: at a limit of 2 per second these calls
  within half a second, the last at \<open>0.49999999999999994\<close>, get three grants.
\<close>

text \<open>
  Off the grid the doubles can grant more than the exact bound: at a limit of 2 per second, calls at
  0, \<open>0.05\<close>, \<open>0.35\<close>, \<open>0.44999999999999996\<close> and \<open>0.49999999999999994\<close> (the doubles nearest to them,
  below) get three grants in less than half a second.
\<close>

definition two_rps :: "(string, manifest_limits option) dict" where
  "two_rps = [(''a'', Some \<lparr>ml_max_operation_rps_per_peer = Some 2, ml_max_operation_timeout_ms = None,
     ml_max_operation_items = None\<rparr>)]"

lemma two_rps_steps:
  "rate_allow two_rps ''a'' (0)
      [] =
    (Inr True, [(''a'', \<lparr>bk_tokens = 1, bk_updated_at = 0\<rparr>)])"
  "rate_allow two_rps ''a'' (3602879701896397 / 72057594037927936)
      [(''a'', \<lparr>bk_tokens = 1, bk_updated_at = 0\<rparr>)] =
    (Inr True, [(''a'', \<lparr>bk_tokens = 225179981368525 / 2251799813685248, bk_updated_at = 3602879701896397 / 72057594037927936\<rparr>)])"
  "rate_allow two_rps ''a'' (3152519739159347 / 9007199254740992)
      [(''a'', \<lparr>bk_tokens = 225179981368525 / 2251799813685248, bk_updated_at = 3602879701896397 / 72057594037927936\<rparr>)] =
    (Inr False, [(''a'', \<lparr>bk_tokens = 6305039478318695 / 9007199254740992, bk_updated_at = 3152519739159347 / 9007199254740992\<rparr>)])"
  "rate_allow two_rps ''a'' (2026619832316723 / 4503599627370496)
      [(''a'', \<lparr>bk_tokens = 6305039478318695 / 9007199254740992, bk_updated_at = 3152519739159347 / 9007199254740992\<rparr>)] =
    (Inr False, [(''a'', \<lparr>bk_tokens = 8106479329266893 / 9007199254740992, bk_updated_at = 2026619832316723 / 4503599627370496\<rparr>)])"
  "rate_allow two_rps ''a'' (9007199254740991 / 18014398509481984)
      [(''a'', \<lparr>bk_tokens = 8106479329266893 / 9007199254740992, bk_updated_at = 2026619832316723 / 4503599627370496\<rparr>)] =
    (Inr True, [(''a'', \<lparr>bk_tokens = 0, bk_updated_at = 9007199254740991 / 18014398509481984\<rparr>)])"
  by code_simp+

lemma rounding_grants_more:
  "granted ''a'' (rate_run two_rps
      [(''a'', 0), (''a'', 3602879701896397 / 72057594037927936), (''a'', 3152519739159347 / 9007199254740992),
       (''a'', 2026619832316723 / 4503599627370496), (''a'', 9007199254740991 / 18014398509481984)] []) = 3"
  using two_rps_steps by simp

end
