(* ===== verification/Certauth_Audit.thy ===== *)
theory Certauth_Audit
  imports Py_Time Json Sha256
begin

text \<open>
  Certificate identities (\<^verbatim>\<open>certauth.py\<close>; the thumbprint is in \<^verbatim>\<open>Sha256\<close>) and audit records
  (\<^verbatim>\<open>audit.py\<close>). \<^verbatim>\<open>hmac.compare_digest\<close> on two texts is equality for ASCII text.
\<close>

section \<open>Certificate identities\<close>

record certificate_identity =
  ci_subject_dn :: "string option"
  ci_sans :: "string list"
  ci_spki_sha256 :: "string option"

record cert_verified_peer =
  cv_node_id :: string
  cv_identity :: certificate_identity

definition cert_matches :: "certificate_identity \<Rightarrow> certificate_identity \<Rightarrow> bool" where
  "cert_matches self expected =
     (if ci_spki_sha256 expected = None \<and> ci_subject_dn expected = None \<and> ci_sans expected = []
      then False
      else if (case ci_spki_sha256 expected of None \<Rightarrow> False
          | Some e \<Rightarrow> (case ci_spki_sha256 self of None \<Rightarrow> True | Some p \<Rightarrow> p \<noteq> e))
      then False
      else if ci_subject_dn expected \<noteq> None \<and> ci_subject_dn self \<noteq> ci_subject_dn expected
      then False
      else if ci_sans expected \<noteq> [] \<and> \<not> set (ci_sans expected) \<subseteq> set (ci_sans self)
      then False
      else True)"

definition verify_certificate_identity ::
    "certificate_identity \<Rightarrow> string \<Rightarrow> certificate_identity \<Rightarrow> cert_verified_peer result" where
  "verify_certificate_identity presented node_id expected =
     (if \<not> cert_matches presented expected
      then Inl (UnauthorizedCertificateIdentity ''cert_identity_mismatch'')
      else Inr \<lparr>cv_node_id = node_id, cv_identity = presented\<rparr>)"

section \<open>Audit records\<close>

text \<open>
  The dictionary display \<open>optional\<close> without its \<^verbatim>\<open>None\<close> values; a host value \<open>JNull\<close> is
  \<^verbatim>\<open>None\<close>.
\<close>

definition audit_record ::
    "datetime \<Rightarrow> string \<Rightarrow> string option \<Rightarrow> string option \<Rightarrow> string option \<Rightarrow> string option \<Rightarrow>
      int option \<Rightarrow> string option \<Rightarrow> string option \<Rightarrow> obj option \<Rightarrow> obj" where
  "audit_record now event request_id operation_id source_node_id target_node_id manifest_revision
      decision reason extra =
     (let record0 = [(''timestamp'', JStr (iso_instant now)), (''event'', JStr event)];
          record1 = dict_update record0
            (opt_field ''request_id'' JStr request_id @ opt_field ''operation_id'' JStr operation_id
             @ opt_field ''source_node_id'' JStr source_node_id
             @ opt_field ''target_node_id'' JStr target_node_id
             @ opt_field ''manifest_revision'' JInt manifest_revision
             @ opt_field ''decision'' JStr decision @ opt_field ''reason'' JStr reason) in
      case extra of None \<Rightarrow> record1
      | Some e \<Rightarrow> dict_update record1 (filter (\<lambda>(k, v). v \<noteq> JNull) e))"

lemma rev_opt_field: "rev (opt_field k enc v) = opt_field k enc v"
  by (cases v) auto

lemma add_opt_field:
  "(m ++ map_of (opt_field k enc v)) k' = (if k' = k \<and> v \<noteq> None then map_option enc v else m k')"
  by (cases v) (auto simp: map_add_def)

lemma audit_base:
  "dict_get (audit_record now event rid oid src tgt mrev dec reason None) k =
    (if k = ''reason'' \<and> reason \<noteq> None then map_option JStr reason
     else if k = ''decision'' \<and> dec \<noteq> None then map_option JStr dec
     else if k = ''manifest_revision'' \<and> mrev \<noteq> None then map_option JInt mrev
     else if k = ''target_node_id'' \<and> tgt \<noteq> None then map_option JStr tgt
     else if k = ''source_node_id'' \<and> src \<noteq> None then map_option JStr src
     else if k = ''operation_id'' \<and> oid \<noteq> None then map_option JStr oid
     else if k = ''request_id'' \<and> rid \<noteq> None then map_option JStr rid
     else if k = ''timestamp'' then Some (JStr (iso_instant now))
     else if k = ''event'' then Some (JStr event) else None)"
  by (simp only: audit_record_def Let_def option.case dict_update_def map_of_fold_update rev_append
      rev_opt_field map_of_append map_add_assoc add_opt_field map_of.simps fun_upd_apply fst_conv snd_conv)

section \<open>Properties\<close>

text \<open>
  C32: A presented certificate identity is accepted exactly when the expected identity names at
  least one constraint (it fails closed otherwise) and every named one holds: the same key
  digest, the same subject, all expected alternative names among the presented ones. The peer
  that results is the host's node with the presented identity.
\<close>

theorem certificate_identity_iff:
  "verify_certificate_identity presented node_id expected = Inr p \<longleftrightarrow>
     p = \<lparr>cv_node_id = node_id, cv_identity = presented\<rparr> \<and>
     \<not> (ci_spki_sha256 expected = None \<and> ci_subject_dn expected = None \<and> ci_sans expected = []) \<and>
     ci_spki_sha256 expected \<in> {None, ci_spki_sha256 presented} \<and>
     ci_subject_dn expected \<in> {None, ci_subject_dn presented} \<and>
     set (ci_sans expected) \<subseteq> set (ci_sans presented)"
  by (auto simp: verify_certificate_identity_def cert_matches_def split: option.splits if_splits)

text \<open>
  An audit record never holds a \<^verbatim>\<open>None\<close>: a host value that is one is dropped, any other
  host value wins over the record's own field of that name, timestamp included, and the rest is
  what the caller named.
\<close>

theorem audit_record_fields:
  assumes "dict_wf extra"
  shows "dict_get (audit_record now event rid oid src tgt mrev dec reason (Some extra)) k =
    (if dict_get extra k \<notin> {None, Some JNull} then dict_get extra k
     else dict_get (audit_record now event rid oid src tgt mrev dec reason None) k) \<and>
    dict_get (audit_record now event rid oid src tgt mrev dec reason None) k =
    (if k = ''timestamp'' then Some (JStr (iso_instant now)) else if k = ''event'' then Some (JStr event)
     else if k = ''request_id'' then map_option JStr rid else if k = ''operation_id'' then map_option JStr oid
     else if k = ''source_node_id'' then map_option JStr src else if k = ''target_node_id'' then map_option JStr tgt
     else if k = ''manifest_revision'' then map_option JInt mrev
     else if k = ''decision'' then map_option JStr dec else if k = ''reason'' then map_option JStr reason
     else None)"
proof -
  have "dict_wf (filter (\<lambda>(k, v). v \<noteq> JNull) extra)"
    using assms by (induction extra) (auto simp: dict_wf_def)
  moreover have "dict_get (filter (\<lambda>(k, v). v \<noteq> JNull) extra) k =
      (if dict_get extra k = Some JNull then None else dict_get extra k)"
    using assms by (induction extra) (auto simp: dict_wf_def, simp add: map_of_eq_None_iff)
  ultimately have "dict_get (audit_record now event rid oid src tgt mrev dec reason (Some extra)) k =
    (if dict_get extra k \<notin> {None, Some JNull} then dict_get extra k
     else dict_get (audit_record now event rid oid src tgt mrev dec reason None) k)"
    by (auto simp: audit_record_def Let_def dict_get_update split: option.splits)
  then show ?thesis
    by (auto simp: audit_base)
qed

lemma audit_record_fields_witness:
  "dict_get (audit_record 0 ''denied'' None None (Some ''a'') None None None (Some ''replay'')
      (Some [(''reason'', JStr ''other''), (''source_node_id'', JNull)])) ''reason'' = Some (JStr ''other'')"
proof -
  have "dict_wf [(''reason'', JStr ''other''), (''source_node_id'', JNull)]"
    by (simp add: dict_wf_def)
  from audit_record_fields [OF this, of 0 "''denied''" None None "Some ''a''" None None None
      "Some ''replay''" "''reason''"]
  show ?thesis by simp
qed

end
