(* ===== verification/Node.thy ===== *)
theory Node
  imports Refresh Discovery Bootstrap
begin

text \<open>
  The stateful facade (\<^verbatim>\<open>node.py\<close>, \<^verbatim>\<open>protocols/manifest_store.py\<close>). The configuration of a
  node is \<open>federation_node\<close>, the two stores a host injects are behind \<open>ports\<close>; what changes is
  \<open>node_state\<close>: what is behind the membership port, the manifest cache and, when injected, what
  is behind the manifest port. An operation of a store may raise; each method returns the state
  it has reached also when it raises. Methods run one after the other here, their interleavings
  are in \<^verbatim>\<open>Node_Race\<close>.
\<close>

section \<open>Configuration and state\<close>

record 'w federation_node =
  fn_node_id :: string
  fn_federation_id :: string
  fn_key :: bytes
  fn_key_id :: string
  fn_admission_policy :: "'w admission_policy"
  fn_manifest_revision :: int
  fn_allow_private :: bool

definition node_client :: "'w federation_node \<Rightarrow> federation_client" where
  "node_client n = \<lparr>fc_node_id = fn_node_id n, fc_federation_id = fn_federation_id n,
     fc_key = fn_key n, fc_key_id = fn_key_id n, fc_manifest_revision = fn_manifest_revision n,
     fc_allow_private = fn_allow_private n\<rparr>"

record 's manifest_store =
  ms_upsert :: "manifest \<Rightarrow> ('s, unit) io"
  ms_delete :: "string \<Rightarrow> ('s, unit) io"
  ms_values :: "('s, manifest list) io"

record ('t, 's) ports =
  po_members :: "'t membership_store"
  po_manifests :: "'s manifest_store"

record ('t, 's) node_state =
  nd_table :: 't
  nd_manifests :: "(string, manifest) dict"
  nd_store :: "'s option"

text \<open>An operation of the membership store, and one of the manifest store if there is one.\<close>

definition on_table :: "('t, 'a) io \<Rightarrow> (('t, 's) node_state, 'a) io" where
  "on_table f s = (case f (nd_table s) of (r, t) \<Rightarrow> (r, s\<lparr>nd_table := t\<rparr>))"

definition on_store :: "('s, unit) io \<Rightarrow> (('t, 's) node_state, unit) io" where
  "on_store f s =
     (case nd_store s of
        None \<Rightarrow> (Inr (), s)
      | Some st \<Rightarrow> (case f st of (r, st') \<Rightarrow> (r, s\<lparr>nd_store := Some st'\<rparr>)))"

section \<open>The manifest cache and its store\<close>

definition remember_manifest :: "('t, 's) ports \<Rightarrow> manifest \<Rightarrow> (('t, 's) node_state, unit) io" where
  "remember_manifest Q m s =
     on_store (ms_upsert (po_manifests Q) m)
       (s\<lparr>nd_manifests := dict_set (mf_node_id m) m (nd_manifests s)\<rparr>)"

definition forget_manifest :: "('t, 's) ports \<Rightarrow> string \<Rightarrow> (('t, 's) node_state, unit) io" where
  "forget_manifest Q node_id s =
     on_store (ms_delete (po_manifests Q) node_id)
       (s\<lparr>nd_manifests := dict_pop node_id (nd_manifests s)\<rparr>)"

definition hydrate :: "('t, 's) ports \<Rightarrow> (('t, 's) node_state, unit) io" where
  "hydrate Q s =
     (case nd_store s of
        None \<Rightarrow> (Inr (), s)
      | Some st \<Rightarrow>
          if nd_manifests s = []
          then (case ms_values (po_manifests Q) st of
              (Inl e, st') \<Rightarrow> (Inl e, s\<lparr>nd_store := Some st'\<rparr>)
            | (Inr ms, st') \<Rightarrow>
                (Inr (), s\<lparr>nd_store := Some st', nd_manifests := dict_by mf_node_id ms\<rparr>))
          else (Inr (), s))"

section \<open>Inbound requests\<close>

definition verify_inbound ::
    "'w federation_node \<Rightarrow> crypto_lib \<Rightarrow> (string \<Rightarrow> signed_request result) \<Rightarrow> datetime \<Rightarrow>
      string option \<Rightarrow> manifest \<Rightarrow> string \<Rightarrow> string \<Rightarrow> bytes \<Rightarrow> int option \<Rightarrow> int \<Rightarrow>
      'c nonce_set option \<Rightarrow> 'c \<Rightarrow> verified_peer result \<times> 'c" where
  "verify_inbound n L validate_json now header peer_manifest verb path body maxb skew cache c =
     verify_peer_request L validate_json now header peer_manifest (fn_node_id n) verb path body
       maxb skew cache c"

definition verify_known_inbound ::
    "'w federation_node \<Rightarrow> crypto_lib \<Rightarrow> (string \<Rightarrow> signed_request result) \<Rightarrow> datetime \<Rightarrow>
      ('t, 's) node_state \<Rightarrow> string option \<Rightarrow> string \<Rightarrow> string \<Rightarrow> string \<Rightarrow> bytes \<Rightarrow> int option \<Rightarrow> int \<Rightarrow>
      'c nonce_set option \<Rightarrow> 'c \<Rightarrow> verified_peer result \<times> 'c" where
  "verify_known_inbound n L validate_json now s header source_node_id verb path body maxb skew cache c =
     (case dict_get (nd_manifests s) source_node_id of
        None \<Rightarrow> (Inl (UnauthorizedPeerRequest ''unknown_peer''), c)
      | Some m \<Rightarrow> verify_inbound n L validate_json now header m verb path body maxb skew cache c)"

section \<open>Admission\<close>

definition node_sign_manifest ::
    "'w federation_node \<Rightarrow> crypto_lib \<Rightarrow> (json \<Rightarrow> manifest result) \<Rightarrow> manifest \<Rightarrow> manifest result" where
  "node_sign_manifest n L validate m = sign_manifest L validate m (fn_key n) (fn_key_id n)"

definition is_revoked :: "member_record option \<Rightarrow> bool" where
  "is_revoked found = (case found of None \<Rightarrow> False | Some r \<Rightarrow> rec_state r = REVOKED)"

definition record_peer ::
    "('t, 's) ports \<Rightarrow> datetime \<Rightarrow> manifest \<Rightarrow> string \<Rightarrow> (('t, 's) node_state, unit) io" where
  "record_peer Q now m url =
     io_bind (on_table (tb_get (po_members Q) (mf_node_id m))) (\<lambda>existing.
       if is_revoked existing then io_lift (Inr ())
       else io_bind (remember_manifest Q m) (\<lambda>_.
         on_table (tb_upsert (po_members Q) (discovered_record m url now))))"

text \<open>\<^verbatim>\<open>manifest_url or manifest.manifest_url\<close>\<close>

definition resolved_url :: "string option \<Rightarrow> manifest \<Rightarrow> string option" where
  "resolved_url url m =
     (case url of None \<Rightarrow> mf_manifest_url m | Some u \<Rightarrow> if u = [] then mf_manifest_url m else Some u)"

definition admit_peer ::
    "'w outside \<Rightarrow> ('t, 's) ports \<Rightarrow> 'w federation_node \<Rightarrow> manifest \<Rightarrow> string option \<Rightarrow> int \<Rightarrow>
      ('t, 's) node_state \<Rightarrow> 'w \<Rightarrow> admission_decision result \<times> ('t, 's) node_state \<times> 'w" where
  "admit_peer E Q n m manifest_url skew s w =
     (case admit_manifest (out_crypto E) (out_now E w) m (fn_admission_policy n) skew w of
        (Inl e, w') \<Rightarrow> (Inl e, s, w')
      | (Inr d, w') \<Rightarrow>
          if \<not> ad_accepted d then (Inr d, s, w')
          else (case resolved_url manifest_url m of
              None \<Rightarrow> (Inr d, s, w')
            | Some url \<Rightarrow> (case record_peer Q (out_now E w') m url s of
                (Inl e, s') \<Rightarrow> (Inl e, s', w')
              | (Inr _, s') \<Rightarrow> (Inr d, s', w'))))"

definition introduce_to ::
    "'w outside \<Rightarrow> 'w federation_node \<Rightarrow> manifest \<Rightarrow> introduce_request \<Rightarrow> ('w, introduce_response) io" where
  "introduce_to E n peer intro = client_introduce E (node_client n) peer intro"

text \<open>Recording the accepted seeds reads the clock between the awaits; no other effect is visible.\<close>

fun record_seeds ::
    "('t, 's) ports \<Rightarrow> datetime \<Rightarrow> bootstrap_outcome list \<Rightarrow> (('t, 's) node_state, unit) io" where
  "record_seeds Q now [] s = (Inr (), s)"
| "record_seeds Q now (o1 # os) s =
     io_bind (case bo_seed_manifest o1 of
          None \<Rightarrow> io_lift (Inr ())
        | Some m \<Rightarrow> record_peer Q now m (bo_seed_manifest_url o1))
       (\<lambda>_. record_seeds Q now os) s"

definition node_bootstrap ::
    "'w outside \<Rightarrow> ('t, 's) ports \<Rightarrow> 'w federation_node \<Rightarrow> string list \<Rightarrow> string \<Rightarrow> manifest \<Rightarrow>
      string \<Rightarrow> int \<Rightarrow> ('t, 's) node_state \<Rightarrow> 'w \<Rightarrow>
      bootstrap_report result \<times> ('t, 's) node_state \<times> 'w" where
  "node_bootstrap E Q n seed_urls local_url local_m disclosure_level skew s w =
     (case bootstrap_from_seeds E (node_client n) seed_urls local_url local_m
         (fn_admission_policy n) disclosure_level skew w of
        (Inl e, w') \<Rightarrow> (Inl e, s, w')
      | (Inr report, w') \<Rightarrow>
          (case record_seeds Q (out_now E w') (br_accepted report) s of
             (Inl e, s') \<Rightarrow> (Inl e, s', w')
           | (Inr _, s') \<Rightarrow> (Inr report, s', w')))"

fun remember_discovered ::
    "('t, 's) ports \<Rightarrow> discovery_outcome list \<Rightarrow> (('t, 's) node_state, unit) io" where
  "remember_discovered Q [] s = (Inr (), s)"
| "remember_discovered Q (o1 # os) s =
     io_bind (case do_manifest o1 of None \<Rightarrow> io_lift (Inr ()) | Some m \<Rightarrow> remember_manifest Q m)
       (\<lambda>_. remember_discovered Q os) s"

definition discover ::
    "'w outside \<Rightarrow> ('t, 's) ports \<Rightarrow> 'w federation_node \<Rightarrow> int \<Rightarrow> int \<Rightarrow> string option \<Rightarrow>
      ('t, 's) node_state \<Rightarrow> 'w \<Rightarrow> discovery_report result \<times> ('t, 's) node_state \<times> 'w" where
  "discover E Q n skew per_peer_cap since s w =
     (case refresh_discovered_members (po_members Q) E (node_client n) (nd_table s) (nd_manifests s)
         (fn_admission_policy n) skew per_peer_cap since w of
        (Inl e, t, w') \<Rightarrow> (Inl e, s\<lparr>nd_table := t\<rparr>, w')
      | (Inr report, t, w') \<Rightarrow>
          (case remember_discovered Q (dr_accepted report) (s\<lparr>nd_table := t\<rparr>) of
             (Inl e, s') \<Rightarrow> (Inl e, s', w')
           | (Inr _, s') \<Rightarrow> (Inr report, s', w')))"

section \<open>Refreshing\<close>

definition put_found ::
    "('t, 's) ports \<Rightarrow> member_record option \<Rightarrow> (member_record \<Rightarrow> member_record) \<Rightarrow>
      (('t, 's) node_state, unit) io" where
  "put_found Q rec f =
     (case rec of None \<Rightarrow> io_lift (Inr ()) | Some r \<Rightarrow> on_table (tb_upsert (po_members Q) (f r)))"

definition apply_refresh_decision ::
    "('t, 's) ports \<Rightarrow> datetime \<Rightarrow> string \<Rightarrow> manifest_refresh_decision \<Rightarrow>
      (('t, 's) node_state, unit) io" where
  "apply_refresh_decision Q now node_id d =
     io_bind (on_table (tb_get (po_members Q) node_id)) (\<lambda>rec.
       case md_action d of
         RF_quarantine \<Rightarrow> put_found Q rec (set_state STALE_MANIFEST now)
       | RF_reject \<Rightarrow>
           io_bind (put_found Q rec (set_state REJECTED now)) (\<lambda>_. forget_manifest Q node_id)
       | _ \<Rightarrow> (case md_manifest d of
             None \<Rightarrow> io_lift (Inr ())
           | Some m \<Rightarrow> io_bind (remember_manifest Q m) (\<lambda>_.
               put_found Q rec (\<lambda>r. admit None now (r\<lparr>rec_manifest_revision := mf_revision m\<rparr>)))))"

definition unknown_peer_decision :: manifest_refresh_decision where
  "unknown_peer_decision = no_manifest RF_reject ''unknown_peer'' None"

definition refresh_peer ::
    "'w outside \<Rightarrow> ('t, 's) ports \<Rightarrow> 'w federation_node \<Rightarrow> string \<Rightarrow> 'w key_continuity_policy option \<Rightarrow>
      int \<Rightarrow> ('t, 's) node_state \<Rightarrow> 'w \<Rightarrow>
      manifest_refresh_decision result \<times> ('t, 's) node_state \<times> 'w" where
  "refresh_peer E Q n node_id kp skew s w =
     (case on_table (tb_get (po_members Q) node_id) s of
        (Inl e, s1) \<Rightarrow> (Inl e, s1, w)
      | (Inr rec, s1) \<Rightarrow>
        (case (rec, dict_get (nd_manifests s1) node_id) of
           (Some r, Some m) \<Rightarrow>
             (case refresh_peer_manifest E (node_client n) m (rec_manifest_url r) kp skew w of
                (Inl e, w') \<Rightarrow> (Inl e, s1, w')
              | (Inr d, w') \<Rightarrow> (case apply_refresh_decision Q (out_now E w') node_id d s1 of
                  (Inl e, s2) \<Rightarrow> (Inl e, s2, w')
                | (Inr _, s2) \<Rightarrow> (Inr d, s2, w')))
         | _ \<Rightarrow> (Inr unknown_peer_decision, s1, w)))"

text \<open>The loop over the eligible peers: the targets and the decisions so far.\<close>

fun refresh_targets ::
    "('t, 's) ports \<Rightarrow> datetime \<Rightarrow> member_record list \<Rightarrow>
      (('t, 's) node_state, (manifest \<times> string) list \<times> (string, manifest_refresh_decision) dict) io"
  where
  "refresh_targets Q now [] s = (Inr ([], []), s)"
| "refresh_targets Q now (r # rs) s =
     (case dict_get (nd_manifests s) (rec_node_id r) of
        None \<Rightarrow> io_bind (apply_refresh_decision Q now (rec_node_id r) unknown_peer_decision) (\<lambda>_.
          io_bind (refresh_targets Q now rs) (\<lambda>(targets, ds).
            io_lift (Inr (targets, dict_update [(rec_node_id r, unknown_peer_decision)] ds)))) s
      | Some m \<Rightarrow> io_bind (refresh_targets Q now rs) (\<lambda>(targets, ds).
          io_lift (Inr ((m, rec_manifest_url r) # targets, ds))) s)"

fun apply_decisions ::
    "('t, 's) ports \<Rightarrow> datetime \<Rightarrow> (string \<times> manifest_refresh_decision) list \<Rightarrow>
      (('t, 's) node_state, unit) io" where
  "apply_decisions Q now [] s = (Inr (), s)"
| "apply_decisions Q now ((node_id, d) # ds) s =
     io_bind (apply_refresh_decision Q now node_id d) (\<lambda>_. apply_decisions Q now ds) s"

definition node_refresh_all ::
    "'w outside \<Rightarrow> ('t, 's) ports \<Rightarrow> 'w federation_node \<Rightarrow> 'w key_continuity_policy option \<Rightarrow> int \<Rightarrow>
      ('t, 's) node_state \<Rightarrow> 'w \<Rightarrow>
      (string, manifest_refresh_decision) dict result \<times> ('t, 's) node_state \<times> 'w" where
  "node_refresh_all E Q n kp skew s w =
     (case io_bind (on_table (eligible_peers (po_members Q) (out_now E w)))
         (refresh_targets Q (out_now E w)) s of
        (Inl e, s1) \<Rightarrow> (Inl e, s1, w)
      | (Inr (targets, unknown), s1) \<Rightarrow>
          (case refresh_all_manifests E (node_client n) targets kp skew w of
             (Inl e, w') \<Rightarrow> (Inl e, s1, w')
           | (Inr refreshed, w') \<Rightarrow>
               let decisions = dict_update unknown refreshed in
               (case apply_decisions Q (out_now E w') decisions s1 of
                  (Inl e, s2) \<Rightarrow> (Inl e, s2, w')
                | (Inr _, s2) \<Rightarrow> (Inr decisions, s2, w'))))"

section \<open>Selection and revocation\<close>

definition select_peers ::
    "('t, 's) ports \<Rightarrow> datetime \<Rightarrow> (('t, 's) node_state, manifest list) io" where
  "select_peers Q now =
     io_bind (on_table (eligible_peers (po_members Q) now)) (\<lambda>rs s.
       (Inr (List.map_filter (\<lambda>r. dict_get (nd_manifests s) (rec_node_id r)) rs), s))"

definition node_apply_revocation ::
    "('t, 's) ports \<Rightarrow> 'w federation_node \<Rightarrow> crypto_lib \<Rightarrow> datetime \<Rightarrow> revocation_notice \<Rightarrow>
      (string, jwk) dict \<Rightarrow> (revocation_notice \<Rightarrow> bool) \<Rightarrow>
      (('t, 's) node_state, peer_state option) io" where
  "node_apply_revocation Q n L now notice trusted authorize =
     io_bind (on_table (apply_revocation_notice (po_members Q) L now notice (fn_federation_id n)
         trusted authorize)) (\<lambda>st.
       if st = Some REVOKED
       then io_bind (forget_manifest Q (rn_revoked_node_id notice)) (\<lambda>_. io_lift (Inr st))
       else io_lift (Inr st))"

end
