(* ===== verification/Node_Inv.thy ===== *)
theory Node_Inv
  imports Node Toy_Outside
begin

text \<open>
  What a node's operations leave alone. The two stores are used only through their ports, whose
  contracts are the locale \<open>node_ports\<close>; inside it, every operation is shown to touch only the
  peers it is about, to keep everything filed under its own id, and, when the manifest store
  does not raise, to keep it in step with the cache. The in-memory stores interpret the locale.
\<close>

section \<open>What a node holds about a peer\<close>

text \<open>What the two stores hold, what they make of what they are given, and which of their states are sound.\<close>

record ('t, 's) node_views =
  nv_members :: "'t \<Rightarrow> string \<Rightarrow> member_record option"
  nv_keep_member :: "member_record \<Rightarrow> member_record"
  nv_members_ok :: "'t \<Rightarrow> bool"
  nv_manifests :: "'s \<Rightarrow> string \<Rightarrow> manifest option"
  nv_keep_manifest :: "manifest \<Rightarrow> manifest"
  nv_manifests_ok :: "'s \<Rightarrow> bool"

definition known :: "('t, 's) node_views \<Rightarrow> ('t, 's) node_state \<Rightarrow> string \<Rightarrow> member_record option" where
  "known V s = nv_members V (nd_table s)"

definition cached :: "('t, 's) node_state \<Rightarrow> string \<Rightarrow> manifest option" where
  "cached s = dict_get (nd_manifests s)"

definition stored :: "('t, 's) node_views \<Rightarrow> ('t, 's) node_state \<Rightarrow> string \<Rightarrow> manifest option" where
  "stored V s = (case nd_store s of None \<Rightarrow> (\<lambda>_. None) | Some st \<Rightarrow> nv_manifests V st)"

definition well_kept :: "('t, 's) node_views \<Rightarrow> ('t, 's) node_state \<Rightarrow> bool" where
  "well_kept V s \<longleftrightarrow> nv_members_ok V (nd_table s) \<and> keyed_by mf_node_id (nd_manifests s) \<and>
     (\<forall>st. nd_store s = Some st \<longrightarrow> nv_manifests_ok V st)"

definition revoked :: "('t, 's) node_views \<Rightarrow> ('t, 's) node_state \<Rightarrow> string \<Rightarrow> bool" where
  "revoked V s k \<longleftrightarrow> is_revoked (known V s k)"

text \<open>A revoked peer with neither a cached nor a stored manifest.\<close>

definition gone :: "('t, 's) node_views \<Rightarrow> string \<Rightarrow> ('t, 's) node_state \<Rightarrow> bool" where
  "gone V k s \<longleftrightarrow> revoked V s k \<and> cached s k = None \<and> stored V s k = None"

text \<open>The manifest store, if there is one, holds exactly the cached manifests, as it keeps them.\<close>

definition synced :: "('t, 's) node_views \<Rightarrow> ('t, 's) node_state \<Rightarrow> bool" where
  "synced V s \<longleftrightarrow> nd_store s = None \<or> stored V s = (\<lambda>k. map_option (nv_keep_manifest V) (cached s k))"

definition manifests_reliable :: "('t, 's) ports \<Rightarrow> bool" where
  "manifests_reliable Q \<longleftrightarrow> (\<forall>m. never_raises (ms_upsert (po_manifests Q) m)) \<and>
     (\<forall>k. never_raises (ms_delete (po_manifests Q) k))"

text \<open>From one state to another only peers of \<open>K\<close> have been touched.\<close>

definition touches ::
    "('t, 's) ports \<Rightarrow> ('t, 's) node_views \<Rightarrow> string set \<Rightarrow> ('t, 's) node_state \<Rightarrow> ('t, 's) node_state \<Rightarrow> bool"
  where
  "touches Q V K s s' \<longleftrightarrow> well_kept V s' \<and>
     (\<forall>k. k \<notin> K \<longrightarrow> known V s' k = known V s k \<and> cached s' k = cached s k \<and> stored V s' k = stored V s k) \<and>
     (manifests_reliable Q \<longrightarrow> synced V s \<longrightarrow> synced V s')"

lemma touches_refl: "well_kept V s \<Longrightarrow> touches Q V K s s"
  by (simp add: touches_def)

lemma touches_trans: "touches Q V K s s1 \<Longrightarrow> touches Q V K s1 s2 \<Longrightarrow> touches Q V K s s2"
  by (simp add: touches_def)

lemma touches_mono: "touches Q V J s s' \<Longrightarrow> J \<subseteq> K \<Longrightarrow> touches Q V K s s'"
  by (auto simp: touches_def)

lemma touches_kept: "touches Q V K s s' \<Longrightarrow> well_kept V s'"
  by (simp add: touches_def)

lemma touches_gone: "touches Q V K s s' \<Longrightarrow> k \<notin> K \<Longrightarrow> gone V k s' = gone V k s"
  by (simp add: touches_def gone_def revoked_def)

lemma touches_bind:
  assumes "io_bind m f s = (q, s')"
    and "\<And>r s1. m s = (r, s1) \<Longrightarrow> touches Q V K s s1"
    and "\<And>x s1. m s = (Inr x, s1) \<Longrightarrow> f x s1 = (q, s') \<Longrightarrow> well_kept V s1 \<Longrightarrow> touches Q V K s1 s'"
  shows "touches Q V K s s'"
  using assms(1)
proof (cases rule: io_bind_cases)
  case raised
  with assms(2) show ?thesis by blast
next
  case (went x s1)
  with assms(2,3) touches_kept touches_trans show ?thesis by blast
qed

lemma select_simps [simp]:
  "known V (s\<lparr>nd_manifests := d\<rparr>) = known V s" "known V (s\<lparr>nd_store := st\<rparr>) = known V s"
  "cached (s\<lparr>nd_table := t\<rparr>) = cached s" "cached (s\<lparr>nd_store := st\<rparr>) = cached s"
  "stored V (s\<lparr>nd_table := t\<rparr>) = stored V s" "stored V (s\<lparr>nd_manifests := d\<rparr>) = stored V s"
  by (simp_all add: known_def cached_def stored_def)

section \<open>The ports of a node\<close>

text \<open>Two manifests with the same signed content, keys and signature; a store keeps all that.\<close>

definition same_content :: "manifest \<Rightarrow> manifest \<Rightarrow> bool" where
  "same_content m m' \<longleftrightarrow> dump_manifest m' = dump_manifest m \<and> mf_node_id m' = mf_node_id m \<and>
     mf_public_keys m' = mf_public_keys m \<and> mf_signature m' = mf_signature m"

lemma same_content_refl [simp]: "same_content m m"
  by (simp add: same_content_def)

lemma same_content_id: "same_content m m' \<Longrightarrow> mf_node_id m' = mf_node_id m"
  by (simp add: same_content_def)

locale node_ports =
  members: membership_port "po_members Q" "nv_keep_member V" "nv_members V" "nv_members_ok V" +
  manifests: store_port "ms_upsert (po_manifests Q)" "ms_delete (po_manifests Q)"
    "ms_values (po_manifests Q)" mf_node_id "nv_keep_manifest V" "nv_manifests V" "nv_manifests_ok V"
  for Q :: "('t, 's) ports" and V :: "('t, 's) node_views" +
  assumes keep_content: "same_content m (nv_keep_manifest V m)"
begin

lemma record_id: "well_kept V s \<Longrightarrow> known V s k = Some r \<Longrightarrow> rec_node_id r = k"
  by (auto simp: known_def well_kept_def dest: members.view_key)

lemma keep_state: "rec_state (nv_keep_member V r) = rec_state r"
  by (rule members.state_kept)

lemma cached_id: "well_kept V s \<Longrightarrow> cached s k = Some m \<Longrightarrow> mf_node_id m = k"
  by (auto simp: cached_def well_kept_def dest: keyed_by_get)

subsection \<open>Elementary effects\<close>

lemma lookup_effect:
  assumes "well_kept V s" "on_table (tb_get (po_members Q) k) s = (q, s')"
  shows "touches Q V {} s s'" "q = Inr x \<Longrightarrow> x = known V s k"
proof -
  obtain t where t: "tb_get (po_members Q) k (nd_table s) = (q, t)" "s' = s\<lparr>nd_table := t\<rparr>"
    using assms(2) by (auto simp: on_table_def split: prod.splits)
  have "nv_members_ok V (nd_table s)" using assms(1) by (simp add: well_kept_def)
  note got = members.get_view [OF this t(1)]
  show "touches Q V {} s s'"
    using assms(1) got t(2) by (simp add: touches_def well_kept_def synced_def known_def)
  show "q = Inr x \<Longrightarrow> x = known V s k"
    using got by (simp add: known_def)
qed

lemma eligible_effect:
  assumes "well_kept V s" "on_table (eligible_peers (po_members Q) now) s = (q, s')"
  shows "touches Q V {} s s'"
    and "q = Inr rs \<Longrightarrow> r \<in> set rs \<longleftrightarrow> known V s (rec_node_id r) = Some r \<and> is_eligible now r"
proof -
  obtain t where t: "eligible_peers (po_members Q) now (nd_table s) = (q, t)" "s' = s\<lparr>nd_table := t\<rparr>"
    using assms(2) by (auto simp: on_table_def split: prod.splits)
  have "nv_members_ok V (nd_table s)" using assms(1) by (simp add: well_kept_def)
  note got = members.eligible_view [OF this t(1)]
  show "touches Q V {} s s'"
    using assms(1) got t(2) by (simp add: touches_def well_kept_def synced_def known_def)
  show "q = Inr rs \<Longrightarrow> r \<in> set rs \<longleftrightarrow> known V s (rec_node_id r) = Some r \<and> is_eligible now r"
    using got by (simp add: known_def)
qed

lemma put_effect:
  assumes "well_kept V s" "on_table (tb_upsert (po_members Q) r) s = (q, s')"
  shows "touches Q V {rec_node_id r} s s'" "cached s' = cached s" "stored V s' = stored V s"
    and "known V s' = (known V s)(rec_node_id r \<mapsto> nv_keep_member V r) \<or> isl q \<and> known V s' = known V s"
proof -
  obtain t where t: "tb_upsert (po_members Q) r (nd_table s) = (q, t)" "s' = s\<lparr>nd_table := t\<rparr>"
    using assms(2) by (auto simp: on_table_def split: prod.splits)
  have "nv_members_ok V (nd_table s)" using assms(1) by (simp add: well_kept_def)
  note up = members.upsert_view [OF this t(1)]
  show put: "known V s' = (known V s)(rec_node_id r \<mapsto> nv_keep_member V r) \<or> isl q \<and> known V s' = known V s"
    using up t(2) by (simp add: known_def)
  show "cached s' = cached s" "stored V s' = stored V s"
    by (simp_all add: t(2))
  show "touches Q V {rec_node_id r} s s'"
    using assms(1) up t(2) put by (auto simp: touches_def well_kept_def synced_def)
qed

lemma remember_effect:
  assumes "well_kept V s" "remember_manifest Q m s = (q, s')"
  shows "touches Q V {mf_node_id m} s s'" "known V s' = known V s"
    and "cached s' = (cached s)(mf_node_id m \<mapsto> m)"
    and "\<not> isl q \<Longrightarrow> nd_store s \<noteq> None \<Longrightarrow> stored V s' = (stored V s)(mf_node_id m \<mapsto> nv_keep_manifest V m)"
    and "stored V s' = (stored V s)(mf_node_id m \<mapsto> nv_keep_manifest V m) \<or> stored V s' = stored V s"
proof -
  let ?s = "s\<lparr>nd_manifests := dict_set (mf_node_id m) m (nd_manifests s)\<rparr>"
  have cached: "cached ?s = (cached s)(mf_node_id m \<mapsto> m)"
    by (simp add: cached_def fun_eq_iff)
  have kept: "well_kept V ?s"
    using assms(1) by (simp add: well_kept_def keyed_by_set)
  have "touches Q V {mf_node_id m} s s' \<and> known V s' = known V s \<and>
    cached s' = (cached s)(mf_node_id m \<mapsto> m) \<and>
    (\<not> isl q \<longrightarrow> nd_store s \<noteq> None \<longrightarrow> stored V s' = (stored V s)(mf_node_id m \<mapsto> nv_keep_manifest V m)) \<and>
    (stored V s' = (stored V s)(mf_node_id m \<mapsto> nv_keep_manifest V m) \<or> stored V s' = stored V s)"
  proof (cases "nd_store s")
    case None
    then have "s' = ?s" using assms(2) by (simp add: remember_manifest_def on_store_def)
    then show ?thesis
      using kept cached None by (simp add: touches_def synced_def)
  next
    case (Some st)
    then obtain st' where st': "ms_upsert (po_manifests Q) m st = (q, st')" "s' = ?s\<lparr>nd_store := Some st'\<rparr>"
      using assms(2) by (auto simp: remember_manifest_def on_store_def split: prod.splits)
    have "nv_manifests_ok V st" using assms(1) Some by (simp add: well_kept_def)
    note up = manifests.upsert_view [OF this st'(1)]
    have stored: "stored V s = nv_manifests V st" "stored V s' = nv_manifests V st'"
      using Some st'(2) by (simp_all add: stored_def)
    have "\<not> isl q" if "manifests_reliable Q"
      using that st'(1) unfolding manifests_reliable_def never_raises_def
      by (metis Inl_Inr_False fst_conv isl_def)
    moreover have "well_kept V s'"
      using kept up st'(2) by (simp add: well_kept_def)
    ultimately show ?thesis
      using up cached stored Some st'(2) by (auto simp: touches_def synced_def)
  qed
  then show "touches Q V {mf_node_id m} s s'" "known V s' = known V s"
    "cached s' = (cached s)(mf_node_id m \<mapsto> m)"
    "\<not> isl q \<Longrightarrow> nd_store s \<noteq> None \<Longrightarrow> stored V s' = (stored V s)(mf_node_id m \<mapsto> nv_keep_manifest V m)"
    "stored V s' = (stored V s)(mf_node_id m \<mapsto> nv_keep_manifest V m) \<or> stored V s' = stored V s"
    by blast+
qed

lemma forget_effect:
  assumes "well_kept V s" "forget_manifest Q k s = (q, s')"
  shows "touches Q V {k} s s'" "known V s' = known V s" "cached s' = (cached s)(k := None)"
    and "stored V s' = (stored V s)(k := None) \<or> isl q \<and> stored V s' = stored V s"
proof -
  let ?s = "s\<lparr>nd_manifests := dict_pop k (nd_manifests s)\<rparr>"
  have cached: "cached ?s = (cached s)(k := None)"
    by (simp add: cached_def fun_eq_iff)
  have kept: "well_kept V ?s"
    using assms(1) by (simp add: well_kept_def keyed_by_pop)
  have "touches Q V {k} s s' \<and> known V s' = known V s \<and> cached s' = (cached s)(k := None) \<and>
    (stored V s' = (stored V s)(k := None) \<or> isl q \<and> stored V s' = stored V s)"
  proof (cases "nd_store s")
    case None
    then have "s' = ?s" using assms(2) by (simp add: forget_manifest_def on_store_def)
    then show ?thesis
      using kept cached None by (simp add: touches_def synced_def) (simp add: stored_def fun_eq_iff)
  next
    case (Some st)
    then obtain st' where st': "ms_delete (po_manifests Q) k st = (q, st')" "s' = ?s\<lparr>nd_store := Some st'\<rparr>"
      using assms(2) by (auto simp: forget_manifest_def on_store_def split: prod.splits)
    have "nv_manifests_ok V st" using assms(1) Some by (simp add: well_kept_def)
    note up = manifests.remove_view [OF this st'(1)]
    have stored: "stored V s = nv_manifests V st" "stored V s' = nv_manifests V st'"
      using Some st'(2) by (simp_all add: stored_def)
    have "\<not> isl q" if "manifests_reliable Q"
      using that st'(1) unfolding manifests_reliable_def never_raises_def
      by (metis Inl_Inr_False fst_conv isl_def)
    moreover have "well_kept V s'"
      using kept up st'(2) by (simp add: well_kept_def)
    ultimately show ?thesis
      using up cached stored Some st'(2) by (auto simp: touches_def synced_def)
  qed
  then show "touches Q V {k} s s'" "known V s' = known V s" "cached s' = (cached s)(k := None)"
    "stored V s' = (stored V s)(k := None) \<or> isl q \<and> stored V s' = stored V s"
    by blast+
qed

lemma stored_as_kept:
  "nv_manifests_ok V st \<Longrightarrow> (\<lambda>k. map_option (nv_keep_manifest V) (nv_manifests V st k)) = nv_manifests V st"
proof
  fix k assume "nv_manifests_ok V st"
  then show "map_option (nv_keep_manifest V) (nv_manifests V st k) = nv_manifests V st k"
    by (cases "nv_manifests V st k") (auto dest: manifests.view_kept)
qed

text \<open>Hydration fills an empty cache with what is stored, or does nothing.\<close>

lemma hydrate_effect:
  assumes "well_kept V s" "hydrate Q s = (q, s')"
  shows "well_kept V s'" "known V s' = known V s" "stored V s' = stored V s"
    "cached s' = cached s \<or> cached s' = stored V s"
    and "\<not> isl q \<Longrightarrow> nd_manifests s = [] \<Longrightarrow> nd_store s \<noteq> None \<Longrightarrow> cached s' = stored V s"
    and "synced V s \<Longrightarrow> synced V s'"
proof -
  have "well_kept V s' \<and> known V s' = known V s \<and> stored V s' = stored V s \<and>
    (cached s' = cached s \<or> cached s' = stored V s) \<and>
    (\<not> isl q \<longrightarrow> nd_manifests s = [] \<longrightarrow> nd_store s \<noteq> None \<longrightarrow> cached s' = stored V s) \<and>
    (synced V s \<longrightarrow> synced V s')"
  proof (cases "nd_store s = None \<or> nd_manifests s \<noteq> []")
    case True
    then have "s' = s" using assms(2) by (auto simp: hydrate_def split: option.splits)
    with assms(1) True show ?thesis by auto
  next
    case False
    then obtain st where st: "nd_store s = Some st" and empty: "nd_manifests s = []" by auto
    obtain v st' where v: "ms_values (po_manifests Q) st = (v, st')" by fastforce
    have ok: "nv_manifests_ok V st" using assms(1) st by (simp add: well_kept_def)
    note vals = manifests.values_view [OF ok v]
    have stored: "stored V s = nv_manifests V st" by (simp add: stored_def st)
    show ?thesis
    proof (cases v)
      case (Inl e)
      then have "s' = s\<lparr>nd_store := Some st'\<rparr>" "q = Inl e"
        using assms(2) st empty v by (simp_all add: hydrate_def)
      with vals assms(1) stored st show ?thesis
        by (simp add: well_kept_def synced_def stored_def)
    next
      case (Inr ms)
      then have s': "s' = s\<lparr>nd_store := Some st', nd_manifests := dict_by mf_node_id ms\<rparr>"
        using assms(2) st empty v by (simp add: hydrate_def)
      have "cached s' = nv_manifests V st"
        using manifests.values_ok [OF ok v [unfolded Inr]] by (simp add: s' cached_def)
      moreover have "synced V s'"
        unfolding synced_def using stored_as_kept [OF ok] vals calculation by (simp add: s' stored_def)
      ultimately show ?thesis
        using vals assms(1) stored s' by (simp add: well_kept_def stored_def keyed_by_dict_by)
    qed
  qed
  then show "well_kept V s'" "known V s' = known V s" "stored V s' = stored V s"
    "cached s' = cached s \<or> cached s' = stored V s"
    "\<not> isl q \<Longrightarrow> nd_manifests s = [] \<Longrightarrow> nd_store s \<noteq> None \<Longrightarrow> cached s' = stored V s"
    "synced V s \<Longrightarrow> synced V s'"
    by blast+
qed

subsection \<open>Operations\<close>

text \<open>An operation other than a revocation touches no peer that is gone.\<close>

lemma quiet_trans:
  assumes "touches Q V {k. \<not> gone V k s} s s1" "touches Q V {k. \<not> gone V k s1} s1 s'"
  shows "touches Q V {k. \<not> gone V k s} s s'"
proof -
  have "{k. \<not> gone V k s1} \<subseteq> {k. \<not> gone V k s}"
    using touches_gone [OF assms(1)] by auto
  then show ?thesis
    using touches_trans [OF assms(1) touches_mono [OF assms(2)]] by blast
qed

lemma lookup_bind:
  assumes "well_kept V s" "io_bind (on_table (tb_get (po_members Q) k)) f s = (q, s')"
    and "\<And>s1. touches Q V {} s s1 \<Longrightarrow> f (known V s k) s1 = (q, s') \<Longrightarrow> touches Q V K s1 s'"
  shows "touches Q V K s s'"
  using assms(2)
proof (rule touches_bind)
  show "touches Q V K s s1" if "on_table (tb_get (po_members Q) k) s = (r, s1)" for r s1
    using touches_mono [OF lookup_effect(1) [OF assms(1) that]] by simp
  show "touches Q V K s1 s'" if "on_table (tb_get (po_members Q) k) s = (Inr x, s1)" "f x s1 = (q, s')" for x s1
    using assms(3) lookup_effect [OF assms(1) that(1)] that(2) by simp
qed

lemma record_peer_touches:
  assumes "well_kept V s" "record_peer Q now m url s = (q, s')"
  shows "touches Q V (if revoked V s (mf_node_id m) then {} else {mf_node_id m}) s s'"
  using assms(1) assms(2) [unfolded record_peer_def]
proof (rule lookup_bind)
  fix s1
  assume s1: "touches Q V {} s s1"
    and run: "(if is_revoked (known V s (mf_node_id m)) then io_lift (Inr ())
      else io_bind (remember_manifest Q m)
        (\<lambda>_. on_table (tb_upsert (po_members Q) (discovered_record m url now)))) s1 = (q, s')"
  have kept: "well_kept V s1" by (rule touches_kept [OF s1])
  show "touches Q V (if revoked V s (mf_node_id m) then {} else {mf_node_id m}) s1 s'"
  proof (cases "revoked V s (mf_node_id m)")
    case True
    with run kept show ?thesis by (simp add: revoked_def touches_refl)
  next
    case False
    with run have run: "io_bind (remember_manifest Q m)
        (\<lambda>_. on_table (tb_upsert (po_members Q) (discovered_record m url now))) s1 = (q, s')"
      by (simp add: revoked_def)
    have "touches Q V {mf_node_id m} s1 s'"
      using run
    proof (rule touches_bind)
      show "touches Q V {mf_node_id m} s2 s'"
        if "on_table (tb_upsert (po_members Q) (discovered_record m url now)) s2 = (q, s')" "well_kept V s2" for s2
        using put_effect(1) [OF that(2,1)] by simp
    qed (rule remember_effect(1) [OF kept])
    with False show ?thesis by simp
  qed
qed

lemma record_peer_quiet:
  assumes "well_kept V s" "record_peer Q now m url s = (q, s')"
  shows "touches Q V {k. \<not> gone V k s} s s'"
  using record_peer_touches [OF assms] by (rule touches_mono) (auto simp: gone_def)

lemma record_seeds_quiet:
  "well_kept V s \<Longrightarrow> record_seeds Q now os s = (q, s') \<Longrightarrow> touches Q V {k. \<not> gone V k s} s s'"
proof (induction os arbitrary: s)
  case (Cons o1 os)
  let ?m = "case bo_seed_manifest o1 of None \<Rightarrow> io_lift (Inr ())
    | Some m \<Rightarrow> record_peer Q now m (bo_seed_manifest_url o1)"
  have one: "touches Q V {k. \<not> gone V k s} s s1" if "?m s = (r, s1)" for r s1
    using that Cons.prems(1) record_peer_quiet by (auto simp: touches_refl split: option.splits)
  from Cons.prems(2) have "io_bind ?m (\<lambda>_. record_seeds Q now os) s = (q, s')" by simp
  then show ?case
  proof (cases rule: io_bind_cases)
    case raised
    with one show ?thesis by blast
  next
    case (went x s1)
    then show ?thesis
      using quiet_trans [OF one Cons.IH] touches_kept [OF one] by blast
  qed
qed (simp add: touches_refl)

lemma admit_peer_quiet:
  "well_kept V s \<Longrightarrow> admit_peer E Q n m url skew s w = (r, s', w') \<Longrightarrow> touches Q V {k. \<not> gone V k s} s s'"
  using record_peer_quiet
  by (auto simp: admit_peer_def touches_refl split: prod.splits sum.splits option.splits if_splits)

lemma bootstrap_quiet:
  "well_kept V s \<Longrightarrow> node_bootstrap E Q n seeds lu lm dl skew s w = (r, s', w') \<Longrightarrow>
     touches Q V {k. \<not> gone V k s} s s'"
  using record_seeds_quiet
  by (auto simp: node_bootstrap_def touches_refl split: prod.splits sum.splits)

end

text \<open>A decision about a peer carries a manifest of that peer, if any.\<close>

definition about :: "string \<Rightarrow> manifest_refresh_decision \<Rightarrow> bool" where
  "about k d \<longleftrightarrow> (case md_manifest d of None \<Rightarrow> True
     | Some m \<Rightarrow> md_action d \<in> {RF_accept, RF_unchanged} \<longrightarrow> mf_node_id m = k)"

lemma about_unknown [simp]: "about k unknown_peer_decision"
  by (simp add: about_def unknown_peer_decision_def no_manifest_def)

lemma about_sound: "sound_refresh L now skew m d \<Longrightarrow> about (mf_node_id m) d"
  by (auto simp: sound_refresh_def about_def split: if_splits option.splits)

lemma set_dict_fold: "set (fold (\<lambda>(k, v). AList.update k v) ps d) \<subseteq> set d \<union> set ps"
proof (induction ps arbitrary: d)
  case (Cons p ps)
  have "set (AList.update k v d) \<subseteq> insert (k, v) (set d)" for k v
    by (induction d) auto
  with Cons.IH [of "AList.update (fst p) (snd p) d"] show ?case
    by (cases p) fastforce
qed simp

text \<open>The decisions of a batch are those of refreshes of its targets.\<close>

lemma refresh_all_decision:
  assumes "refresh_all_manifests E c targets kp skew w = (Inr ds, w')" "(k, d) \<in> set ds"
  obtains m url v v' where "(m, url) \<in> set targets" "k = mf_node_id m"
    "refresh_peer_manifest E c m url kp skew v = (Inr d, v')"
proof -
  obtain rs w1 where g: "gather (map (refresh_one E c kp skew) targets) w = (Inr rs, w1)"
    and ds: "ds = dict_of_pairs rs"
    using assms(1) by (auto simp: refresh_all_manifests_def io_simps)
  then have "(k, d) \<in> set rs"
    using set_dict_fold [of rs "[]"] assms(2) by (auto simp: dict_of_pairs_def)
  then obtain i where i: "i < length rs" "(k, d) = rs ! i"
    by (auto simp: in_set_conv_nth)
  then have len: "i < length targets" using gather_length [OF g] by simp
  obtain m url where t: "targets ! i = (m, url)" by fastforce
  obtain v v' where "refresh_one E c kp skew (m, url) v = (Inr (k, d), v')"
    using gather_each [OF g, of i] len i t by auto
  moreover have "(m, url) \<in> set targets"
    using t len nth_mem by metis
  ultimately show ?thesis
    using that by (auto simp: refresh_one_def io_simps)
qed

lemma refresh_all_about:
  assumes "refresh_all_manifests E c targets kp skew w = (Inr ds, w')" "(k, d) \<in> set ds"
  shows "about k d \<and> k \<in> mf_node_id ` fst ` set targets"
proof (rule refresh_all_decision [OF assms])
  fix m url v v'
  assume m: "(m, url) \<in> set targets" "k = mf_node_id m"
    and run: "refresh_peer_manifest E c m url kp skew v = (Inr d, v')"
  show ?thesis
    using refresh_peer_sound [OF run] about_sound m by (metis fst_conv image_eqI)
qed

lemma set_dict_update: "set (dict_update ds new) \<subseteq> set ds \<union> set new"
  using set_dict_fold [of new ds] by (auto simp: dict_update_def)

text \<open>The phases of a refresh: it ends after its lookup, or a decision of the network is applied.\<close>

lemma refresh_peer_phases [consumes 1, case_names stopped applied]:
  assumes "refresh_peer E Q n k kp skew s w = (r, s', w')"
  obtains q where "on_table (tb_get (po_members Q) k) s = (q, s')"
    | rec s1 m d w1 u where "on_table (tb_get (po_members Q) k) s = (Inr (Some rec), s1)"
      "dict_get (nd_manifests s1) k = Some m"
      "refresh_peer_manifest E (node_client n) m (rec_manifest_url rec) kp skew w = (Inr d, w1)"
      "apply_refresh_decision Q (out_now E w1) k d s1 = (u, s')"
  using assms
  by (auto simp: refresh_peer_def split: prod.splits sum.splits option.splits)

text \<open>The phases of a batch: it ends before any decision of the network is applied, or applies them all.\<close>

lemma refresh_all_phases [consumes 1, case_names stopped applied]:
  assumes "node_refresh_all E Q n kp skew s w = (r, s', w')"
  obtains q where "io_bind (on_table (eligible_peers (po_members Q) (out_now E w)))
      (refresh_targets Q (out_now E w)) s = (q, s')"
    | targets ds s1 new w1 u where "io_bind (on_table (eligible_peers (po_members Q) (out_now E w)))
      (refresh_targets Q (out_now E w)) s = (Inr (targets, ds), s1)"
      "refresh_all_manifests E (node_client n) targets kp skew w = (Inr new, w1)"
      "apply_decisions Q (out_now E w1) (dict_update ds new) s1 = (u, s')"
  using assms
  by (auto simp: node_refresh_all_def Let_def split: prod.splits sum.splits)

context node_ports
begin

lemma put_found_touches:
  assumes "well_kept V s" "put_found Q found f s = (q, s')"
    and "\<And>r. found = Some r \<Longrightarrow> rec_node_id (f r) = k"
  shows "touches Q V {k} s s'"
  using assms put_effect(1) [OF assms(1)]
  by (fastforce simp: put_found_def touches_refl split: option.splits)

lemma remember_put_touches:
  assumes "well_kept V s" "io_bind (remember_manifest Q m) (\<lambda>_. put_found Q found f) s = (q, s')"
    and "mf_node_id m = k" "\<And>r. found = Some r \<Longrightarrow> rec_node_id (f r) = k"
  shows "touches Q V {k} s s'"
  using assms(2)
proof (rule touches_bind)
  show "touches Q V {k} s s1" if "remember_manifest Q m s = (r, s1)" for r s1
    using remember_effect(1) [OF assms(1) that] assms(3) by simp
qed (rule put_found_touches [OF _ _ assms(4)])

lemma put_forget_touches:
  assumes "well_kept V s" "io_bind (put_found Q found f) (\<lambda>_. forget_manifest Q k) s = (q, s')"
    and "\<And>r. found = Some r \<Longrightarrow> rec_node_id (f r) = k"
  shows "touches Q V {k} s s'"
  using assms(2)
proof (rule touches_bind)
  show "touches Q V {k} s s1" if "put_found Q found f s = (r, s1)" for r s1
    by (rule put_found_touches [OF assms(1) that assms(3)])
qed (rule forget_effect(1))

lemma apply_decision_touches:
  assumes "well_kept V s" "about k d" "apply_refresh_decision Q now k d s = (q, s')"
  shows "touches Q V {k} s s'"
  using assms(1) assms(3) [unfolded apply_refresh_decision_def]
proof (rule lookup_bind)
  fix s1
  let ?put = "put_found Q (known V s k)" and ?revise = "\<lambda>m r. admit None now (r\<lparr>rec_manifest_revision := mf_revision m\<rparr>)"
  assume s1: "touches Q V {} s s1"
    and run: "(case md_action d of
         RF_accept \<Rightarrow> (case md_manifest d of None \<Rightarrow> io_lift (Inr ())
           | Some m \<Rightarrow> io_bind (remember_manifest Q m) (\<lambda>_. ?put (?revise m)))
       | RF_unchanged \<Rightarrow> (case md_manifest d of None \<Rightarrow> io_lift (Inr ())
           | Some m \<Rightarrow> io_bind (remember_manifest Q m) (\<lambda>_. ?put (?revise m)))
       | RF_quarantine \<Rightarrow> ?put (set_state STALE_MANIFEST now)
       | RF_reject \<Rightarrow> io_bind (?put (set_state REJECTED now)) (\<lambda>_. forget_manifest Q k)) s1 = (q, s')"
  note kept = touches_kept [OF s1]
  have id: "rec_node_id r = k" if "known V s k = Some r" for r
    using record_id [OF assms(1) that] .
  show "touches Q V {k} s1 s'"
  proof (cases "md_action d = RF_quarantine \<or> md_action d = RF_reject")
    case True
    with run id show ?thesis
      by (auto intro: put_found_touches [OF kept] put_forget_touches [OF kept])
  next
    case False
    with run assms(2) id kept show ?thesis
      by (cases "md_action d"; cases "md_manifest d")
        (auto simp: about_def touches_refl intro: remember_put_touches [OF kept])
  qed
qed

lemma apply_decisions_touches:
  "well_kept V s \<Longrightarrow> \<forall>(k, d) \<in> set ds. k \<in> K \<and> about k d \<Longrightarrow> apply_decisions Q now ds s = (q, s') \<Longrightarrow>
   touches Q V K s s'"
proof (induction ds arbitrary: s)
  case (Cons kd ds)
  obtain k d where kd: "kd = (k, d)" by fastforce
  from Cons.prems(3) have "io_bind (apply_refresh_decision Q now k d) (\<lambda>_. apply_decisions Q now ds) s = (q, s')"
    by (simp add: kd)
  then show ?case
  proof (rule touches_bind)
    show "touches Q V K s s1" if "apply_refresh_decision Q now k d s = (r, s1)" for r s1
      using apply_decision_touches [OF Cons.prems(1) _ that] Cons.prems(2) kd
      by (auto intro: touches_mono)
    show "touches Q V K s1 s'" if "apply_decisions Q now ds s1 = (q, s')" "well_kept V s1" for s1
      using Cons.IH [OF that(2) _ that(1)] Cons.prems(2) by simp
  qed
qed (simp add: touches_refl)

lemma refresh_targets_touches:
  "well_kept V s \<Longrightarrow> rec_node_id ` set rs \<subseteq> K \<Longrightarrow> refresh_targets Q now rs s = (q, s') \<Longrightarrow>
   touches Q V K s s' \<and>
   (\<forall>targets ds. q = Inr (targets, ds) \<longrightarrow>
      (\<forall>(k, d) \<in> set ds. k \<in> K \<and> about k d) \<and> mf_node_id ` fst ` set targets \<subseteq> K)"
proof (induction rs arbitrary: s q s')
  case (Cons r rs)
  have K: "rec_node_id r \<in> K" "rec_node_id ` set rs \<subseteq> K" using Cons.prems(2) by auto
  show ?case
  proof (cases "dict_get (nd_manifests s) (rec_node_id r)")
    case None
    with Cons.prems(3) have "io_bind (apply_refresh_decision Q now (rec_node_id r) unknown_peer_decision) (\<lambda>_.
        io_bind (refresh_targets Q now rs) (\<lambda>(targets, ds).
          io_lift (Inr (targets, dict_update [(rec_node_id r, unknown_peer_decision)] ds)))) s = (q, s')"
      by simp
    then show ?thesis
    proof (cases rule: io_bind_cases)
      case (raised e)
      with apply_decision_touches [OF Cons.prems(1) about_unknown raised(1)] K(1) show ?thesis
        by (auto intro: touches_mono)
    next
      case (went x s1)
      have s1: "touches Q V K s s1"
        using apply_decision_touches [OF Cons.prems(1) about_unknown went(1)] K(1) by (auto intro: touches_mono)
      from went(2) show ?thesis
      proof (cases rule: io_bind_cases)
        case (raised e)
        with Cons.IH [OF touches_kept [OF s1] K(2) raised(1)] touches_trans [OF s1] show ?thesis by blast
      next
        case (went y s2)
        obtain targets ds where y: "y = (targets, ds)" by fastforce
        note rest = Cons.IH [OF touches_kept [OF s1] K(2) went(1)]
        then have "\<forall>(k, d) \<in> set (dict_update [(rec_node_id r, unknown_peer_decision)] ds). k \<in> K \<and> about k d"
          using set_dict_update [of "[(rec_node_id r, unknown_peer_decision)]" ds] K(1) y by auto
        moreover have "q = Inr (targets, dict_update [(rec_node_id r, unknown_peer_decision)] ds)" "s' = s2"
          using went(2) y by simp_all
        ultimately show ?thesis
          using rest touches_trans [OF s1] y by simp
      qed
    qed
  next
    case (Some m)
    with Cons.prems(3) have "io_bind (refresh_targets Q now rs) (\<lambda>(targets, ds).
        io_lift (Inr ((m, rec_manifest_url r) # targets, ds))) s = (q, s')"
      by simp
    moreover have "mf_node_id m = rec_node_id r"
      using cached_id [OF Cons.prems(1)] Some by (simp add: cached_def)
    ultimately show ?thesis
      using Cons.IH [OF Cons.prems(1) K(2)] K(1)
      by (elim io_bind_cases) (auto simp: image_subset_iff split: prod.splits)
  qed
qed (auto simp: touches_refl)

lemma batch_targets_quiet:
  assumes "well_kept V s" "io_bind (on_table (eligible_peers (po_members Q) now)) (refresh_targets Q now) s = (q, s1)"
  shows "touches Q V {k. \<not> gone V k s} s s1 \<and>
    (\<forall>targets ds. q = Inr (targets, ds) \<longrightarrow> (\<forall>(k, d) \<in> set ds. \<not> gone V k s \<and> about k d) \<and>
       (\<forall>k \<in> mf_node_id ` fst ` set targets. \<not> gone V k s))"
  using assms(2)
proof (cases rule: io_bind_cases)
  case (raised e)
  with eligible_effect(1) [OF assms(1) raised(1)] show ?thesis by (auto intro: touches_mono)
next
  case (went rs s2)
  have s2: "touches Q V {} s s2" by (rule eligible_effect(1) [OF assms(1) went(1)])
  have "\<not> gone V (rec_node_id r) s" if "r \<in> set rs" for r
    using that eligible_effect(2) [OF assms(1) went(1), of rs r]
    by (auto simp: gone_def revoked_def is_revoked_def is_eligible_def split: if_splits)
  then have "rec_node_id ` set rs \<subseteq> {k. \<not> gone V k s}" by blast
  note rest = refresh_targets_touches [OF touches_kept [OF s2] this went(2)]
  have "touches Q V {k. \<not> gone V k s} s s2"
    by (rule touches_mono [OF s2]) simp
  from touches_trans [OF this rest [THEN conjunct1]] rest [THEN conjunct2] show ?thesis
    unfolding subset_eq mem_Collect_eq by (rule conjI)
qed

lemma refresh_all_quiet:
  assumes "well_kept V s" "node_refresh_all E Q n kp skew s w = (r, s', w')"
  shows "touches Q V {k. \<not> gone V k s} s s'"
  using assms(2)
proof (cases rule: refresh_all_phases)
  case (stopped q)
  with batch_targets_quiet [OF assms(1)] show ?thesis by blast
next
  case (applied targets ds s1 new w1 u)
  note first = batch_targets_quiet [OF assms(1) applied(1)]
  have "\<not> gone V k s \<and> about k d" if "(k, d) \<in> set new" for k d
    using refresh_all_about [OF applied(2) that] first by blast
  then have "\<forall>(k, d) \<in> set (dict_update ds new). k \<in> {k. \<not> gone V k s} \<and> about k d"
    using set_dict_update [of ds new] first by fast
  from apply_decisions_touches [OF touches_kept [OF first [THEN conjunct1]] this applied(3)]
  show ?thesis
    by (rule touches_trans [OF first [THEN conjunct1]])
qed

lemma refresh_peer_quiet:
  assumes "well_kept V s" "refresh_peer E Q n k kp skew s w = (r, s', w')"
  shows "touches Q V {k. \<not> gone V k s} s s'"
  using assms(2)
proof (cases rule: refresh_peer_phases)
  case (stopped q)
  with lookup_effect(1) [OF assms(1)] show ?thesis by (blast intro: touches_mono)
next
  case (applied rec s1 m d w1 u)
  note s1 = lookup_effect(1) [OF assms(1) applied(1)]
  have "cached s k = Some m"
    using s1 applied(2) by (simp add: touches_def cached_def)
  then have id: "mf_node_id m = k" and live: "\<not> gone V k s"
    using cached_id [OF assms(1)] by (simp_all add: gone_def)
  have "about k d"
    using refresh_peer_sound [OF applied(3)] about_sound id by blast
  from apply_decision_touches [OF touches_kept [OF s1] this applied(4)]
  have "touches Q V {k} s s'"
    by (intro touches_trans [OF touches_mono [OF s1]]) simp_all
  then show ?thesis
    by (rule touches_mono) (simp add: live)
qed

lemma remember_discovered_touches:
  "well_kept V s \<Longrightarrow> \<forall>o1 \<in> set os. \<forall>m. do_manifest o1 = Some m \<longrightarrow> mf_node_id m \<in> K \<Longrightarrow>
   remember_discovered Q os s = (q, s') \<Longrightarrow> touches Q V K s s'"
proof (induction os arbitrary: s)
  case (Cons o1 os)
  from Cons.prems(3) have "io_bind (case do_manifest o1 of None \<Rightarrow> io_lift (Inr ()) | Some m \<Rightarrow> remember_manifest Q m)
      (\<lambda>_. remember_discovered Q os) s = (q, s')"
    by simp
  then show ?case
  proof (rule touches_bind)
    show "touches Q V K s s1"
      if "(case do_manifest o1 of None \<Rightarrow> io_lift (Inr ()) | Some m \<Rightarrow> remember_manifest Q m) s = (r, s1)" for r s1
      using that Cons.prems(1,2) remember_effect(1) [OF Cons.prems(1)]
      by (fastforce simp: touches_refl intro: touches_mono split: option.splits)
    show "touches Q V K s1 s'" if "remember_discovered Q os s1 = (q, s')" "well_kept V s1" for s1
      using Cons.IH [OF that(2) _ that(1)] Cons.prems(2) by simp
  qed
qed (simp add: touches_refl)

lemma discover_touches:
  assumes "well_kept V s" "discover E Q n skew cap since s w = (r, s', w')"
  shows "touches Q V {k. known V s k = None} s s'"
proof -
  obtain q t w1 where run: "refresh_discovered_members (po_members Q) E (node_client n) (nd_table s)
      (nd_manifests s) (fn_admission_policy n) skew cap since w = (q, t, w1)"
    by (metis prod_cases3)
  have "nv_members_ok V (nd_table s)" using assms(1) by (simp add: well_kept_def)
  note kept = members.discovery_run [OF this run]
  have s1: "touches Q V {k. known V s k = None} s (s\<lparr>nd_table := t\<rparr>)"
    using kept assms(1) by (auto simp: touches_def well_kept_def synced_def known_def discovery_keeps_def)
  show ?thesis
  proof (cases q)
    case (Inl e)
    with assms(2) run s1 show ?thesis by (simp add: discover_def)
  next
    case (Inr report)
    then have "\<forall>o1 \<in> set (dr_accepted report). \<forall>m. do_manifest o1 = Some m \<longrightarrow> mf_node_id m \<in> {k. known V s k = None}"
      using kept by (auto simp: discovery_inv_def admitted_outcome_def known_def)
    moreover obtain u where "remember_discovered Q (dr_accepted report) (s\<lparr>nd_table := t\<rparr>) = (u, s')"
      using assms(2) run Inr by (auto simp: discover_def split: prod.splits sum.splits)
    ultimately show ?thesis
      using touches_trans [OF s1] remember_discovered_touches touches_kept [OF s1] by blast
  qed
qed

lemma discover_quiet:
  assumes "well_kept V s" "discover E Q n skew cap since s w = (r, s', w')"
  shows "touches Q V {k. \<not> gone V k s} s s'"
  using discover_touches [OF assms]
  by (rule touches_mono) (auto simp: gone_def revoked_def is_revoked_def)

subsection \<open>Revocation\<close>

lemma revocation_run:
  assumes "well_kept V s" "node_apply_revocation Q n L now notice trusted authorize s = (q, s')"
  shows "touches Q V {rn_revoked_node_id notice} s s'"
    and "gone V k s \<Longrightarrow> gone V k s'"
    and "q = Inr (Some REVOKED) \<Longrightarrow> gone V (rn_revoked_node_id notice) s'"
proof -
  let ?k = "rn_revoked_node_id notice" and ?trusted = "revocation_trusted L (fn_federation_id n) trusted authorize notice"
  obtain p t where p: "apply_revocation_notice (po_members Q) L now notice (fn_federation_id n) trusted authorize
      (nd_table s) = (p, t)"
    by fastforce
  let ?s = "s\<lparr>nd_table := t\<rparr>"
  have "nv_members_ok V (nd_table s)" using assms(1) by (simp add: well_kept_def)
  note effect = members.revocation_effect [OF this p, folded known_def]
  have known: "known V ?s = nv_members V t" by (simp add: known_def)
  have s1: "touches Q V {?k} s ?s"
    using effect assms(1) by (auto simp: touches_def well_kept_def synced_def known)
  have gone1: "gone V k ?s" if "gone V k s" for k
    using that effect by (auto simp: gone_def revoked_def is_revoked_def known members.state_kept)
  have end1: "q = p \<and> s' = ?s \<and> p \<noteq> Inr (Some REVOKED) \<or>
      p = Inr (Some REVOKED) \<and> (\<exists>u. forget_manifest Q ?k ?s = (u, s') \<and> (q = Inr (Some REVOKED) \<longrightarrow> \<not> isl u))"
    using assms(2) p
    by (auto simp: node_apply_revocation_def on_table_def io_bind_def split: prod.splits sum.splits if_splits)
  have revoked: "revoked V ?s ?k" if "p = Inr (Some REVOKED)"
  proof -
    have "\<forall>st. p = Inr st \<longrightarrow> st = map_option rec_state (nv_members V t ?k)"
      using effect by blast
    with that have "Some REVOKED = map_option rec_state (nv_members V t ?k)" by blast
    then show ?thesis
      by (cases "nv_members V t ?k") (simp_all add: revoked_def is_revoked_def known)
  qed
  have forget: "touches Q V {?k} ?s s'" "gone V k ?s \<Longrightarrow> gone V k s'"
      "revoked V ?s ?k \<Longrightarrow> \<not> isl u \<Longrightarrow> gone V ?k s'"
    if "forget_manifest Q ?k ?s = (u, s')" for u k
    using forget_effect [OF touches_kept [OF s1] that] by (auto simp: gone_def revoked_def)
  from end1 have "touches Q V {?k} s s' \<and> (gone V k s \<longrightarrow> gone V k s') \<and>
      (q = Inr (Some REVOKED) \<longrightarrow> gone V ?k s')"
  proof (elim disjE conjE exE)
    assume "q = p" "s' = ?s" "p \<noteq> Inr (Some REVOKED)"
    with s1 gone1 show ?thesis by simp
  next
    fix u assume u: "p = Inr (Some REVOKED)" "forget_manifest Q ?k ?s = (u, s')"
      "q = Inr (Some REVOKED) \<longrightarrow> \<not> isl u"
    have "gone V k s'" if "gone V k s"
      by (rule forget(2) [OF u(2) gone1 [OF that]])
    moreover have "gone V ?k s'" if "q = Inr (Some REVOKED)"
      using forget(3) [OF u(2) revoked [OF u(1)]] u(3) that by simp
    ultimately show ?thesis
      using touches_trans [OF s1 forget(1) [OF u(2)]] by simp
  qed
  then show "touches Q V {?k} s s'" "gone V k s \<Longrightarrow> gone V k s'" "q = Inr (Some REVOKED) \<Longrightarrow> gone V ?k s'"
    by simp_all
qed

end

section \<open>Ports that do not raise\<close>

definition ports_reliable :: "('t, 's) ports \<Rightarrow> bool" where
  "ports_reliable Q \<longleftrightarrow> manifests_reliable Q \<and> (\<forall>k. never_raises (tb_get (po_members Q) k)) \<and>
     (\<forall>r. never_raises (tb_upsert (po_members Q) r))"

lemma never_raises_unit: "never_raises m \<Longrightarrow> \<exists>w'. m w = (Inr (), w')"
  by (auto simp: never_raises_def)

lemma on_table_returns: "never_raises f \<Longrightarrow> never_raises (on_table f)"
  unfolding never_raises_def on_table_def by (metis (no_types, lifting) case_prod_conv)

lemma on_store_returns:
  assumes "never_raises f"
  shows "never_raises (on_store f)"
  unfolding never_raises_def
proof
  fix s
  show "\<exists>x s'. on_store f s = (Inr x, s')"
  proof (cases "nd_store s")
    case (Some st)
    moreover obtain x st' where "f st = (Inr x, st')" using never_raisesD [OF assms] by blast
    ultimately show ?thesis by (simp add: on_store_def)
  qed (simp add: on_store_def)
qed

lemma manifest_returns:
  assumes "manifests_reliable Q"
  shows "never_raises (remember_manifest Q m)" "never_raises (forget_manifest Q k)"
  using assms unfolding never_raises_def [of "remember_manifest Q m"] never_raises_def [of "forget_manifest Q k"]
    remember_manifest_def forget_manifest_def manifests_reliable_def
  by (auto intro!: never_raises_unit on_store_returns)

lemma reliable_returns:
  assumes "ports_reliable Q"
  shows "never_raises (remember_manifest Q m)" "never_raises (forget_manifest Q k)"
    "never_raises (on_table (tb_get (po_members Q) k))"
    "never_raises (on_table (tb_upsert (po_members Q) r))"
  using assms by (auto simp: ports_reliable_def intro: manifest_returns on_table_returns)

lemma put_found_reliable: "ports_reliable Q \<Longrightarrow> never_raises (put_found Q found f)"
  by (cases found) (auto simp: put_found_def reliable_returns)

lemma record_peer_reliable: "ports_reliable Q \<Longrightarrow> never_raises (record_peer Q now m url)"
  unfolding record_peer_def by (auto intro!: never_raises_bind reliable_returns)

lemma apply_decision_reliable:
  assumes "ports_reliable Q"
  shows "never_raises (apply_refresh_decision Q now k d)"
  unfolding apply_refresh_decision_def using assms
  by (cases "md_action d"; cases "md_manifest d")
    (auto intro!: never_raises_bind reliable_returns put_found_reliable)

lemma trusted_revocation_reliable:
  assumes "ports_reliable Q" "revocation_trusted L (fn_federation_id n) trusted authorize notice"
    and "on_table (tb_get (po_members Q) (rn_revoked_node_id notice)) s = (Inr (Some r), s1)"
  shows "\<exists>s'. node_apply_revocation Q n L now notice trusted authorize s = (Inr (Some REVOKED), s')"
proof -
  obtain t1 where t1: "tb_get (po_members Q) (rn_revoked_node_id notice) (nd_table s) = (Inr (Some r), t1)"
    using assms(3) by (auto simp: on_table_def split: prod.splits)
  obtain u t2 where "tb_upsert (po_members Q) (set_state REVOKED now r) t1 = (Inr u, t2)"
    using assms(1) never_raisesD by (fastforce simp: ports_reliable_def)
  then have "on_table (apply_revocation_notice (po_members Q) L now notice (fn_federation_id n) trusted authorize) s =
      (Inr (Some REVOKED), s\<lparr>nd_table := t2\<rparr>)"
    using apply_revocation_found(1) [OF t1 assms(2), of now] by (simp add: on_table_def io_bind_def)
  moreover obtain v s2 where "forget_manifest Q (rn_revoked_node_id notice) (s\<lparr>nd_table := t2\<rparr>) = (Inr v, s2)"
    using never_raisesD [OF reliable_returns(2) [OF assms(1)]] by blast
  ultimately show ?thesis
    by (simp add: node_apply_revocation_def io_bind_def)
qed

section \<open>The in-memory ports\<close>

definition cache_put :: "manifest \<Rightarrow> (string, manifest) dict \<Rightarrow> (string, manifest) dict" where
  "cache_put m d = dict_set (mf_node_id m) m d"

interpretation cache: keyed_store dict_get cache_put dict_values dict_pop mf_node_id "keyed_by mf_node_id"
proof
  fix s :: "(string, manifest) dict" and r k
  assume "keyed_by mf_node_id s"
  then show "r \<in> set (dict_values s) \<longleftrightarrow> dict_get s (mf_node_id r) = Some r"
    "keyed_by mf_node_id (cache_put r s)" "keyed_by mf_node_id (dict_pop k s)"
    unfolding cache_put_def by (rule keyed_by_values keyed_by_set keyed_by_pop)+
qed (auto simp: cache_put_def keyed_by_get)

type_synonym memory_state = "(membership_table, (string, manifest) dict) node_state"

definition memory_ports :: "(membership_table, (string, manifest) dict) ports" where
  "memory_ports = \<lparr>po_members = table_port, po_manifests =
     \<lparr>ms_upsert = (\<lambda>m d. (Inr (), cache_put m d)), ms_delete = (\<lambda>k d. (Inr (), dict_pop k d)),
      ms_values = (\<lambda>d. (Inr (dict_values d), d))\<rparr>\<rparr>"

text \<open>The same, with a manifest store that cannot delete.\<close>

definition stuck_ports :: "exc \<Rightarrow> (membership_table, (string, manifest) dict) ports" where
  "stuck_ports e = memory_ports\<lparr>po_manifests := (po_manifests memory_ports)\<lparr>ms_delete := (\<lambda>k d. (Inl e, d))\<rparr>\<rparr>"

definition memory_views :: "(membership_table, (string, manifest) dict) node_views" where
  "memory_views = \<lparr>nv_members = table_get, nv_keep_member = id, nv_members_ok = keyed_by rec_node_id,
     nv_manifests = dict_get, nv_keep_manifest = id, nv_manifests_ok = keyed_by mf_node_id\<rparr>"

lemma memory_keeps [simp]: "nv_keep_member memory_views = id" "nv_keep_manifest memory_views = id"
  by (simp_all add: memory_views_def)

interpretation memory: node_ports memory_ports memory_views
  using table.membership_port_axioms cache.port.store_port_axioms
  by (simp add: node_ports_def node_ports_axioms_def memory_ports_def memory_views_def)

interpretation stuck: node_ports "stuck_ports e" memory_views
proof -
  have "store_port (\<lambda>m d. (Inr (), cache_put m d)) (\<lambda>k d. (Inl e, d)) (\<lambda>d. (Inr (dict_values d), d))
      mf_node_id id dict_get (keyed_by mf_node_id)"
    using cache.port.store_port_axioms by (auto simp: store_port_def)
  then show "node_ports (stuck_ports e) memory_views"
    using table.membership_port_axioms
    by (simp add: node_ports_def node_ports_axioms_def stuck_ports_def memory_ports_def memory_views_def)
qed

lemma memory_reliable: "manifests_reliable memory_ports" "ports_reliable memory_ports"
  by (simp_all add: ports_reliable_def manifests_reliable_def memory_ports_def never_raises_def)

end
