(* ===== verification/Node_Properties.thy ===== *)
theory Node_Properties
  imports Node_Inv
begin

text \<open>
  The node as a transition system, and the properties of a node whose methods run one after the
  other, over any stores behind its ports.
\<close>

section \<open>The node as a transition system\<close>

inductive node_step ::
    "'w outside \<Rightarrow> ('t, 's) ports \<Rightarrow> 'w federation_node \<Rightarrow> ('t, 's) node_state \<Rightarrow> ('t, 's) node_state \<Rightarrow> bool"
  for E Q n where
  step_hydrate: "hydrate Q s = (q, s') \<Longrightarrow> node_step E Q n s s'"
| step_admit: "admit_peer E Q n m url skew s w = (r, s', w') \<Longrightarrow> node_step E Q n s s'"
| step_bootstrap: "node_bootstrap E Q n seeds lu lm dl skew s w = (r, s', w') \<Longrightarrow> node_step E Q n s s'"
| step_discover: "discover E Q n skew cap since s w = (r, s', w') \<Longrightarrow> node_step E Q n s s'"
| step_refresh: "refresh_peer E Q n k kp skew s w = (r, s', w') \<Longrightarrow> node_step E Q n s s'"
| step_refresh_all: "node_refresh_all E Q n kp skew s w = (r, s', w') \<Longrightarrow> node_step E Q n s s'"
| step_revoke: "node_apply_revocation Q n (out_crypto E) now notice trusted authorize s = (r, s') \<Longrightarrow>
    node_step E Q n s s'"

text \<open>A request is judged by a manifest's id and keys alone.\<close>

lemma verify_inbound_same:
  assumes "same_content m m'"
  shows "verify_inbound n L vj now hdr m' verb path body maxb skew cache c =
    verify_inbound n L vj now hdr m verb path body maxb skew cache c"
proof -
  have "mf_node_id m' = mf_node_id m" "mf_public_keys m' = mf_public_keys m"
    using assms by (simp_all add: same_content_def)
  then show ?thesis
    unfolding verify_inbound_def verify_peer_request_def by (simp only:)
qed

context node_ports
begin

definition step_ok :: "('t, 's) node_state \<Rightarrow> ('t, 's) node_state \<Rightarrow> bool" where
  "step_ok s s' \<longleftrightarrow> well_kept V s' \<and> (\<forall>k. gone V k s \<longrightarrow> gone V k s') \<and>
     (manifests_reliable Q \<longrightarrow> synced V s \<longrightarrow> synced V s')"

lemma quiet_ok:
  assumes "touches Q V {k. \<not> gone V k s} s s'"
  shows "step_ok s s'"
proof -
  have "gone V k s'" if "gone V k s" for k
    using touches_gone [OF assms, of k] that by simp
  with assms show ?thesis
    by (simp add: step_ok_def touches_def)
qed

lemma hydrate_ok: "well_kept V s \<Longrightarrow> hydrate Q s = (q, s') \<Longrightarrow> step_ok s s'"
  unfolding step_ok_def using hydrate_effect [of s q s'] by (auto simp: gone_def revoked_def)

lemma revocation_ok:
  assumes "well_kept V s" "node_apply_revocation Q n L now notice trusted authorize s = (q, s')"
  shows "step_ok s s'"
  using revocation_run(1,2) [OF assms] by (simp add: step_ok_def touches_def)

lemma node_step_ok:
  assumes "node_step E Q n s s'" "well_kept V s"
  shows "step_ok s s'"
  using assms
  by cases (blast intro: hydrate_ok revocation_ok quiet_ok admit_peer_quiet bootstrap_quiet discover_quiet
      refresh_peer_quiet refresh_all_quiet)+

lemma node_steps_ok:
  assumes "(node_step E Q n)\<^sup>*\<^sup>* s s'" "well_kept V s"
  shows "step_ok s s'"
  using assms(1)
proof (induction rule: rtranclp_induct)
  case base
  with assms(2) show ?case by (simp add: step_ok_def)
next
  case (step y z)
  have "step_ok y z"
    by (rule node_step_ok [OF step.hyps(2)]) (use step.IH in \<open>simp add: step_ok_def\<close>)
  with step.IH show ?case by (simp add: step_ok_def)
qed

lemma gone_refused:
  "gone V k s \<Longrightarrow> verify_known_inbound n L validate_json now s hdr k verb path body maxb skew cache c =
     (Inl (UnauthorizedPeerRequest ''unknown_peer''), c)"
  by (simp add: gone_def cached_def verify_known_inbound_def)

text \<open>A recording that returns.\<close>

lemma record_peer_returns:
  assumes "well_kept V s" "record_peer Q now m url s = (Inr u, s')" "\<not> revoked V s (mf_node_id m)"
  shows "known V s' (mf_node_id m) = Some (nv_keep_member V (discovered_record m url now))"
    and "cached s' (mf_node_id m) = Some m"
    and "nd_store s \<noteq> None \<Longrightarrow> stored V s' (mf_node_id m) = Some (nv_keep_manifest V m)"
proof -
  from assms(2) obtain x s1 where look: "on_table (tb_get (po_members Q) (mf_node_id m)) s = (Inr x, s1)"
    and run: "(if is_revoked x then io_lift (Inr ()) else io_bind (remember_manifest Q m)
      (\<lambda>_. on_table (tb_upsert (po_members Q) (discovered_record m url now)))) s1 = (Inr u, s')"
    by (auto simp: record_peer_def io_bind_Inr)
  note s1 = lookup_effect [OF assms(1) look]
  from run assms(3) s1(2) obtain s2 where rem: "remember_manifest Q m s1 = (Inr (), s2)"
    and up: "on_table (tb_upsert (po_members Q) (discovered_record m url now)) s2 = (Inr u, s')"
    by (auto simp: revoked_def io_bind_Inr split: if_splits)
  note s2 = remember_effect [OF touches_kept [OF s1(1)] rem]
  note s3 = put_effect [OF touches_kept [OF s2(1)] up]
  show "known V s' (mf_node_id m) = Some (nv_keep_member V (discovered_record m url now))"
    using s3(4) by auto
  show "cached s' (mf_node_id m) = Some m"
    using s3(2) s2(3) by simp
  have "nd_store s1 = nd_store s"
    using look by (auto simp: on_table_def split: prod.splits)
  then show "nd_store s \<noteq> None \<Longrightarrow> stored V s' (mf_node_id m) = Some (nv_keep_manifest V m)"
    using s3(3) s2(4) by simp
qed

text \<open>An application of a decision that returns.\<close>

lemma apply_decision_returns:
  assumes "well_kept V s" "apply_refresh_decision Q now k d s = (Inr u, s')" "known V s k = Some rec"
  shows "md_action d = RF_quarantine \<Longrightarrow> cached s' = cached s \<and>
      known V s' k = Some (nv_keep_member V (set_state STALE_MANIFEST now rec))"
    and "md_action d = RF_reject \<Longrightarrow> cached s' k = None \<and> stored V s' k = None \<and>
      known V s' k = Some (nv_keep_member V (set_state REJECTED now rec))"
    and "md_action d \<in> {RF_accept, RF_unchanged} \<Longrightarrow> md_manifest d = Some m \<Longrightarrow> mf_node_id m = k \<Longrightarrow>
      cached s' k = Some m \<and> known V s' k = Some (nv_keep_member V (admit None now (rec\<lparr>rec_manifest_revision := mf_revision m\<rparr>)))"
proof -
  have id: "rec_node_id rec = k" by (rule record_id [OF assms(1,3)])
  from assms(2) obtain x s1 where look: "on_table (tb_get (po_members Q) k) s = (Inr x, s1)"
    by (auto simp: apply_refresh_decision_def io_bind_Inr)
  note s1 = lookup_effect [OF assms(1) look]
  have kept: "well_kept V s1" and same: "cached s1 = cached s" "known V s1 = known V s"
    using s1(1) by (auto simp: touches_def)
  have x: "x = Some rec" using s1(2) assms(3) by simp
  have run: "apply_refresh_decision Q now k d s =
    (case md_action d of
       RF_quarantine \<Rightarrow> on_table (tb_upsert (po_members Q) (set_state STALE_MANIFEST now rec))
     | RF_reject \<Rightarrow> io_bind (on_table (tb_upsert (po_members Q) (set_state REJECTED now rec)))
         (\<lambda>_. forget_manifest Q k)
     | _ \<Rightarrow> (case md_manifest d of None \<Rightarrow> io_lift (Inr ())
         | Some m \<Rightarrow> io_bind (remember_manifest Q m) (\<lambda>_. on_table (tb_upsert (po_members Q)
             (admit None now (rec\<lparr>rec_manifest_revision := mf_revision m\<rparr>)))))) s1"
    by (cases "md_action d"; cases "md_manifest d")
      (simp_all add: apply_refresh_decision_def io_bind_def look x put_found_def)
  show "cached s' = cached s \<and> known V s' k = Some (nv_keep_member V (set_state STALE_MANIFEST now rec))"
    if "md_action d = RF_quarantine"
  proof -
    have "on_table (tb_upsert (po_members Q) (set_state STALE_MANIFEST now rec)) s1 = (Inr u, s')"
      using assms(2) that by (simp add: run)
    from put_effect [OF kept this] id same show ?thesis by simp
  qed
  show "cached s' k = None \<and> stored V s' k = None \<and> known V s' k = Some (nv_keep_member V (set_state REJECTED now rec))"
    if reject: "md_action d = RF_reject"
  proof -
    obtain s2 where up: "on_table (tb_upsert (po_members Q) (set_state REJECTED now rec)) s1 = (Inr (), s2)"
      and fo: "forget_manifest Q k s2 = (Inr u, s')"
      using assms(2) reject by (auto simp: run io_bind_Inr)
    note s2 = put_effect [OF kept up]
    from forget_effect [OF touches_kept [OF s2(1)] fo] s2 id show ?thesis by simp
  qed
  show "cached s' k = Some m \<and> known V s' k = Some (nv_keep_member V (admit None now (rec\<lparr>rec_manifest_revision := mf_revision m\<rparr>)))"
    if m: "md_action d \<in> {RF_accept, RF_unchanged}" "md_manifest d = Some m" "mf_node_id m = k" for m
  proof -
    let ?r = "admit None now (rec\<lparr>rec_manifest_revision := mf_revision m\<rparr>)"
    obtain s2 where rem: "remember_manifest Q m s1 = (Inr (), s2)"
      and up: "on_table (tb_upsert (po_members Q) ?r) s2 = (Inr u, s')"
      using assms(2) m by (auto simp: run io_bind_Inr)
    note s2 = remember_effect [OF kept rem]
    from put_effect [OF touches_kept [OF s2(1)] up] s2 id m(3) show ?thesis by auto
  qed
qed

text \<open>A trusted revocation that returns.\<close>

lemma trusted_revocation_returns:
  assumes "well_kept V s" "revocation_trusted L (fn_federation_id n) trusted authorize notice"
    and "known V s (rn_revoked_node_id notice) = Some rec"
    and "node_apply_revocation Q n L now notice trusted authorize s = (Inr st, s')"
  shows "st = Some REVOKED" "known V s' = (known V s)(rn_revoked_node_id notice \<mapsto> nv_keep_member V (set_state REVOKED now rec))"
    and "cached s' = (cached s)(rn_revoked_node_id notice := None)"
    and "stored V s' = (stored V s)(rn_revoked_node_id notice := None)"
proof -
  let ?k = "rn_revoked_node_id notice"
  obtain p t where p: "apply_revocation_notice (po_members Q) L now notice (fn_federation_id n) trusted authorize
      (nd_table s) = (p, t)"
    by fastforce
  obtain st1 where st1: "p = Inr st1"
    using assms(4) p by (cases p) (auto simp: node_apply_revocation_def on_table_def io_bind_def)
  let ?s = "s\<lparr>nd_table := t\<rparr>"
  have "nv_members_ok V (nd_table s)" using assms(1) by (simp add: well_kept_def)
  note effect = members.revocation_effect [OF this p]
  have at: "st1 = map_option rec_state (nv_members V t ?k)"
    "nv_members V t ?k = map_option (nv_keep_member V \<circ> set_state REVOKED now) (nv_members V (nd_table s) ?k)"
    using effect assms(2) st1 by blast+
  have known: "nv_members V (nd_table s) ?k = Some rec" using assms(3) by (simp add: known_def)
  then have "st1 = Some REVOKED" using at by (simp add: members.state_kept)
  then have fo: "forget_manifest Q ?k ?s = (Inr (), s')" and st: "st = Some REVOKED"
    using assms(4) p st1
    by (auto simp: node_apply_revocation_def on_table_def io_bind_def split: prod.splits sum.splits)
  have s1: "known V ?s = (known V s)(?k \<mapsto> nv_keep_member V (set_state REVOKED now rec))"
    using effect known at(2) by (auto simp: known_def fun_eq_iff)
  have "well_kept V ?s"
    using assms(1) effect by (simp add: well_kept_def)
  from forget_effect [OF this fo] s1 st
  show "st = Some REVOKED" "known V s' = (known V s)(?k \<mapsto> nv_keep_member V (set_state REVOKED now rec))"
    "cached s' = (cached s)(?k := None)" "stored V s' = (stored V s)(?k := None)"
    by simp_all
qed

end

section \<open>Concrete nodes for the witnesses\<close>

definition toy_node :: "unit federation_node" where
  "toy_node = \<lparr>fn_node_id = ''me'', fn_federation_id = ''fed'', fn_key = [], fn_key_id = ''k1'',
     fn_admission_policy = toy_policy, fn_manifest_revision = 1, fn_allow_private = False\<rparr>"

definition toy_record :: "peer_state \<Rightarrow> member_record" where
  "toy_record st = (new_record ''a'' None ''https://h/m'' 1)\<lparr>rec_state := st\<rparr>"

definition toy_state :: "peer_state \<Rightarrow> (string, manifest) dict \<Rightarrow> memory_state" where
  "toy_state st ms = \<lparr>nd_table = [(''a'', toy_record st)], nd_manifests = ms, nd_store = Some ms\<rparr>"

lemma toy_peer_id: "mf_node_id toy_peer = ''a''" "mf_manifest_url toy_peer = None" "mf_revision toy_peer = 1"
  by (simp_all add: toy_signed_def toy_manifest_def)

lemma toy_record_simps [simp]:
  "rec_node_id (toy_record st) = ''a''" "rec_state (toy_record st) = st"
  "rec_manifest_url (toy_record st) = ''https://h/m''"
  by (simp_all add: toy_record_def new_record_def)

lemma toy_state_kept:
  "well_kept memory_views (toy_state st [])" "well_kept memory_views (toy_state st [(''a'', toy_peer)])"
  by (auto simp: well_kept_def memory_views_def toy_state_def keyed_by_def dict_wf_def toy_peer_id)

lemma toy_state_simps:
  "known memory_views (toy_state st ms) ''a'' = Some (toy_record st)"
  "cached (toy_state st ms) = dict_get ms" "stored memory_views (toy_state st ms) = dict_get ms"
  "revoked memory_views (toy_state st ms) ''a'' \<longleftrightarrow> st = REVOKED"
  by (simp_all add: revoked_def is_revoked_def known_def cached_def stored_def toy_state_def memory_views_def
      table_get_def)

lemma memory_lookup: "on_table (tb_get (po_members memory_ports) k) s = (Inr (table_get (nd_table s) k), s)"
  by (simp add: on_table_def memory_ports_def)

lemma toy_admit_peer:
  "\<exists>s'. admit_peer (toy_out toy_peer []) memory_ports toy_node toy_peer (Some ''https://h/m'') 300 s w =
     (Inr accept_decision, s', w)"
  using never_raisesD [OF record_peer_reliable [OF memory_reliable(2)], of 0 toy_peer "''https://h/m''" s]
  by (auto simp: admit_peer_def toy_out_simps toy_node_def toy_admitted accept_decision_def resolved_url_def)

definition toy_keys :: "(string, jwk) dict" where
  "toy_keys = [(''k1'', public_jwk toy_crypto [])]"

lemma toy_trusted: "revocation_trusted toy_crypto (fn_federation_id toy_node) toy_keys self_scoped_authorize toy_notice"
  using toy_notice_trusted by (simp add: toy_node_def toy_keys_def)

lemma toy_notice_id [simp]: "rn_revoked_node_id toy_notice = ''a''"
  by (simp add: toy_notice_def)

lemma toy_revocation:
  "\<exists>s'. node_apply_revocation memory_ports toy_node toy_crypto 5 toy_notice toy_keys self_scoped_authorize
     (toy_state st ms) = (Inr (Some REVOKED), s')"
proof -
  have "on_table (tb_get (po_members memory_ports) (rn_revoked_node_id toy_notice)) (toy_state st ms) =
      (Inr (Some (toy_record st)), toy_state st ms)"
    by (simp add: memory_lookup) (simp add: toy_state_def table_get_def)
  then show ?thesis
    by (rule trusted_revocation_reliable [OF memory_reliable(2) toy_trusted])
qed

section \<open>Properties\<close>

text \<open>
  C5: Revocation is terminal: once a revocation has been answered with \<open>REVOKED\<close>, no sequence of
  hydrations, admissions, bootstraps, discoveries, refreshes and further revocations, whatever
  the network and the other peers do and whichever operations of the two stores raise, makes the
  peer's record anything else or brings its manifest back, so every inbound request in its name
  is refused as \<open>unknown_peer\<close> and claims no nonce.
\<close>

theorem revocation_is_terminal:
  assumes "node_ports Q V" "well_kept V s"
    and "node_apply_revocation Q n L' now notice trusted authorize s = (Inr (Some REVOKED), s1)"
    and "(node_step E Q n)\<^sup>*\<^sup>* s1 s'"
  shows "revoked V s' (rn_revoked_node_id notice) \<and>
    verify_known_inbound n L validate_json now' s' hdr (rn_revoked_node_id notice) verb path body maxb skew cache c =
      (Inl (UnauthorizedPeerRequest ''unknown_peer''), c)"
proof -
  note ports = assms(1)
  have "gone V (rn_revoked_node_id notice) s1" "well_kept V s1"
    using node_ports.revocation_run [OF ports assms(2,3)] by (auto simp: touches_def)
  then have "gone V (rn_revoked_node_id notice) s'"
    using node_ports.node_steps_ok [OF ports assms(4)] node_ports.step_ok_def [OF ports] by blast
  then show ?thesis
    using node_ports.gone_refused [OF ports] by (simp add: gone_def)
qed

lemma revocation_is_terminal_witness:
  "\<exists>s1 s'. node_apply_revocation memory_ports toy_node toy_crypto 5 toy_notice toy_keys self_scoped_authorize
      (toy_state ACTIVE [(''a'', toy_peer)]) = (Inr (Some REVOKED), s1) \<and>
    admit_peer (toy_out toy_peer []) memory_ports toy_node toy_peer (Some ''https://h/m'') 300 s1 () =
      (Inr accept_decision, s', ()) \<and> revoked memory_views s' ''a'' \<and>
    verify_known_inbound toy_node toy_crypto (\<lambda>_. Inr (toy_request 0)) 0 s' (Some ''h'') ''a'' ''get''
      ''/members'' [] None 300 (Some (memory_set 0)) [] = (Inl (UnauthorizedPeerRequest ''unknown_peer''), [])"
proof -
  obtain s1 where revoke: "node_apply_revocation memory_ports toy_node toy_crypto 5 toy_notice toy_keys
      self_scoped_authorize (toy_state ACTIVE [(''a'', toy_peer)]) = (Inr (Some REVOKED), s1)"
    using toy_revocation by blast
  obtain s' where admit: "admit_peer (toy_out toy_peer []) memory_ports toy_node toy_peer (Some ''https://h/m'')
      300 s1 () = (Inr accept_decision, s', ())"
    using toy_admit_peer by blast
  then have steps: "(node_step (toy_out toy_peer []) memory_ports toy_node)\<^sup>*\<^sup>* s1 s'"
    by (intro r_into_rtranclp step_admit)
  note terminal = revocation_is_terminal [OF memory.node_ports_axioms toy_state_kept(2) revoke steps, unfolded toy_notice_id]
  show ?thesis
    by (intro exI conjI) (rule revoke, rule admit, rule terminal [THEN conjunct1], rule terminal [THEN conjunct2])
qed

text \<open>
  C23: A trusted revocation of a known peer that returns answers \<open>REVOKED\<close>, marks exactly that
  peer's record, and evicts its manifest from the cache and from the durable store; also when it
  raises, every other peer's record and manifest stays.
\<close>

theorem trusted_revocation_evicts:
  assumes "node_ports Q V" "well_kept V s"
    and "revocation_trusted L (fn_federation_id n) trusted authorize notice"
    and "known V s (rn_revoked_node_id notice) = Some rec"
    and "node_apply_revocation Q n L now notice trusted authorize s = (r, s')"
  shows "(\<forall>st. r = Inr st \<longrightarrow> st = Some REVOKED \<and>
       known V s' = (known V s)(rn_revoked_node_id notice \<mapsto> nv_keep_member V (set_state REVOKED now rec)) \<and>
       cached s' = (cached s)(rn_revoked_node_id notice := None) \<and>
       stored V s' = (stored V s)(rn_revoked_node_id notice := None)) \<and>
    (\<forall>k. k \<noteq> rn_revoked_node_id notice \<longrightarrow>
       known V s' k = known V s k \<and> cached s' k = cached s k \<and> stored V s' k = stored V s k)"
proof (intro conjI allI impI)
  fix st assume "r = Inr st"
  note returned = node_ports.trusted_revocation_returns [OF assms(1-4) assms(5) [unfolded this]]
  show "st = Some REVOKED" "known V s' = (known V s)(rn_revoked_node_id notice \<mapsto> nv_keep_member V (set_state REVOKED now rec))"
    "cached s' = (cached s)(rn_revoked_node_id notice := None)"
    "stored V s' = (stored V s)(rn_revoked_node_id notice := None)"
    by (fact returned)+
qed (use node_ports.revocation_run(1) [OF assms(1,2,5)] in \<open>simp_all add: touches_def\<close>)

lemma trusted_revocation_evicts_witness:
  "\<exists>s'. node_apply_revocation memory_ports toy_node toy_crypto 5 toy_notice toy_keys self_scoped_authorize
      (toy_state ACTIVE [(''a'', toy_peer)]) = (Inr (Some REVOKED), s') \<and>
    known memory_views s' ''a'' = Some (set_state REVOKED 5 (toy_record ACTIVE)) \<and>
    cached s' ''a'' = None \<and> stored memory_views s' ''a'' = None"
proof -
  let ?s = "toy_state ACTIVE [(''a'', toy_peer)]"
  obtain s' where run: "node_apply_revocation memory_ports toy_node toy_crypto 5 toy_notice toy_keys
      self_scoped_authorize ?s = (Inr (Some REVOKED), s')"
    using toy_revocation by blast
  have "known memory_views ?s (rn_revoked_node_id toy_notice) = Some (toy_record ACTIVE)"
    by (simp add: toy_state_simps)
  from trusted_revocation_evicts [OF memory.node_ports_axioms toy_state_kept(2) toy_trusted this run] run
  show ?thesis by simp
qed

lemma stuck_revocation:
  assumes "node_ports Q V" "well_kept V s"
    and "\<forall>k. never_raises (tb_get (po_members Q) k)" "\<forall>r. never_raises (tb_upsert (po_members Q) r)"
    and "revocation_trusted L (fn_federation_id n) trusted authorize notice"
    and "known V s (rn_revoked_node_id notice) = Some rec"
    and "nd_store s = Some st" "ms_delete (po_manifests Q) (rn_revoked_node_id notice) st = (Inl e, st1)"
  shows "\<exists>t. node_apply_revocation Q n L now notice trusted authorize s = (Inl e, s\<lparr>nd_table := t,
      nd_manifests := dict_pop (rn_revoked_node_id notice) (nd_manifests s), nd_store := Some st1\<rparr>) \<and>
    revoked V (s\<lparr>nd_table := t\<rparr>) (rn_revoked_node_id notice)"
proof -
  let ?k = "rn_revoked_node_id notice" and ?r = "set_state REVOKED now rec"
  note ports = assms(1)
  obtain x t1 where get: "tb_get (po_members Q) ?k (nd_table s) = (Inr x, t1)"
    using never_raisesD [OF assms(3) [rule_format]] by blast
  obtain t2 where put: "tb_upsert (po_members Q) ?r t1 = (Inr (), t2)"
    using never_raises_unit [OF assms(4) [rule_format]] by blast
  have ok: "nv_members_ok V (nd_table s)" using assms(2) by (simp add: well_kept_def)
  have members: "membership_port (po_members Q) (nv_keep_member V) (nv_members V) (nv_members_ok V)"
    using ports by (simp add: node_ports_def)
  note laws = membership_port.axioms(1) [OF members]
  have t1: "nv_members_ok V t1" and x: "x = Some rec"
    using member_port.get_view [OF laws ok get] assms(6) by (auto simp: known_def)
  from apply_revocation_found(1) [OF get [unfolded x] assms(5)] put
  have applied: "apply_revocation_notice (po_members Q) L now notice (fn_federation_id n) trusted authorize
      (nd_table s) = (Inr (Some REVOKED), t2)"
    by (simp add: io_bind_def)
  have "rec_node_id rec = ?k"
    by (rule node_ports.record_id [OF ports assms(2,6)])
  then have "nv_members V t2 ?k = Some (nv_keep_member V ?r)"
    using store_port.upsert_ok [OF member_port.axioms(1) [OF laws] t1 put] by auto
  then have "revoked V (s\<lparr>nd_table := t2\<rparr>) ?k"
    using membership_port.state_kept [OF members] by (simp add: revoked_def is_revoked_def known_def)
  moreover have "node_apply_revocation Q n L now notice trusted authorize s = (Inl e, s\<lparr>nd_table := t2,
      nd_manifests := dict_pop ?k (nd_manifests s), nd_store := Some st1\<rparr>)"
    using applied assms(7,8)
    by (simp add: node_apply_revocation_def on_table_def io_bind_def forget_manifest_def on_store_def)
  ultimately show ?thesis by blast
qed

text \<open>
  C28: A revocation whose eviction fails is undone by a restart: the record is \<open>REVOKED\<close>, but when
  the manifest store raises on the delete and keeps the manifest, the next hydration reads it
  back into the cache, and requests in the name of the revoked peer are verified against it
  instead of refused.
\<close>

theorem failed_eviction_returns_on_restart:
  fixes c :: 'c
  assumes "node_ports Q V" "well_kept V s"
    and "\<forall>k. never_raises (tb_get (po_members Q) k)" "\<forall>r. never_raises (tb_upsert (po_members Q) r)"
    and "revocation_trusted L (fn_federation_id n) trusted authorize notice"
    and "known V s (rn_revoked_node_id notice) = Some rec" "stored V s (rn_revoked_node_id notice) = Some m"
    and "nd_store s = Some st" "ms_delete (po_manifests Q) (rn_revoked_node_id notice) st = (Inl e, st1)"
    and "nv_manifests V st1 = nv_manifests V st" "ms_values (po_manifests Q) st1 = (Inr ms, st2)"
  shows "\<exists>s1 s2. node_apply_revocation Q n L now notice trusted authorize s = (Inl e, s1) \<and>
    hydrate Q (s1\<lparr>nd_manifests := []\<rparr>) = (Inr (), s2) \<and> revoked V s2 (rn_revoked_node_id notice) \<and>
    (\<forall>L' vj now' hdr verb path body maxb skew cache.
       verify_known_inbound n L' vj now' s2 hdr (rn_revoked_node_id notice) verb path body maxb skew cache c =
       verify_inbound n L' vj now' hdr m verb path body maxb skew cache c)"
proof -
  let ?k = "rn_revoked_node_id notice"
  note ports = assms(1)
  obtain t2 where run: "node_apply_revocation Q n L now notice trusted authorize s =
      (Inl e, s\<lparr>nd_table := t2, nd_manifests := dict_pop ?k (nd_manifests s), nd_store := Some st1\<rparr>)"
    and revoked: "revoked V (s\<lparr>nd_table := t2\<rparr>) ?k"
    using stuck_revocation [OF assms(1-6,8,9)] by blast
  let ?s1 = "s\<lparr>nd_table := t2, nd_manifests := dict_pop ?k (nd_manifests s), nd_store := Some st1\<rparr>"
  let ?s2 = "?s1\<lparr>nd_manifests := dict_by mf_node_id ms, nd_store := Some st2\<rparr>"
  have hydrate: "hydrate Q (?s1\<lparr>nd_manifests := []\<rparr>) = (Inr (), ?s2)"
    using assms(11) by (simp add: hydrate_def)
  have kept1: "well_kept V ?s1"
    using node_ports.revocation_run(1) [OF ports assms(2) run] by (rule touches_kept)
  then have kept: "well_kept V (?s1\<lparr>nd_manifests := []\<rparr>)"
    by (simp add: well_kept_def)
  have "cached ?s2 = stored V (?s1\<lparr>nd_manifests := []\<rparr>)"
    using node_ports.hydrate_effect(5) [OF ports kept hydrate] by simp
  then have "cached ?s2 ?k = Some m"
    using assms(7,8,10) by (simp add: stored_def)
  then have "dict_get (nd_manifests ?s2) ?k = Some m" by (simp only: cached_def)
  then have "verify_known_inbound n L' vj now' ?s2 hdr ?k verb path body maxb skew cache c =
       verify_inbound n L' vj now' hdr m verb path body maxb skew cache c"
    for L' vj now' hdr verb path body maxb skew cache
    by (simp add: verify_known_inbound_def)
  moreover have "revoked V ?s2 ?k"
    using revoked by (simp add: revoked_def known_def)
  ultimately show ?thesis
    using run hydrate by blast
qed

lemma failed_eviction_returns_on_restart_witness:
  "\<exists>s1 s2. node_apply_revocation (stuck_ports AsyncTimeoutError) toy_node toy_crypto 5 toy_notice toy_keys
      self_scoped_authorize (toy_state ACTIVE [(''a'', toy_peer)]) = (Inl AsyncTimeoutError, s1) \<and>
    hydrate (stuck_ports AsyncTimeoutError) (s1\<lparr>nd_manifests := []\<rparr>) = (Inr (), s2) \<and>
    revoked memory_views s2 ''a'' \<and>
    verify_known_inbound toy_node toy_crypto (\<lambda>_. Inr (toy_request 0)) 0 s2 (Some ''h'') ''a'' ''get''
      ''/members'' [] None 300 (Some (memory_set 0)) [] =
    verify_inbound toy_node toy_crypto (\<lambda>_. Inr (toy_request 0)) 0 (Some ''h'') toy_peer ''get''
      ''/members'' [] None 300 (Some (memory_set 0)) []"
proof -
  let ?s = "toy_state ACTIVE [(''a'', toy_peer)]" and ?Q = "stuck_ports AsyncTimeoutError"
  have ports: "\<forall>k. never_raises (tb_get (po_members ?Q) k)" "\<forall>r. never_raises (tb_upsert (po_members ?Q) r)"
    "ms_delete (po_manifests ?Q) k d = (Inl AsyncTimeoutError, d)" "ms_values (po_manifests ?Q) d = (Inr (dict_values d), d)"
    for k d
    by (simp_all add: never_raises_def stuck_ports_def memory_ports_def)
  have "known memory_views ?s (rn_revoked_node_id toy_notice) = Some (toy_record ACTIVE)"
    "stored memory_views ?s (rn_revoked_node_id toy_notice) = Some toy_peer" "nd_store ?s = Some [(''a'', toy_peer)]"
    by (simp_all add: toy_state_simps) (simp add: toy_state_def)
  from failed_eviction_returns_on_restart [OF stuck.node_ports_axioms toy_state_kept(2) ports(1,2) toy_trusted this
      ports(3) refl ports(4), where now = 5 and c = "[] :: string list"]
  show ?thesis unfolding toy_notice_id by blast
qed

text \<open>
  C24: The durable store refines the cache: as long as a node starts with both in step and the
  manifest store does not raise on its writes, whatever the node does they stay so, and a node
  restarted with that store hydrates to a cache in which every lookup answers as before, up to
  what the store made of the manifest, and in which every inbound request is answered as before.
\<close>

theorem restart_restores_manifests:
  assumes "node_ports Q V" "manifests_reliable Q" "well_kept V s" "synced V s"
    and "(node_step E Q n)\<^sup>*\<^sup>* s s'" "nd_store s' \<noteq> None"
    and "hydrate Q (s'\<lparr>nd_manifests := []\<rparr>) = (Inr u, s2)"
  shows "dict_get (nd_manifests s2) k = map_option (nv_keep_manifest V) (dict_get (nd_manifests s') k) \<and>
    verify_known_inbound n L vj now s2 hdr k verb path body maxb skew cache c =
      verify_known_inbound n L vj now s' hdr k verb path body maxb skew cache c"
proof -
  have "well_kept V s'" "synced V s'"
    using node_ports.node_steps_ok [OF assms(1,5,3)] assms(2,4)
    by (simp_all add: node_ports.step_ok_def [OF assms(1)])
  then have "well_kept V (s'\<lparr>nd_manifests := []\<rparr>)" "stored V s' = (\<lambda>k. map_option (nv_keep_manifest V) (cached s' k))"
    using assms(6) by (simp_all add: well_kept_def synced_def)
  then have "cached s2 = (\<lambda>k. map_option (nv_keep_manifest V) (cached s' k))"
    using node_ports.hydrate_effect(5) [OF assms(1) _ assms(7)] assms(6) by simp
  then have "dict_get (nd_manifests s2) k = map_option (nv_keep_manifest V) (dict_get (nd_manifests s') k)"
    by (simp add: cached_def)
  then show ?thesis
    using node_ports.keep_content [OF assms(1)]
    by (cases "dict_get (nd_manifests s') k") (simp_all add: verify_known_inbound_def verify_inbound_same)
qed

lemma restart_restores_manifests_witness:
  "\<exists>s2. hydrate memory_ports ((toy_state ACTIVE [(''a'', toy_peer)])\<lparr>nd_manifests := []\<rparr>) = (Inr (), s2) \<and>
    dict_get (nd_manifests s2) ''a'' = Some toy_peer"
proof -
  let ?s = "toy_state ACTIVE [(''a'', toy_peer)]"
  obtain s2 where run: "hydrate memory_ports (?s\<lparr>nd_manifests := []\<rparr>) = (Inr (), s2)"
    by (simp add: hydrate_def toy_state_def memory_ports_def)
  have "synced memory_views ?s" "nd_store ?s \<noteq> None"
    by (simp add: synced_def toy_state_simps fun_eq_iff) (simp add: toy_state_def)
  note restored = restart_restores_manifests [OF memory.node_ports_axioms memory_reliable(1) toy_state_kept(2) this(1)
      rtranclp.rtrancl_refl this(2) run, of "''a''", THEN conjunct1]
  have "dict_get (nd_manifests s2) ''a'' = Some toy_peer"
    by (rule restored [THEN trans]) (simp add: toy_state_def)
  with run show ?thesis by blast
qed

text \<open>
  C26: \<open>admit_peer\<close> changes the node exactly when the manifest is admitted, some manifest URL is
  known and the peer is not revoked: then the verified manifest is cached and stored and the
  peer's record is a fresh active one. A revoked peer (or one without a URL) is answered as
  accepted all the same, with nothing recorded.
\<close>

theorem admit_peer_records:
  assumes "node_ports Q V" "well_kept V s"
    and "admit_peer E Q n m url skew s w = (Inr d, s', w')"
  shows "if ad_accepted d \<and> resolved_url url m \<noteq> None \<and> \<not> revoked V s (mf_node_id m)
    then self_signed (out_crypto E) m \<and> policy_allows (fn_admission_policy n) m \<and>
      cached s' (mf_node_id m) = Some m \<and> (nd_store s \<noteq> None \<longrightarrow> stored V s' (mf_node_id m) = Some (nv_keep_manifest V m)) \<and>
      (\<exists>now. known V s' (mf_node_id m) =
         Some (nv_keep_member V (discovered_record m (the (resolved_url url m)) now)))
    else known V s' = known V s \<and> cached s' = cached s \<and> stored V s' = stored V s"
proof -
  obtain w1 where run: "admit_manifest (out_crypto E) (out_now E w) m (fn_admission_policy n) skew w =
      (Inr d, w1)"
    and cases: "if ad_accepted d \<and> resolved_url url m \<noteq> None
      then record_peer Q (out_now E w1) m (the (resolved_url url m)) s = (Inr (), s') else s' = s"
    using assms(3) by (auto simp: admit_peer_def split: prod.splits sum.splits option.splits if_splits)
  show ?thesis
  proof (cases "ad_accepted d \<and> resolved_url url m \<noteq> None")
    case False
    with cases show ?thesis by auto
  next
    case True
    with cases have rec: "record_peer Q (out_now E w1) m (the (resolved_url url m)) s = (Inr (), s')" by simp
    show ?thesis
    proof (cases "revoked V s (mf_node_id m)")
      case True
      with node_ports.record_peer_touches [OF assms(1,2) rec] show ?thesis
        by (simp add: touches_def fun_eq_iff)
    next
      case False
      with \<open>ad_accepted d \<and> _\<close> node_ports.record_peer_returns [OF assms(1,2) rec] admit_manifest_verified [OF run]
      show ?thesis
        by (auto simp: check_manifest_True_iff)
    qed
  qed
qed

lemma admit_peer_records_witness:
  "\<exists>s'. admit_peer (toy_out toy_peer []) memory_ports toy_node toy_peer (Some ''https://h/m'') 300
      (toy_state REJECTED []) () = (Inr accept_decision, s', ()) \<and>
    cached s' ''a'' = Some toy_peer \<and>
    (\<exists>now. known memory_views s' ''a'' = Some (discovered_record toy_peer ''https://h/m'' now))"
proof -
  obtain s' where run: "admit_peer (toy_out toy_peer []) memory_ports toy_node toy_peer (Some ''https://h/m'')
      300 (toy_state REJECTED []) () = (Inr accept_decision, s', ())"
    using toy_admit_peer by blast
  have "resolved_url (Some ''https://h/m'') toy_peer = Some ''https://h/m''" "ad_accepted accept_decision"
    by (simp_all add: resolved_url_def accept_decision_def)
  with admit_peer_records [OF memory.node_ports_axioms toy_state_kept(1) run] run show ?thesis
    by (auto simp: toy_peer_id(1) toy_state_simps)
qed

text \<open>
  C25: What \<open>refresh_peer\<close> does with its decision: an accepted or unchanged manifest, of the same
  peer and never of a smaller revision, replaces the cached one and reactivates the peer at that
  revision; a quarantine keeps the manifest and marks the peer stale; a rejection evicts the
  manifest and marks the peer rejected. No other peer is touched.
\<close>

theorem refresh_applies_decision:
  assumes "node_ports Q V" "well_kept V s" "known V s k = Some rec" "cached s k = Some m"
    and "refresh_peer E Q n k kp skew s w = (Inr d, s', w')"
  shows "(\<exists>now. case md_action d of
       RF_quarantine \<Rightarrow> cached s' k = Some m \<and>
         known V s' k = Some (nv_keep_member V (set_state STALE_MANIFEST now rec))
     | RF_reject \<Rightarrow> cached s' k = None \<and> stored V s' k = None \<and>
         known V s' k = Some (nv_keep_member V (set_state REJECTED now rec))
     | _ \<Rightarrow> \<exists>m'. md_manifest d = Some m' \<and> mf_node_id m' = k \<and> mf_revision m \<le> mf_revision m' \<and>
         cached s' k = Some m' \<and>
         known V s' k = Some (nv_keep_member V (admit None now (rec\<lparr>rec_manifest_revision := mf_revision m'\<rparr>)))) \<and>
    (\<forall>j. j \<noteq> k \<longrightarrow> known V s' j = known V s j \<and> cached s' j = cached s j \<and> stored V s' j = stored V s j)"
proof -
  obtain x s1 where look: "on_table (tb_get (po_members Q) k) s = (Inr x, s1)"
    using assms(5) by (auto simp: refresh_peer_def split: prod.splits sum.splits)
  note s1 = node_ports.lookup_effect [OF assms(1,2) look]
  have kept: "well_kept V s1" and rec: "known V s1 k = Some rec" and m: "dict_get (nd_manifests s1) k = Some m"
    and x: "x = Some rec" and same: "cached s1 = cached s"
    using s1 assms(3,4) by (auto simp: touches_def cached_def)
  obtain w1 where run: "refresh_peer_manifest E (node_client n) m (rec_manifest_url rec) kp skew w = (Inr d, w1)"
    and ap: "apply_refresh_decision Q (out_now E w1) k d s1 = (Inr (), s')"
    using assms(5) look x m by (auto simp: refresh_peer_def split: prod.splits sum.splits)
  have id: "mf_node_id m = k" by (rule node_ports.cached_id [OF assms(1,2,4)])
  obtain t where sound: "sound_refresh (out_crypto E) t skew m d"
    using refresh_peer_sound [OF run] by blast
  note applied = node_ports.apply_decision_returns [OF assms(1) kept ap rec]
  have "about k d" using about_sound [OF sound] id by simp
  then have "touches Q V {k} s1 s'"
    using node_ports.apply_decision_touches [OF assms(1) kept _ ap] by blast
  with s1(1) have "\<forall>j. j \<noteq> k \<longrightarrow> known V s' j = known V s j \<and> cached s' j = cached s j \<and> stored V s' j = stored V s j"
    by (simp add: touches_def)
  moreover have "\<exists>m'. md_manifest d = Some m' \<and> mf_node_id m' = k \<and> mf_revision m \<le> mf_revision m' \<and>
         cached s' k = Some m' \<and>
         known V s' k = Some (nv_keep_member V (admit None (out_now E w1) (rec\<lparr>rec_manifest_revision := mf_revision m'\<rparr>)))"
    if act: "md_action d \<in> {RF_accept, RF_unchanged}"
  proof -
    obtain m' where m': "md_manifest d = Some m'" "mf_node_id m' = k" "mf_revision m \<le> mf_revision m'"
      using sound act id by (auto simp: sound_refresh_def split: if_splits)
    with applied(3) [OF act m'(1,2)] show ?thesis by blast
  qed
  ultimately show ?thesis
    using applied(1,2) same assms(4) by (cases "md_action d") auto
qed

lemma toy_unchanged:
  "\<exists>d. refresh_peer_manifest (toy_out toy_peer []) (node_client toy_node) toy_peer ''https://h/m'' None 300 w =
      (Inr d, w) \<and> md_action d = RF_unchanged"
proof -
  have "dict_eq_by (dict_eq_by (=)) (keys_by_id toy_peer) (keys_by_id toy_peer)"
    by (simp add: keys_by_id_def toy_signed_def toy_manifest_def dict_of_pairs_def dict_eq_by_def
        public_jwk_def jwk_of_raw_def)
  moreover have "node_client toy_node = toy_client"
    by (simp add: node_client_def toy_node_def toy_client_def)
  ultimately show ?thesis
    by (simp add: refresh_peer_manifest_def toy_fetch check_key_continuity_def kc_def with_manifest_def)
qed

lemma refresh_applies_decision_witness:
  "\<exists>d s'. refresh_peer (toy_out toy_peer []) memory_ports toy_node ''a'' None 300
      (toy_state COOLDOWN [(''a'', toy_peer)]) () = (Inr d, s', ()) \<and> md_action d = RF_unchanged \<and>
    (\<exists>m'. cached s' ''a'' = Some m' \<and> mf_revision m' \<ge> 1)"
proof -
  let ?s = "toy_state COOLDOWN [(''a'', toy_peer)]"
  obtain d where d: "refresh_peer_manifest (toy_out toy_peer []) (node_client toy_node) toy_peer ''https://h/m''
      None 300 () = (Inr d, ())" "md_action d = RF_unchanged"
    using toy_unchanged by blast
  obtain s' where ap: "apply_refresh_decision memory_ports (out_now (toy_out toy_peer []) ()) ''a'' d ?s = (Inr (), s')"
    using never_raises_unit [OF apply_decision_reliable [OF memory_reliable(2)]] by blast
  have tab: "table_get (nd_table ?s) ''a'' = Some (toy_record COOLDOWN)" "dict_get (nd_manifests ?s) ''a'' = Some toy_peer"
    by (simp_all add: toy_state_def table_get_def)
  have run: "refresh_peer (toy_out toy_peer []) memory_ports toy_node ''a'' None 300 ?s () = (Inr d, s', ())"
    unfolding refresh_peer_def memory_lookup by (simp add: tab d(1) ap)
  have known: "known memory_views ?s ''a'' = Some (toy_record COOLDOWN)" "cached ?s ''a'' = Some toy_peer"
    by (simp_all add: toy_state_simps)
  from refresh_applies_decision [OF memory.node_ports_axioms toy_state_kept(2) known run] run d(2)
  show ?thesis by (auto simp: toy_peer_id)
qed

text \<open>
  The peers a node selects are exactly the cached manifests of members that are eligible at
  that time; in particular none of a revoked, rejected, stale or cooling peer.
\<close>

theorem selected_peers_iff:
  assumes "node_ports Q V" "well_kept V s" "select_peers Q now s = (Inr ms, s')"
  shows "m \<in> set ms \<longleftrightarrow> cached s (mf_node_id m) = Some m \<and>
    (\<exists>r. known V s (mf_node_id m) = Some r \<and> rec_state r = ACTIVE \<and> is_eligible now r)"
proof -
  obtain rs s1 where el: "on_table (eligible_peers (po_members Q) now) s = (Inr rs, s1)"
    and ms: "ms = List.map_filter (\<lambda>r. dict_get (nd_manifests s1) (rec_node_id r)) rs"
    using assms(3) by (auto simp: select_peers_def io_bind_Inr)
  note eligible = node_ports.eligible_effect [OF assms(1,2) el]
  have "cached s1 = cached s" using eligible(1) by (auto simp: touches_def)
  then have ms: "m \<in> set ms \<longleftrightarrow> (\<exists>r \<in> set rs. cached s (rec_node_id r) = Some m)"
    by (force simp: ms List.map_filter_def cached_def)
  have active: "is_eligible now r \<Longrightarrow> rec_state r = ACTIVE" for r
    by (auto simp: is_eligible_def split: if_splits)
  note ids = node_ports.record_id [OF assms(1,2)] node_ports.cached_id [OF assms(1,2)]
  have "m \<in> set ms \<longleftrightarrow> (\<exists>r. known V s (rec_node_id r) = Some r \<and> is_eligible now r \<and>
      cached s (rec_node_id r) = Some m)"
    using eligible(2) ms by blast
  also have "\<dots> \<longleftrightarrow> cached s (mf_node_id m) = Some m \<and>
      (\<exists>r. known V s (mf_node_id m) = Some r \<and> rec_state r = ACTIVE \<and> is_eligible now r)"
    (is "?L \<longleftrightarrow> ?R")
  proof
    assume ?L
    then obtain r where r: "known V s (rec_node_id r) = Some r" "is_eligible now r" "cached s (rec_node_id r) = Some m"
      by blast
    from r active ids(2) [OF r(3)] show ?R by auto
  next
    assume ?R
    then obtain r where r: "known V s (mf_node_id m) = Some r" "is_eligible now r" "cached s (mf_node_id m) = Some m"
      by blast
    from r ids(1) [OF r(1)] show ?L by (intro exI [of _ r]) simp
  qed
  finally show ?thesis .
qed

lemma selected_peers_iff_witness:
  "\<exists>ms s'. select_peers memory_ports 0 (toy_state ACTIVE [(''a'', toy_peer)]) = (Inr ms, s') \<and> toy_peer \<in> set ms"
proof -
  let ?s = "toy_state ACTIVE [(''a'', toy_peer)]"
  obtain ms s' where run: "select_peers memory_ports 0 ?s = (Inr ms, s')"
    by (simp add: select_peers_def io_bind_def on_table_def eligible_peers_def memory_ports_def)
  have "is_eligible 0 (toy_record ACTIVE)"
    by (simp add: toy_record_def is_eligible_def new_record_def)
  with selected_peers_iff [OF memory.node_ports_axioms toy_state_kept(2) run, of toy_peer] run show ?thesis
    by (auto simp: toy_peer_id toy_state_simps)
qed

end
