(* ===== verification/Node_Gates.thy ===== *)
theory Node_Gates
  imports Node_Properties
begin

text \<open>
  Where a node's manifests come from. Every manifest that a node ever caches or stores has been
  checked against a key it advertises (\<open>genuine\<close>), whichever way it came in; but the two ways in
  ask different things of it: an admission consults the policy and not the manifest it replaces,
  a refresh consults the manifest it replaces and not the policy.
\<close>

section \<open>The manifests an operation brings in\<close>

definition held :: "('t, 's) node_views \<Rightarrow> ('t, 's) node_state \<Rightarrow> manifest set" where
  "held V s = ran (cached s) \<union> ran (stored V s)"

definition genuine :: "crypto_lib \<Rightarrow> manifest \<Rightarrow> bool" where
  "genuine L m \<longleftrightarrow> (\<exists>now skew. check_manifest L now m skew = Inr (True, ''ok''))"

text \<open>Manifests, and what the store makes of them.\<close>

definition copies :: "('t, 's) node_views \<Rightarrow> manifest set \<Rightarrow> manifest set" where
  "copies V M = M \<union> nv_keep_manifest V ` M"

definition brings ::
    "('t, 's) node_views \<Rightarrow> manifest set \<Rightarrow> ('t, 's) node_state \<Rightarrow> ('t, 's) node_state \<Rightarrow> bool" where
  "brings V M s s' \<longleftrightarrow> well_kept V s' \<and> held V s' \<subseteq> held V s \<union> copies V M"

lemma brings_refl: "well_kept V s \<Longrightarrow> brings V M s s"
  by (simp add: brings_def)

lemma brings_trans: "brings V M s s1 \<Longrightarrow> brings V M s1 s2 \<Longrightarrow> brings V M s s2"
  by (auto simp: brings_def)

lemma brings_mono: "brings V M s s' \<Longrightarrow> M \<subseteq> N \<Longrightarrow> brings V N s s'"
  unfolding brings_def copies_def by blast

lemma brings_kept: "brings V M s s' \<Longrightarrow> well_kept V s'"
  by (simp add: brings_def)

lemma brings_same: "well_kept V s' \<Longrightarrow> cached s' = cached s \<Longrightarrow> stored V s' = stored V s \<Longrightarrow> brings V M s s'"
  by (simp add: brings_def held_def)

lemma brings_bind:
  assumes "io_bind m f s = (q, s')"
    and "\<And>r s1. m s = (r, s1) \<Longrightarrow> brings V M s s1"
    and "\<And>x s1. m s = (Inr x, s1) \<Longrightarrow> f x s1 = (q, s') \<Longrightarrow> well_kept V s1 \<Longrightarrow> brings V M s1 s'"
  shows "brings V M s s'"
  using assms(1)
proof (cases rule: io_bind_cases)
  case raised
  with assms(2) show ?thesis by blast
next
  case (went x s1)
  with assms(2,3) brings_kept brings_trans show ?thesis by blast
qed

text \<open>A store's copy of a signed manifest is signed.\<close>

lemma same_content_signed: "same_content m m' \<Longrightarrow> self_signed L m' \<longleftrightarrow> self_signed L m"
  by (simp add: same_content_def self_signed_def verify_model_def)

text \<open>A decision's manifest, when it lets the peer stay, is genuine.\<close>

definition decided :: "manifest_refresh_decision \<Rightarrow> manifest set" where
  "decided d = (if md_action d \<in> {RF_accept, RF_unchanged} then set_option (md_manifest d) else {})"

lemma decided_genuine:
  assumes "refresh_peer_manifest E c m url kp skew w = (Inr d, w')"
  shows "decided d \<subseteq> Collect (genuine (out_crypto E))"
proof -
  obtain now where "sound_refresh (out_crypto E) now skew m d"
    using refresh_peer_sound [OF assms] by blast
  then have "md_action d \<in> {RF_accept, RF_unchanged} \<Longrightarrow> \<exists>m. md_manifest d = Some m \<and> genuine (out_crypto E) m"
    unfolding sound_refresh_def genuine_def by blast
  then show ?thesis
    by (auto simp: decided_def)
qed

lemma decided_unknown [simp]: "decided unknown_peer_decision = {}"
  by (simp add: decided_def unknown_peer_decision_def no_manifest_def)

lemma ran_upd_subset: "ran (f(k \<mapsto> x)) \<subseteq> insert x (ran f)"
  by (auto simp: ran_def)

lemma ran_del_subset: "ran (f(k := None)) \<subseteq> ran f"
  by (auto simp: ran_def)

context node_ports
begin

lemma lookup_brings:
  "well_kept V s \<Longrightarrow> on_table (tb_get (po_members Q) k) s = (q, s') \<Longrightarrow> brings V M s s'"
  using lookup_effect(1) [of s k q s'] by (intro brings_same) (auto simp: touches_def)

lemma eligible_brings:
  "well_kept V s \<Longrightarrow> on_table (eligible_peers (po_members Q) now) s = (q, s') \<Longrightarrow> brings V M s s'"
  using eligible_effect(1) [of s now q s'] by (intro brings_same) (auto simp: touches_def)

lemma put_brings:
  "well_kept V s \<Longrightarrow> on_table (tb_upsert (po_members Q) r) s = (q, s') \<Longrightarrow> brings V M s s'"
  using put_effect(1-3) [of s r q s'] by (intro brings_same) (auto simp: touches_def)

lemma remember_brings:
  assumes "well_kept V s" "remember_manifest Q m s = (q, s')"
  shows "brings V {m} s s'"
proof -
  note effect = remember_effect [OF assms]
  have "ran (cached s') \<subseteq> insert m (ran (cached s))"
    by (simp add: effect(3) ran_upd_subset)
  moreover have "ran (stored V s') \<subseteq> insert (nv_keep_manifest V m) (ran (stored V s))"
    using effect(5) by (elim disjE) (simp_all add: ran_upd_subset subset_insertI)
  ultimately show ?thesis
    using touches_kept [OF effect(1)] by (auto simp: brings_def held_def copies_def)
qed

lemma forget_brings:
  assumes "well_kept V s" "forget_manifest Q k s = (q, s')"
  shows "brings V M s s'"
proof -
  note effect = forget_effect [OF assms]
  have "ran (cached s') \<subseteq> ran (cached s)"
    by (simp add: effect(3) ran_del_subset)
  moreover have "ran (stored V s') \<subseteq> ran (stored V s)"
    using effect(4) by (elim disjE) (simp_all add: ran_del_subset)
  ultimately show ?thesis
    using touches_kept [OF effect(1)] by (auto simp: brings_def held_def)
qed

lemma hydrate_brings: "well_kept V s \<Longrightarrow> hydrate Q s = (q, s') \<Longrightarrow> brings V M s s'"
  using hydrate_effect [of s q s'] by (auto simp: brings_def held_def)

lemma record_peer_brings:
  assumes "well_kept V s" "record_peer Q now m url s = (q, s')"
  shows "brings V {m} s s'"
  using assms(2) [unfolded record_peer_def]
proof (rule brings_bind)
  fix x s1
  assume kept: "well_kept V s1" and "(if is_revoked x then io_lift (Inr ())
      else io_bind (remember_manifest Q m)
        (\<lambda>_. on_table (tb_upsert (po_members Q) (discovered_record m url now)))) s1 = (q, s')"
  then show "brings V {m} s1 s'"
    by (auto simp: brings_refl split: if_splits elim!: brings_bind intro: remember_brings put_brings)
qed (rule lookup_brings [OF assms(1)])

lemma put_found_brings: "well_kept V s \<Longrightarrow> put_found Q x f s = (q, s') \<Longrightarrow> brings V M s s'"
  using put_brings by (auto simp: put_found_def brings_refl split: option.splits)

text \<open>An application of a decision brings in the decision's manifest at most.\<close>

lemma apply_decision_brings:
  assumes "well_kept V s" "apply_refresh_decision Q now k d s = (q, s')"
  shows "brings V (decided d) s s'"
  using assms(2) [unfolded apply_refresh_decision_def]
proof (rule brings_bind)
  fix x s1
  assume kept: "well_kept V s1" and run: "(case md_action d of
         RF_accept \<Rightarrow> (case md_manifest d of None \<Rightarrow> io_lift (Inr ())
           | Some m \<Rightarrow> io_bind (remember_manifest Q m)
               (\<lambda>_. put_found Q x (\<lambda>r. admit None now (r\<lparr>rec_manifest_revision := mf_revision m\<rparr>))))
       | RF_unchanged \<Rightarrow> (case md_manifest d of None \<Rightarrow> io_lift (Inr ())
           | Some m \<Rightarrow> io_bind (remember_manifest Q m)
               (\<lambda>_. put_found Q x (\<lambda>r. admit None now (r\<lparr>rec_manifest_revision := mf_revision m\<rparr>))))
       | RF_quarantine \<Rightarrow> put_found Q x (set_state STALE_MANIFEST now)
       | RF_reject \<Rightarrow> io_bind (put_found Q x (set_state REJECTED now)) (\<lambda>_. forget_manifest Q k)) s1 = (q, s')"
  show "brings V (decided d) s1 s'"
    using run kept
    by (cases "md_action d"; cases "md_manifest d")
      (auto simp: decided_def brings_refl elim!: brings_bind
        intro: forget_brings put_found_brings remember_brings)
qed (rule lookup_brings [OF assms(1)])

lemma revocation_brings:
  assumes "well_kept V s" "node_apply_revocation Q n L now notice trusted authorize s = (q, s')"
  shows "brings V M s s'"
  using assms(2) [unfolded node_apply_revocation_def]
proof (rule brings_bind)
  fix p s1
  assume run: "on_table (apply_revocation_notice (po_members Q) L now notice (fn_federation_id n) trusted authorize) s =
      (p, s1)"
  then obtain t where t: "apply_revocation_notice (po_members Q) L now notice (fn_federation_id n) trusted authorize
      (nd_table s) = (p, t)" "s1 = s\<lparr>nd_table := t\<rparr>"
    by (auto simp: on_table_def split: prod.splits)
  have "nv_members_ok V (nd_table s)" using assms(1) by (simp add: well_kept_def)
  from members.revocation_effect [OF this t(1)] show "brings V M s s1"
    using assms(1) t(2) by (intro brings_same) (auto simp: well_kept_def)
qed (auto simp: brings_refl split: if_splits elim!: brings_bind intro: forget_brings)

end

section \<open>Properties\<close>

lemma accepted_authentic:
  assumes "verify_peer_request L vj now hdr pm self_id verb path body maxb skew cache c = (Inr p, c')"
  shows "\<exists>env sg. authentic_envelope L vj now hdr pm self_id verb path body maxb skew env sg \<and> p = peer_of env sg"
  using assms
  by (cases cache) (fastforce simp: verify_peer_request_ok_iff verify_signed_request_accepts
      verify_signed_request_accepts_no_cache envelope_checks_ok_iff authentic_envelope_def)+

text \<open>
  C12: An admission lets in what a refresh has refused: when a refresh rejects or quarantines a
  fetched manifest of a known peer, for an older revision or for keys that break continuity, and
  the same manifest is then offered for admission and passes the policy, the node caches it and
  makes the peer active under it.
\<close>

theorem admission_skips_continuity:
  assumes "node_ports Q V" "ports_reliable Q" "well_kept V s" "known V s k = Some rec" "cached s k = Some old"
    and "refresh_peer E Q n k kp skew s w = (Inr d, s1, w1)" "md_action d \<in> {RF_reject, RF_quarantine}"
    and "md_manifest d = Some m" "mf_node_id m = k"
    and "admit_manifest (out_crypto E) (out_now E w1) m (fn_admission_policy n) skew' w1 = (Inr ad, w2)"
    and "ad_accepted ad" "resolved_url url m = Some u"
  shows "\<exists>s2. admit_peer E Q n m url skew' s1 w1 = (Inr ad, s2, w2) \<and> cached s2 k = Some m \<and>
    known V s2 k = Some (nv_keep_member V (discovered_record m u (out_now E w2)))"
proof -
  note ports = assms(1)
  from assms(6,8) obtain r s0 m0 w0 where ap: "apply_refresh_decision Q (out_now E w0) k d s0 = (Inr (), s1)"
    and look: "on_table (tb_get (po_members Q) k) s = (Inr (Some r), s0)"
    by (auto simp: refresh_peer_def unknown_peer_decision_def no_manifest_def
        split: prod.splits sum.splits option.splits)
  note s0 = node_ports.lookup_effect(1) [OF ports assms(3) look]
  have "known V s0 k = Some rec"
    using s0 assms(4) by (simp add: touches_def)
  note applied = node_ports.apply_decision_returns(1,2) [OF ports touches_kept [OF s0] ap this]
  have "\<not> revoked V s1 k"
    using applied assms(7) by (auto simp: revoked_def is_revoked_def node_ports.keep_state [OF ports])
  moreover have kept: "well_kept V s1"
    by (rule touches_kept [OF node_ports.refresh_peer_quiet [OF ports assms(3,6)]])
  moreover obtain s2 where s2: "record_peer Q (out_now E w2) m u s1 = (Inr (), s2)"
    using never_raises_unit [OF record_peer_reliable [OF assms(2)]] by blast
  ultimately have "known V s2 k = Some (nv_keep_member V (discovered_record m u (out_now E w2)))" "cached s2 k = Some m"
    using node_ports.record_peer_returns(1,2) [OF ports kept s2] assms(9) by auto
  moreover have "admit_peer E Q n m url skew' s1 w1 = (Inr ad, s2, w2)"
    using assms(10-12) s2 by (simp add: admit_peer_def)
  ultimately show ?thesis by blast
qed

text \<open>A peer whose cached manifest is of revision 5, as offered revision 1 again.\<close>

lemma toy_rollback:
  "\<exists>d s1. refresh_peer (toy_out toy_peer []) memory_ports toy_node ''a'' None 300
      (toy_state ACTIVE [(''a'', toy_peer\<lparr>mf_revision := 5\<rparr>)]) () = (Inr d, s1, ()) \<and>
    md_action d = RF_reject \<and> md_manifest d = Some toy_peer"
proof -
  let ?d = "with_manifest RF_reject ''revision_rollback'' (toy_peer\<lparr>mf_revision := 5\<rparr>) toy_peer None"
  let ?s = "toy_state ACTIVE [(''a'', toy_peer\<lparr>mf_revision := 5\<rparr>)]"
  have "node_client toy_node = toy_client"
    by (simp add: node_client_def toy_node_def toy_client_def)
  then have "refresh_peer_manifest (toy_out toy_peer []) (node_client toy_node) (toy_peer\<lparr>mf_revision := 5\<rparr>)
      ''https://h/m'' None 300 () = (Inr ?d, ())"
    by (simp add: refresh_peer_manifest_def toy_fetch toy_peer_id)
  moreover obtain s1 where "apply_refresh_decision memory_ports (out_now (toy_out toy_peer []) ()) ''a'' ?d ?s = (Inr (), s1)"
    using never_raises_unit [OF apply_decision_reliable [OF memory_reliable(2)]] by blast
  moreover have "table_get (nd_table ?s) ''a'' = Some (toy_record ACTIVE)"
    "dict_get (nd_manifests ?s) ''a'' = Some (toy_peer\<lparr>mf_revision := 5\<rparr>)"
    by (simp_all add: toy_state_def table_get_def)
  ultimately show ?thesis
    unfolding refresh_peer_def memory_lookup by (simp add: with_manifest_def)
qed

lemma admission_skips_continuity_witness:
  "\<exists>d s1 s2. refresh_peer (toy_out toy_peer []) memory_ports toy_node ''a'' None 300
      (toy_state ACTIVE [(''a'', toy_peer\<lparr>mf_revision := 5\<rparr>)]) () = (Inr d, s1, ()) \<and> md_action d = RF_reject \<and>
    admit_peer (toy_out toy_peer []) memory_ports toy_node toy_peer (Some ''https://h/m'') 300 s1 () =
      (Inr accept_decision, s2, ()) \<and> cached s2 ''a'' = Some toy_peer"
proof -
  let ?s = "toy_state ACTIVE [(''a'', toy_peer\<lparr>mf_revision := 5\<rparr>)]"
  obtain d s1 where run: "refresh_peer (toy_out toy_peer []) memory_ports toy_node ''a'' None 300 ?s () = (Inr d, s1, ())"
    "md_action d = RF_reject" "md_manifest d = Some toy_peer"
    using toy_rollback by blast
  have kept: "well_kept memory_views ?s"
    by (simp add: well_kept_def memory_views_def toy_state_def keyed_by_def dict_wf_def toy_peer_id)
  have admit: "admit_manifest (out_crypto (toy_out toy_peer [])) (out_now (toy_out toy_peer []) ()) toy_peer
      (fn_admission_policy toy_node) 300 () = (Inr accept_decision, ())" "ad_accepted accept_decision"
    by (simp_all add: toy_out_simps toy_node_def toy_admitted) (simp add: accept_decision_def)
  have "known memory_views ?s ''a'' = Some (toy_record ACTIVE)" "cached ?s ''a'' = Some (toy_peer\<lparr>mf_revision := 5\<rparr>)"
    "resolved_url (Some ''https://h/m'') toy_peer = Some ''https://h/m''"
    by (simp_all add: toy_state_simps resolved_url_def)
  from admission_skips_continuity [OF memory.node_ports_axioms memory_reliable(2) kept this(1,2) run(1) _ run(3)
      toy_peer_id(1) admit this(3)] run(1,2)
  show ?thesis by blast
qed

text \<open>
  C13: A refresh lets in what an admission would refuse: a newer manifest of a cached peer that keeps
  its keys is cached, and the peer made active under it, also when the node's policy no longer
  allows it, for instance because it has left the federation or moved to a private endpoint.
\<close>

theorem refresh_skips_admission:
  assumes "node_ports Q V" "ports_reliable Q" "well_kept V s" "known V s k = Some rec" "cached s k = Some old"
    and "fetch_manifest E (node_client n) (rec_manifest_url rec) skew w = (Inr m, w1)"
    and "check_key_continuity (out_crypto E) old m kp w1 = (Inr kd, w2)" "kd_action kd = KC_accept"
    and "mf_revision old < mf_revision m" "\<not> policy_allows (fn_admission_policy n) m"
  shows "\<exists>d s'. refresh_peer E Q n k kp skew s w = (Inr d, s', w2) \<and> md_action d = RF_accept \<and>
    cached s' k = Some m \<and> map_option rec_state (known V s' k) = Some ACTIVE \<and>
    (\<nexists>ad w3 w4. admit_manifest (out_crypto E) (out_now E w3) m (fn_admission_policy n) skew w3 = (Inr ad, w4) \<and>
       ad_accepted ad)"
proof -
  note ports = assms(1)
  let ?d = "with_manifest RF_accept ''revision_bump'' old m (Some kd)"
  have decided: "refresh_peer_manifest E (node_client n) old (rec_manifest_url rec) kp skew w = (Inr ?d, w2)"
    using assms(6-9) by (simp add: refresh_peer_manifest_def)
  obtain x s1 where look: "on_table (tb_get (po_members Q) k) s = (Inr x, s1)"
    using never_raisesD [OF reliable_returns(3) [OF assms(2)]] by blast
  note s1 = node_ports.lookup_effect [OF ports assms(3) look]
  have x: "x = Some rec" and old: "dict_get (nd_manifests s1) k = Some old" and rec: "known V s1 k = Some rec"
    using s1 assms(4,5) by (auto simp: touches_def cached_def)
  obtain s2 where ap: "apply_refresh_decision Q (out_now E w2) k ?d s1 = (Inr (), s2)"
    using never_raises_unit [OF apply_decision_reliable [OF assms(2)]] by blast
  have "mf_node_id m = k"
    using continuity_same_ids [OF assms(7,8)] node_ports.cached_id [OF ports assms(3,5)] by simp
  then have "cached s2 k = Some m \<and> map_option rec_state (known V s2 k) = Some ACTIVE"
    using node_ports.apply_decision_returns(3) [OF ports touches_kept [OF s1(1)] ap rec, of m]
      node_ports.keep_state [OF ports]
    by (simp add: with_manifest_def)
  moreover have "refresh_peer E Q n k kp skew s w = (Inr ?d, s2, w2)"
    by (simp add: refresh_peer_def look x old decided ap)
  moreover have "md_action ?d = RF_accept" by (simp add: with_manifest_def)
  ultimately show ?thesis
    using admit_manifest_verified [where m = m and policy = "fn_admission_policy n"] assms(10)
    by (intro exI [of _ ?d] exI [of _ s2] conjI) (simp_all, blast)
qed

text \<open>A peer that has moved to a loopback endpoint.\<close>

abbreviation moved_peer :: manifest where
  "moved_peer \<equiv> toy_signed (toy_manifest ''a'' ''http://127.0.0.1'')"

lemma refresh_skips_admission_witness:
  "\<exists>d s'. refresh_peer (toy_out moved_peer []) memory_ports toy_node ''a'' None 300
      (toy_state ACTIVE [(''a'', toy_peer\<lparr>mf_revision := 0\<rparr>)]) () = (Inr d, s', ()) \<and>
    cached s' ''a'' = Some moved_peer \<and> \<not> policy_allows toy_policy moved_peer"
proof -
  let ?old = "toy_peer\<lparr>mf_revision := 0\<rparr>"
  let ?s = "toy_state ACTIVE [(''a'', ?old)]"
  have client: "node_client toy_node = toy_client"
    by (simp add: node_client_def toy_node_def toy_client_def)
  have kept: "well_kept memory_views ?s"
    by (simp add: well_kept_def memory_views_def toy_state_def keyed_by_def dict_wf_def toy_peer_id)
  have known: "known memory_views ?s ''a'' = Some (toy_record ACTIVE)" "cached ?s ''a'' = Some ?old"
    by (simp_all add: toy_state_simps)
  have fetch: "fetch_manifest (toy_out moved_peer []) (node_client toy_node) (rec_manifest_url (toy_record ACTIVE)) 300 () =
      (Inr moved_peer, ())"
    by (simp add: client toy_fetch)
  have "dict_eq_by (dict_eq_by (=)) (keys_by_id ?old) (keys_by_id moved_peer)"
    by (simp add: keys_by_id_def toy_signed_def toy_manifest_def dict_of_pairs_def dict_eq_by_def
        public_jwk_def jwk_of_raw_def)
  then have continuity: "check_key_continuity (out_crypto (toy_out moved_peer [])) ?old moved_peer None () =
      (Inr (kc KC_accept ''ok''), ())"
    by (simp add: check_key_continuity_def) (simp add: toy_signed_def toy_manifest_def)
  have "check_endpoint ''http://127.0.0.1'' toy_policy \<noteq> Inr None" by code_simp
  then have policy: "\<not> policy_allows (fn_admission_policy toy_node) moved_peer"
    by (simp add: policy_allows_def toy_node_def toy_signed_def toy_manifest_def)
  have "kd_action (kc KC_accept ''ok'') = KC_accept" "mf_revision ?old < mf_revision moved_peer"
    by (simp_all add: kc_def toy_signed_def toy_manifest_def)
  from refresh_skips_admission [OF memory.node_ports_axioms memory_reliable(2) kept known fetch continuity this policy]
  show ?thesis using policy by (auto simp: toy_node_def)
qed

end
