(* ===== verification/Node_Race.thy ===== *)
theory Node_Race
  imports Node_Properties
begin

text \<open>
  Interleavings of a node's operations. The lifecycle lock of \<^verbatim>\<open>node.py\<close> makes
  \<open>record_peer\<close>, \<open>remember_manifest\<close>, \<open>apply_refresh_decision\<close>, a revocation and a hydration
  atomic, but the reads and the network calls before them run outside it: a refresh decides
  against the manifest it read when it started, a batch works through the members it listed, and
  a discovery stores what it found missing when it looked. A run is a node state with the tasks
  that are past their reads and have not written; a task may also be abandoned, by an exception
  or a cancellation. The lookups and writes of a discovery do not take the lock; they are steps of
  their own here, before or after a locked section and never inside one.
\<close>

section \<open>Runs\<close>

text \<open>
  A member that \<open>refresh_all\<close> has listed and not yet looked up; a refresh that has its decision; a
  discovery that has fetched and admitted a manifest for a peer it did not find in the table, and
  one that has stored the record but not yet the manifest.
\<close>

datatype task =
    BatchTask string string
  | RefreshTask string manifest_refresh_decision
  | DiscoveryTask manifest string
  | RememberTask manifest

fun task_peer :: "task \<Rightarrow> string" where
  "task_peer (BatchTask k url) = k"
| "task_peer (RefreshTask k d) = k"
| "task_peer (DiscoveryTask m url) = mf_node_id m"
| "task_peer (RememberTask m) = mf_node_id m"

inductive run_step ::
    "'w outside \<Rightarrow> ('t, 's) ports \<Rightarrow> 'w federation_node \<Rightarrow> ('t, 's) node_state \<times> task list \<Rightarrow>
      ('t, 's) node_state \<times> task list \<Rightarrow> bool"
  for E Q n where
  run_hydrate: "hydrate Q s = (q, s') \<Longrightarrow> run_step E Q n (s, ts) (s', ts)"
| run_record: "admit_manifest (out_crypto E) t m (fn_admission_policy n) skew w = (Inr d, w') \<Longrightarrow>
    ad_accepted d \<Longrightarrow> record_peer Q now m url s = (q, s') \<Longrightarrow> run_step E Q n (s, ts) (s', ts)"
| run_revoke: "node_apply_revocation Q n (out_crypto E) now notice trusted authorize s = (q, s') \<Longrightarrow>
    run_step E Q n (s, ts) (s', ts)"
| run_look: "on_table (tb_get (po_members Q) k) s = (q, s') \<Longrightarrow> run_step E Q n (s, ts) (s', ts)"
| run_list: "on_table (eligible_peers (po_members Q) now) s = (q, s') \<Longrightarrow> run_step E Q n (s, ts) (s', ts)"
| start_refresh: "on_table (tb_get (po_members Q) k) s = (Inr (Some r), s') \<Longrightarrow>
    dict_get (nd_manifests s') k = Some m \<Longrightarrow>
    refresh_peer_manifest E (node_client n) m (rec_manifest_url r) kp skew w = (Inr d, w') \<Longrightarrow>
    run_step E Q n (s, ts) (s', RefreshTask k d # ts)"
| start_batch: "on_table (eligible_peers (po_members Q) now) s = (Inr rs, s') \<Longrightarrow>
    run_step E Q n (s, ts) (s', map (\<lambda>r. BatchTask (rec_node_id r) (rec_manifest_url r)) rs @ ts)"
| visit_known: "BatchTask k url \<in> set ts \<Longrightarrow> dict_get (nd_manifests s) k = Some m \<Longrightarrow>
    refresh_peer_manifest E (node_client n) m url kp skew w = (Inr d, w') \<Longrightarrow>
    run_step E Q n (s, ts) (s, RefreshTask k d # remove1 (BatchTask k url) ts)"
| visit_unknown: "BatchTask k url \<in> set ts \<Longrightarrow> dict_get (nd_manifests s) k = None \<Longrightarrow>
    run_step E Q n (s, ts) (s, RefreshTask k unknown_peer_decision # RefreshTask k unknown_peer_decision #
      remove1 (BatchTask k url) ts)"
| finish_refresh: "RefreshTask k d \<in> set ts \<Longrightarrow> apply_refresh_decision Q now k d s = (q, s') \<Longrightarrow>
    run_step E Q n (s, ts) (s', remove1 (RefreshTask k d) ts)"
| start_discovery: "on_table (tb_get (po_members Q) (mf_node_id m)) s = (Inr None, s') \<Longrightarrow>
    fetch_manifest E (node_client n) url skew w = (Inr m, w1) \<Longrightarrow> mf_node_id m \<noteq> fn_node_id n \<Longrightarrow>
    admit_manifest (out_crypto E) t m (fn_admission_policy n) skew w1 = (Inr d, w2) \<Longrightarrow> ad_accepted d \<Longrightarrow>
    run_step E Q n (s, ts) (s', DiscoveryTask m url # ts)"
| store_discovered: "DiscoveryTask m url \<in> set ts \<Longrightarrow>
    on_table (tb_upsert (po_members Q) (discovered_record m url now)) s = (q, s') \<Longrightarrow>
    run_step E Q n (s, ts) (s', RememberTask m # remove1 (DiscoveryTask m url) ts)"
| finish_discovery: "RememberTask m \<in> set ts \<Longrightarrow> remember_manifest Q m s = (q, s') \<Longrightarrow>
    run_step E Q n (s, ts) (s', remove1 (RememberTask m) ts)"
| abandon: "t \<in> set ts \<Longrightarrow> run_step E Q n (s, ts) (s, remove1 t ts)"

section \<open>What every interleaving keeps\<close>

fun task_ok :: "task \<Rightarrow> bool" where
  "task_ok (RefreshTask k d) \<longleftrightarrow> about k d"
| "task_ok _ \<longleftrightarrow> True"

definition run_inv :: "('t, 's) node_views \<Rightarrow> ('t, 's) node_state \<times> task list \<Rightarrow> bool" where
  "run_inv V x \<longleftrightarrow> well_kept V (fst x) \<and> list_all task_ok (snd x)"

text \<open>Gone for good: besides, no task under way is about the peer.\<close>

definition settled :: "('t, 's) node_views \<Rightarrow> string \<Rightarrow> ('t, 's) node_state \<times> task list \<Rightarrow> bool" where
  "settled V k x \<longleftrightarrow> gone V k (fst x) \<and> (\<forall>t \<in> set (snd x). task_peer t \<noteq> k)"

context node_ports
begin

definition keeps :: "('t, 's) node_state \<times> task list \<Rightarrow> ('t, 's) node_state \<times> task list \<Rightarrow> bool" where
  "keeps x y \<longleftrightarrow> run_inv V y \<and> (\<forall>k. settled V k x \<longrightarrow> settled V k y)"

text \<open>A step that writes only the peers in \<open>K\<close>, ends some tasks and adds sound tasks about \<open>K\<close>.\<close>

lemma keeps_touching:
  assumes "run_inv V (s, ts)" "touches Q V K s s'" "list_all task_ok new" "task_peer ` set new \<subseteq> K"
    and "set old \<subseteq> set ts" "\<And>k. settled V k (s, ts) \<Longrightarrow> k \<notin> K"
  shows "keeps (s, ts) (s', new @ old)"
  unfolding keeps_def
proof (intro conjI allI impI)
  have kept: "well_kept V s'" by (rule touches_kept [OF assms(2)])
  show "run_inv V (s', new @ old)"
    using assms(1,3,5) kept by (auto simp: run_inv_def list_all_iff)
  fix k
  assume k: "settled V k (s, ts)"
  have "gone V k s'"
    using touches_gone [OF assms(2) assms(6) [OF k]] k by (simp add: settled_def)
  moreover have "task_peer t \<noteq> k" if "t \<in> set new \<union> set old" for t
    using that k assms(4,5) assms(6) [OF k] by (auto simp: settled_def)
  ultimately show "settled V k (s', new @ old)"
    by (auto simp: settled_def)
qed

text \<open>Starting a task about a peer that is not gone, turning a task into others of its peer, ending one.\<close>

lemma keeps_start:
  assumes "run_inv V (s, ts)" "touches Q V {} s s'" "task_ok t" "\<not> gone V (task_peer t) s"
  shows "keeps (s, ts) (s', t # ts)"
proof -
  have "touches Q V {task_peer t} s s'"
    by (rule touches_mono [OF assms(2)]) simp
  from keeps_touching [OF assms(1) this, of "[t]" ts] assms(3,4) show ?thesis
    by (auto simp: settled_def)
qed

lemma keeps_turn:
  assumes "run_inv V (s, ts)" "t \<in> set ts" "touches Q V {task_peer t} s s'"
    and "list_all task_ok new" "\<forall>u \<in> set new. task_peer u = task_peer t"
  shows "keeps (s, ts) (s', new @ remove1 t ts)"
  using assms(2,5) keeps_touching [OF assms(1,3,4) _ set_remove1_subset, of t]
  by (auto simp: settled_def)

lemma keeps_step_ok: "run_inv V (s, ts) \<Longrightarrow> step_ok s s' \<Longrightarrow> keeps (s, ts) (s', ts)"
  by (auto simp: keeps_def run_inv_def settled_def step_ok_def)

lemma keeps_read:
  assumes "run_inv V (s, ts)" "touches Q V {} s s'"
  shows "keeps (s, ts) (s', ts)"
  using keeps_touching [OF assms(1,2), of "[]" ts] by simp

lemma run_inv_kept: "run_inv V (s, ts) \<Longrightarrow> well_kept V s"
  by (simp add: run_inv_def)

lemma refresh_started:
  assumes "run_inv V (s, ts)" "on_table (tb_get (po_members Q) k) s = (Inr (Some r), s')"
    and "dict_get (nd_manifests s') k = Some m"
    and "refresh_peer_manifest E (node_client n) m (rec_manifest_url r) kp skew w = (Inr d, w')"
  shows "keeps (s, ts) (s', RefreshTask k d # ts)"
proof -
  note kept = run_inv_kept [OF assms(1)]
  note look = lookup_effect(1) [OF kept assms(2)]
  have m: "cached s k = Some m"
    using look assms(3) by (simp add: touches_def cached_def)
  then have "about k d"
    using cached_id [OF kept] refresh_peer_sound [OF assms(4)] about_sound by blast
  then show ?thesis
    using m by (intro keeps_start [OF assms(1) look]) (simp_all add: gone_def)
qed

lemma batch_started:
  assumes "run_inv V (s, ts)" "on_table (eligible_peers (po_members Q) now) s = (Inr rs, s')"
  shows "keeps (s, ts) (s', map (\<lambda>r. BatchTask (rec_node_id r) (rec_manifest_url r)) rs @ ts)"
proof -
  note look = eligible_effect [OF run_inv_kept [OF assms(1)] assms(2)]
  have "\<not> gone V (rec_node_id r) s" if "r \<in> set rs" for r
    using look(2) that by (auto simp: gone_def revoked_def is_revoked_def is_eligible_def)
  moreover have "touches Q V (rec_node_id ` set rs) s s'"
    by (rule touches_mono [OF look(1)]) simp
  ultimately show ?thesis
    by (intro keeps_touching [OF assms(1)]) (auto simp: list_all_iff settled_def)
qed

lemma known_visited:
  assumes "run_inv V (s, ts)" "BatchTask k url \<in> set ts" "dict_get (nd_manifests s) k = Some m"
    and "refresh_peer_manifest E (node_client n) m url kp skew w = (Inr d, w')"
  shows "keeps (s, ts) (s, RefreshTask k d # remove1 (BatchTask k url) ts)"
proof -
  note kept = run_inv_kept [OF assms(1)]
  have "mf_node_id m = k"
    using cached_id [OF kept] assms(3) by (simp add: cached_def)
  then have "about k d"
    using refresh_peer_sound [OF assms(4)] about_sound by blast
  then show ?thesis
    using keeps_turn [OF assms(1,2) touches_refl [OF kept], of "[RefreshTask k d]"] by simp
qed

lemma discovery_started:
  assumes "run_inv V (s, ts)" "on_table (tb_get (po_members Q) (mf_node_id m)) s = (Inr None, s')"
  shows "keeps (s, ts) (s', DiscoveryTask m url # ts)"
proof -
  note look = lookup_effect [OF run_inv_kept [OF assms(1)] assms(2)]
  show ?thesis
    using look(2) by (intro keeps_start [OF assms(1) look(1)]) (simp_all add: gone_def revoked_def is_revoked_def)
qed

lemma run_step_keeps:
  assumes "run_step E Q n x y" "run_inv V x"
  shows "keeps x y"
  using assms
proof cases
  case (visit_unknown k url ts s)
  let ?new = "[RefreshTask k unknown_peer_decision, RefreshTask k unknown_peer_decision]"
  show ?thesis
    using assms(2) visit_unknown keeps_turn [of s ts "BatchTask k url" s ?new]
    by (simp add: touches_refl run_inv_kept)
next
  case (finish_refresh k d ts now s q s')
  then have "about k d" using assms(2) by (auto simp: run_inv_def list_all_iff)
  then show ?thesis
    using assms(2) finish_refresh keeps_turn [of s ts "RefreshTask k d" s' "[]"]
    by (simp add: apply_decision_touches run_inv_kept)
next
  case (store_discovered m url ts now s q s')
  then show ?thesis
    using assms(2) put_effect(1) [of s "discovered_record m url now" q s']
      keeps_turn [of s ts "DiscoveryTask m url" s' "[RememberTask m]"] run_inv_kept
    by simp
next
  case (finish_discovery m ts s q s')
  then show ?thesis
    using assms(2) remember_effect(1) keeps_turn [of s ts "RememberTask m" s' "[]"] run_inv_kept
    by simp
next
  case (abandon t ts s)
  then show ?thesis
    using assms(2) keeps_turn [of s ts t s "[]"] by (simp add: touches_refl run_inv_kept)
qed (use assms(2) in \<open>simp, blast intro: keeps_step_ok hydrate_ok quiet_ok record_peer_quiet revocation_ok
    keeps_read lookup_effect eligible_effect refresh_started batch_started known_visited discovery_started
    run_inv_kept\<close>)+

lemma run_steps_inv:
  assumes "(run_step E Q n)\<^sup>*\<^sup>* x y" "run_inv V x"
  shows "run_inv V y \<and> (settled V k x \<longrightarrow> settled V k y)"
  using assms(1)
proof (induction rule: rtranclp_induct)
  case (step y z)
  with run_step_keeps [OF step.hyps(2)] show ?case by (simp add: keeps_def)
qed (use assms(2) in simp)

end

section \<open>Properties\<close>

text \<open>
  C7: Under every interleaving of admissions, refreshes, batches, discoveries, hydrations and
  revocations, and whichever operations of the two stores raise, a revoked peer without a manifest
  and with no task under way for it stays so, and requests in its name stay refused: the check of
  \<open>record_peer\<close> under the lock is enough for admissions that were decided before the revocation.
\<close>

theorem settled_revocation_is_terminal:
  assumes "node_ports Q V" "well_kept V s" "list_all task_ok ts"
    and "gone V k s" "k \<notin> task_peer ` set ts"
    and "(run_step E Q n)\<^sup>*\<^sup>* (s, ts) (s', ts')"
  shows "revoked V s' k \<and>
    verify_known_inbound n L validate_json now s' hdr k verb path body maxb skew cache c =
      (Inl (UnauthorizedPeerRequest ''unknown_peer''), c)"
proof -
  have "run_inv V (s, ts)" "settled V k (s, ts)"
    using assms(2-5) by (auto simp: run_inv_def settled_def)
  then have "gone V k s'"
    using node_ports.run_steps_inv [OF assms(1,6), of k] by (simp add: settled_def)
  then show ?thesis
    using node_ports.gone_refused [OF assms(1)] by (simp add: gone_def)
qed

text \<open>
  C30: Whatever is interleaved and whichever store operations raise, every record stays filed under
  its own node id, every cached and every stored manifest under the id it names, and no id occurs
  twice in the cache.
\<close>

theorem interleavings_keep_ids:
  assumes "node_ports Q V" "well_kept V s" "(run_step E Q n)\<^sup>*\<^sup>* (s, []) (s', ts)"
  shows "(\<forall>k r. known V s' k = Some r \<longrightarrow> rec_node_id r = k) \<and>
    distinct (dict_keys (nd_manifests s')) \<and>
    dict_keys (nd_manifests s') = map mf_node_id (dict_values (nd_manifests s')) \<and>
    (\<forall>k m. stored V s' k = Some m \<longrightarrow> mf_node_id m = k)"
proof -
  have "run_inv V (s, [])"
    using assms(2) by (simp add: run_inv_def)
  then have kept: "well_kept V s'"
    using node_ports.run_steps_inv [OF assms(1,3)] by (simp add: run_inv_def)
  have "mf_node_id m = k" if "stored V s' k = Some m" for k m
    using that kept store_port.view_key [OF node_ports.axioms(2) [OF assms(1)]]
    by (auto simp: stored_def well_kept_def split: option.splits)
  moreover have "keyed_by mf_node_id (nd_manifests s')"
    using kept by (simp add: well_kept_def)
  ultimately show ?thesis
    using node_ports.record_id [OF assms(1) kept] keyed_by_keys by (auto simp: keyed_by_def dict_wf_def)
qed

lemma toy_record_step:
  "\<exists>s'. run_step (toy_out toy_peer []) memory_ports toy_node (s, ts) (s', ts)"
proof -
  obtain s' where "record_peer memory_ports 0 toy_peer ''https://h/m'' s = (Inr (), s')"
    using never_raises_unit [OF record_peer_reliable [OF memory_reliable(2)]] by blast
  moreover have "admit_manifest (out_crypto (toy_out toy_peer [])) 0 toy_peer (fn_admission_policy toy_node) 300 () =
      (Inr accept_decision, ())" "ad_accepted accept_decision"
    by (simp_all add: toy_out_simps toy_node_def toy_admitted) (simp add: accept_decision_def)
  ultimately show ?thesis
    by (blast intro: run_record)
qed

lemma interleavings_keep_ids_witness:
  "\<exists>s'. (run_step (toy_out toy_peer []) memory_ports toy_node)\<^sup>*\<^sup>* (toy_state REJECTED [], []) (s', []) \<and>
    dict_keys (nd_manifests s') = map mf_node_id (dict_values (nd_manifests s'))"
proof -
  obtain s' where steps: "(run_step (toy_out toy_peer []) memory_ports toy_node)\<^sup>*\<^sup>* (toy_state REJECTED [], []) (s', [])"
    using toy_record_step by blast
  from interleavings_keep_ids [OF memory.node_ports_axioms toy_state_kept(1) steps] steps show ?thesis
    by blast
qed

lemma settled_revocation_is_terminal_witness:
  "\<exists>s'. (run_step (toy_out toy_peer []) memory_ports toy_node)\<^sup>*\<^sup>* (toy_state REVOKED [], []) (s', []) \<and>
    revoked memory_views s' ''a'' \<and>
    verify_known_inbound toy_node toy_crypto (\<lambda>_. Inr (toy_request 0)) 0 s' (Some ''h'') ''a'' ''get''
      ''/members'' [] None 300 (Some (memory_set 0)) [] = (Inl (UnauthorizedPeerRequest ''unknown_peer''), [])"
proof -
  obtain s' where steps: "(run_step (toy_out toy_peer []) memory_ports toy_node)\<^sup>*\<^sup>* (toy_state REVOKED [], []) (s', [])"
    using toy_record_step by blast
  have gone: "gone memory_views ''a'' (toy_state REVOKED [])"
    by (simp add: gone_def toy_state_simps)
  note terminal = settled_revocation_is_terminal [OF memory.node_ports_axioms toy_state_kept(1) _ gone _ steps]
  show ?thesis
    by (rule exI [of _ s'], intro conjI)
      (rule steps, rule terminal [THEN conjunct1], simp_all, rule terminal [THEN conjunct2], simp_all)
qed

lemma reliable_lookup:
  assumes "node_ports Q V" "ports_reliable Q" "well_kept V s"
  shows "\<exists>s0. on_table (tb_get (po_members Q) k) s = (Inr (known V s k), s0) \<and> touches Q V {} s s0"
  using never_raisesD [OF reliable_returns(3) [OF assms(2)]] node_ports.lookup_effect [OF assms(1,3)] by metis

text \<open>
  C10: A refresh in flight undoes a revocation: when \<open>refresh_peer\<close> has read a peer and fetched an
  acceptable manifest, a trusted revocation of that peer that completes before the decision is
  applied is overwritten: the peer ends up active, with its manifest cached again.
\<close>

theorem refresh_in_flight_undoes_revocation:
  assumes "node_ports Q V" "ports_reliable Q" "well_kept V s" "known V s k = Some rec" "cached s k = Some m"
    and "refresh_peer_manifest E (node_client n) m (rec_manifest_url rec) kp skew w = (Inr d, w')"
    and "md_action d \<in> {RF_accept, RF_unchanged}"
    and "revocation_trusted (out_crypto E) (fn_federation_id n) trusted authorize notice"
    and "rn_revoked_node_id notice = k"
  shows "\<exists>s0 s1 s2 m'. run_step E Q n (s, []) (s0, [RefreshTask k d]) \<and>
    node_apply_revocation Q n (out_crypto E) now notice trusted authorize s0 = (Inr (Some REVOKED), s1) \<and>
    run_step E Q n (s0, [RefreshTask k d]) (s1, [RefreshTask k d]) \<and> gone V k s1 \<and>
    run_step E Q n (s1, [RefreshTask k d]) (s2, []) \<and>
    map_option rec_state (known V s2 k) = Some ACTIVE \<and> cached s2 k = Some m'"
proof -
  note ports = assms(1) and returns = reliable_returns [OF assms(2)]
  note look = reliable_lookup [OF ports assms(2), where k = k]
  obtain s0 where s0: "on_table (tb_get (po_members Q) k) s = (Inr (Some rec), s0)" "touches Q V {} s s0"
    using look [OF assms(3)] assms(4) by auto
  have kept0: "well_kept V s0" and m: "dict_get (nd_manifests s0) k = Some m"
    and rec: "known V s0 k = Some rec"
    using s0(2) assms(4,5) by (auto simp: touches_def cached_def)
  have start: "run_step E Q n (s, []) (s0, [RefreshTask k d])"
    by (rule start_refresh [OF s0(1) m assms(6)])
  obtain s3 where "on_table (tb_get (po_members Q) (rn_revoked_node_id notice)) s0 = (Inr (Some rec), s3)"
    using look [OF kept0] rec assms(9) by auto
  then obtain s1 where revoke: "node_apply_revocation Q n (out_crypto E) now notice trusted authorize s0 =
      (Inr (Some REVOKED), s1)"
    using trusted_revocation_reliable [OF assms(2,8)] by blast
  note revoked = node_ports.revocation_run [OF ports kept0 revoke]
  have kept1: "well_kept V s1" and gone: "gone V k s1"
    using revoked assms(9) by (auto simp: touches_def)
  then obtain r1 where r1: "known V s1 k = Some r1"
    by (auto simp: gone_def revoked_def is_revoked_def split: option.splits)
  obtain s2 where ap: "apply_refresh_decision Q now k d s1 = (Inr (), s2)"
    using never_raises_unit [OF apply_decision_reliable [OF assms(2)]] by blast
  obtain m' where m': "md_manifest d = Some m'" "mf_node_id m' = k"
    using refresh_peer_sound [OF assms(6)] assms(7) node_ports.cached_id [OF ports assms(3,5)]
    by (auto simp: sound_refresh_def)
  have "cached s2 k = Some m'" "map_option rec_state (known V s2 k) = Some ACTIVE"
    using node_ports.apply_decision_returns(3) [OF ports kept1 ap r1 assms(7) m'] node_ports.keep_state [OF ports]
    by simp_all
  moreover have "run_step E Q n (s1, [RefreshTask k d]) (s2, [])"
    using finish_refresh [OF _ ap, of "[RefreshTask k d]" E n] by simp
  ultimately show ?thesis
    using start revoke run_revoke [OF revoke] gone by blast
qed

lemma refresh_in_flight_undoes_revocation_witness:
  "\<exists>d s0 s1 s2. node_apply_revocation memory_ports toy_node toy_crypto 5 toy_notice toy_keys self_scoped_authorize s0 =
      (Inr (Some REVOKED), s1) \<and> revoked memory_views s1 ''a'' \<and>
    run_step (toy_out toy_peer []) memory_ports toy_node (s1, [RefreshTask ''a'' d]) (s2, []) \<and>
    map_option rec_state (known memory_views s2 ''a'') = Some ACTIVE"
proof -
  let ?s = "toy_state ACTIVE [(''a'', toy_peer)]"
  have known: "known memory_views ?s ''a'' = Some (toy_record ACTIVE)" "cached ?s ''a'' = Some toy_peer"
    by (simp_all add: toy_state_simps)
  obtain d where d: "refresh_peer_manifest (toy_out toy_peer []) (node_client toy_node) toy_peer
      (rec_manifest_url (toy_record ACTIVE)) None 300 () = (Inr d, ())" "md_action d \<in> {RF_accept, RF_unchanged}"
    using toy_unchanged by auto
  have trusted: "revocation_trusted (out_crypto (toy_out toy_peer [])) (fn_federation_id toy_node) toy_keys
      self_scoped_authorize toy_notice"
    using toy_trusted by (simp add: toy_out_simps)
  from refresh_in_flight_undoes_revocation [OF memory.node_ports_axioms memory_reliable(2) toy_state_kept(2) known d
      trusted toy_notice_id, of 5]
  show ?thesis unfolding toy_out_simps gone_def by blast
qed

text \<open>
  C27: A discovery in flight does the same to the manifest: a peer it stored that is revoked before
  the discovery ends has its manifest cached after the revocation, so requests in the name of the
  revoked peer are verified against that manifest again instead of refused.
\<close>

theorem discovery_in_flight_recaches_revoked:
  fixes c :: 'c
  assumes "node_ports Q V" "ports_reliable Q" "well_kept V s" "known V s (mf_node_id m) = None"
    and "fetch_manifest E (node_client n) url skew w = (Inr m, w1)" "mf_node_id m \<noteq> fn_node_id n"
    and "admit_manifest (out_crypto E) t m (fn_admission_policy n) skew w1 = (Inr d, w2)" "ad_accepted d"
    and "revocation_trusted (out_crypto E) (fn_federation_id n) trusted authorize notice"
    and "rn_revoked_node_id notice = mf_node_id m"
  shows "\<exists>s1 s2 s3. (run_step E Q n)\<^sup>*\<^sup>* (s, []) (s1, [RememberTask m]) \<and>
    node_apply_revocation Q n (out_crypto E) now notice trusted authorize s1 = (Inr (Some REVOKED), s2) \<and>
    run_step E Q n (s2, [RememberTask m]) (s3, []) \<and> revoked V s3 (mf_node_id m) \<and>
    (\<forall>L vj now' hdr verb path body maxb skew' cache.
       verify_known_inbound n L vj now' s3 hdr (mf_node_id m) verb path body maxb skew' cache c =
       verify_inbound n L vj now' hdr m verb path body maxb skew' cache c)"
proof -
  let ?k = "mf_node_id m" and ?rec = "discovered_record m url now"
  note ports = assms(1) and returns = reliable_returns [OF assms(2)]
  note look = reliable_lookup [OF ports assms(2), where k = "?k"]
  obtain s0 where s0: "on_table (tb_get (po_members Q) ?k) s = (Inr None, s0)" "touches Q V {} s s0"
    using look [OF assms(3)] assms(4) by auto
  obtain s1 where s1: "on_table (tb_upsert (po_members Q) ?rec) s0 = (Inr (), s1)"
    using never_raises_unit [OF returns(4)] by blast
  note put = node_ports.put_effect [OF ports touches_kept [OF s0(2)] s1]
  have kept1: "well_kept V s1" and known1: "known V s1 ?k = Some (nv_keep_member V ?rec)"
    using put by (auto simp: touches_def)
  have "run_step E Q n (s, []) (s0, [DiscoveryTask m url])"
    by (rule start_discovery [OF s0(1) assms(5-8)])
  moreover have "run_step E Q n (s0, [DiscoveryTask m url]) (s1, [RememberTask m])"
    using store_discovered [OF _ s1, of "[DiscoveryTask m url]" E n] by simp
  ultimately have to1: "(run_step E Q n)\<^sup>*\<^sup>* (s, []) (s1, [RememberTask m])"
    by (metis converse_rtranclp_into_rtranclp r_into_rtranclp)
  obtain s2 where revoke: "node_apply_revocation Q n (out_crypto E) now notice trusted authorize s1 =
      (Inr (Some REVOKED), s2)"
    using trusted_revocation_reliable [OF assms(2,9)] look [OF kept1] known1 assms(10) by metis
  have kept2: "well_kept V s2" and revoked: "revoked V s2 ?k"
    using node_ports.revocation_run [OF ports kept1 revoke] assms(10) by (auto simp: touches_def gone_def)
  obtain s3 where s3: "remember_manifest Q m s2 = (Inr (), s3)"
    using never_raises_unit [OF returns(1)] by blast
  note remembered = node_ports.remember_effect [OF ports kept2 s3]
  have "run_step E Q n (s2, [RememberTask m]) (s3, [])"
    using finish_discovery [OF _ s3, of "[RememberTask m]" E n] by simp
  moreover have "revoked V s3 ?k"
    using revoked remembered(2) by (simp add: revoked_def)
  moreover have "dict_get (nd_manifests s3) ?k = Some m"
    using remembered(3) by (simp add: cached_def fun_eq_iff)
  then have "\<forall>L vj now' hdr verb path body maxb skew' cache.
      verify_known_inbound n L vj now' s3 hdr ?k verb path body maxb skew' cache c =
      verify_inbound n L vj now' hdr m verb path body maxb skew' cache c"
    by (simp add: verify_known_inbound_def)
  ultimately show ?thesis
    using to1 revoke by blast
qed

lemma discovery_in_flight_recaches_revoked_witness:
  "\<exists>s1 s2 s3. node_apply_revocation memory_ports toy_node toy_crypto 5 toy_notice toy_keys self_scoped_authorize s1 =
      (Inr (Some REVOKED), s2) \<and>
    run_step (toy_out toy_peer []) memory_ports toy_node (s2, [RememberTask toy_peer]) (s3, []) \<and>
    revoked memory_views s3 ''a''"
proof -
  let ?s = "\<lparr>nd_table = [], nd_manifests = [], nd_store = None\<rparr> :: memory_state"
  have s: "well_kept memory_views ?s" "known memory_views ?s (mf_node_id toy_peer) = None"
    by (simp_all add: well_kept_def known_def memory_views_def table_get_def)
  have admit: "admit_manifest (out_crypto (toy_out toy_peer [])) 0 toy_peer (fn_admission_policy toy_node) 300 () =
      (Inr accept_decision, ())" "ad_accepted accept_decision"
    by (simp_all add: toy_out_simps toy_node_def toy_admitted) (simp add: accept_decision_def)
  have "node_client toy_node = toy_client"
    by (simp add: node_client_def toy_node_def toy_client_def)
  then have fetch: "fetch_manifest (toy_out toy_peer []) (node_client toy_node) ''https://h/m'' 300 () = (Inr toy_peer, ())"
    "mf_node_id toy_peer \<noteq> fn_node_id toy_node"
    by (simp_all add: toy_fetch toy_peer_id) (simp add: toy_node_def)
  have trusted: "revocation_trusted (out_crypto (toy_out toy_peer [])) (fn_federation_id toy_node) toy_keys
      self_scoped_authorize toy_notice" "rn_revoked_node_id toy_notice = mf_node_id toy_peer"
    using toy_trusted by (simp_all add: toy_out_simps toy_peer_id)
  from discovery_in_flight_recaches_revoked [OF memory.node_ports_axioms memory_reliable(2) s fetch admit trusted,
      where now = 5]
  show ?thesis by (fastforce simp: toy_out_simps toy_peer_id)
qed

text \<open>
  C29: A batch in flight loses a revocation: when \<open>refresh_all\<close> has listed a peer and a trusted
  revocation of it completes before the loop reaches it, the loop misses the evicted manifest and
  overwrites the record: it ends up \<open>REJECTED\<close>, and the next admission, which a revoked record would
  have stopped, makes it active again.
\<close>

theorem batch_in_flight_forgets_revocation:
  assumes "node_ports Q V" "ports_reliable Q" "well_kept V s" "well_kept V s1"
    and "known V s k = Some r" "node_apply_revocation Q n (out_crypto E) now notice trusted authorize s =
      (Inr (Some REVOKED), s1)" "rn_revoked_node_id notice = k"
  shows "\<exists>s2. (run_step E Q n)\<^sup>*\<^sup>* (s, [BatchTask k url]) (s2, []) \<and> gone V k s1 \<and>
    map_option rec_state (known V s2 k) = Some REJECTED \<and>
    (\<forall>m now' url' q s3. mf_node_id m = k \<longrightarrow> record_peer Q now' m url' s2 = (q, s3) \<longrightarrow>
       known V s3 k = Some (nv_keep_member V (discovered_record m url' now')) \<and> cached s3 k = Some m)"
proof -
  note ports = assms(1)
  let ?u = unknown_peer_decision
  have gone: "gone V k s1"
    using node_ports.revocation_run(3) [OF ports assms(3,6)] assms(7) by simp
  obtain s2 where a2: "apply_refresh_decision Q now k ?u s1 = (Inr (), s2)"
    using never_raises_unit [OF apply_decision_reliable [OF assms(2)]] by blast
  obtain s3 where a3: "apply_refresh_decision Q now k ?u s2 = (Inr (), s3)"
    using never_raises_unit [OF apply_decision_reliable [OF assms(2)]] by blast
  obtain r1 where r1: "known V s1 k = Some r1"
    using gone by (auto simp: gone_def revoked_def is_revoked_def split: option.splits)
  have reject: "md_action ?u = RF_reject" by (simp add: unknown_peer_decision_def no_manifest_def)
  have kept2: "well_kept V s2"
    by (rule touches_kept [OF node_ports.apply_decision_touches [OF ports assms(4) about_unknown a2]])
  have r2: "known V s2 k = Some (nv_keep_member V (set_state REJECTED now r1))"
    using node_ports.apply_decision_returns(2) [OF ports assms(4) a2 r1 reject] by simp
  have r3: "map_option rec_state (known V s3 k) = Some REJECTED"
    using node_ports.apply_decision_returns(2) [OF ports kept2 a3 r2 reject] node_ports.keep_state [OF ports] by simp
  have "run_step E Q n (s, [BatchTask k url]) (s1, [BatchTask k url])"
    by (rule run_revoke [OF assms(6)])
  moreover have "run_step E Q n (s1, [BatchTask k url]) (s1, [RefreshTask k ?u, RefreshTask k ?u])"
    using visit_unknown [of k url "[BatchTask k url]" s1 E Q n] gone by (simp add: gone_def cached_def)
  moreover have "run_step E Q n (s1, [RefreshTask k ?u, RefreshTask k ?u]) (s2, [RefreshTask k ?u])"
    using finish_refresh [OF _ a2, of "[RefreshTask k ?u, RefreshTask k ?u]" E n] by simp
  moreover have "run_step E Q n (s2, [RefreshTask k ?u]) (s3, [])"
    using finish_refresh [OF _ a3, of "[RefreshTask k ?u]" E n] by simp
  ultimately have "(run_step E Q n)\<^sup>*\<^sup>* (s, [BatchTask k url]) (s3, [])"
    by (meson converse_rtranclp_into_rtranclp rtranclp.rtrancl_refl)
  moreover have "known V s4 k = Some (nv_keep_member V (discovered_record m url' now')) \<and> cached s4 k = Some m"
    if m: "mf_node_id m = k" and run: "record_peer Q now' m url' s3 = (q, s4)" for m now' url' q s4
  proof -
    have "\<not> revoked V s3 k"
      using r3 by (auto simp: revoked_def is_revoked_def split: option.splits)
    moreover have "q = Inr ()"
      using never_raises_unit [OF record_peer_reliable [OF assms(2)]] run by (metis prod.inject)
    moreover have "well_kept V s3"
      by (rule touches_kept [OF node_ports.apply_decision_touches [OF ports kept2 about_unknown a3]])
    ultimately show ?thesis
      using node_ports.record_peer_returns(1,2) [OF ports] run m by blast
  qed
  ultimately show ?thesis using gone r3 by blast
qed

lemma batch_in_flight_forgets_revocation_witness:
  "\<exists>s2. (run_step (toy_out toy_peer []) memory_ports toy_node)\<^sup>*\<^sup>*
      (toy_state ACTIVE [(''a'', toy_peer)], [BatchTask ''a'' ''https://h/m'']) (s2, []) \<and>
    map_option rec_state (known memory_views s2 ''a'') = Some REJECTED"
proof -
  let ?s = "toy_state ACTIVE [(''a'', toy_peer)]"
  obtain s1 where revoke: "node_apply_revocation memory_ports toy_node (out_crypto (toy_out toy_peer [])) 5
      toy_notice toy_keys self_scoped_authorize ?s = (Inr (Some REVOKED), s1)"
    using toy_revocation by (auto simp: toy_out_simps)
  have "well_kept memory_views s1"
    by (rule touches_kept [OF memory.revocation_run(1) [OF toy_state_kept(2) revoke]])
  moreover have "known memory_views ?s ''a'' = Some (toy_record ACTIVE)"
    by (simp add: toy_state_simps)
  ultimately show ?thesis
    using batch_in_flight_forgets_revocation [OF memory.node_ports_axioms memory_reliable(2) toy_state_kept(2) _ _
        revoke toy_notice_id, where url = "''https://h/m''"] by blast
qed

end
