(* ===== verification/Node_Runs.thy ===== *)
theory Node_Runs
  imports Node_Gates Node_Race
begin

text \<open>
  The two readings of a node together. A sequence of whole operations is one of the interleavings
  of \<open>Node_Race\<close>: each operation is a run that starts and ends without tasks, its reads, network
  calls and writes being steps of the run in the order the code has them. And what \<open>Node_Gates\<close>
  shows of whole operations, that only signed manifests come in, holds of every interleaving.
\<close>

section \<open>Runs of an operation's parts\<close>

abbreviation runs ::
    "'w outside \<Rightarrow> ('t, 's) ports \<Rightarrow> 'w federation_node \<Rightarrow> ('t, 's) node_state \<times> task list \<Rightarrow>
      ('t, 's) node_state \<times> task list \<Rightarrow> bool" where
  "runs E Q n \<equiv> (run_step E Q n)\<^sup>*\<^sup>*"

lemma runs_step: "run_step E Q n x y \<Longrightarrow> runs E Q n y z \<Longrightarrow> runs E Q n x z"
  by (rule converse_rtranclp_into_rtranclp)

lemma runs_trans: "runs E Q n x y \<Longrightarrow> runs E Q n y z \<Longrightarrow> runs E Q n x z"
  by (rule rtranclp_trans)

text \<open>Tasks that an operation leaves behind when it raises are abandoned.\<close>

lemma runs_abandon: "runs E Q n x (s, ts) \<Longrightarrow> runs E Q n x (s, [])"
proof (induction ts)
  case (Cons t ts)
  have "run_step E Q n (s, t # ts) (s, ts)"
    using abandon [of t "t # ts" E Q n s] by simp
  with Cons show ?case
    by (meson rtranclp.rtrancl_into_rtrancl)
qed

text \<open>A manifest that the policy lets in at some time, in some world.\<close>

definition let_in :: "'w outside \<Rightarrow> 'w admission_policy \<Rightarrow> int \<Rightarrow> manifest \<Rightarrow> bool" where
  "let_in E policy skew m \<longleftrightarrow>
     (\<exists>t w d w'. admit_manifest (out_crypto E) t m policy skew w = (Inr d, w') \<and> ad_accepted d)"

definition seed_let_in :: "'w outside \<Rightarrow> 'w admission_policy \<Rightarrow> int \<Rightarrow> bootstrap_outcome \<Rightarrow> bool" where
  "seed_let_in E policy skew o1 \<longleftrightarrow> (\<forall>m. bo_seed_manifest o1 = Some m \<longrightarrow> let_in E policy skew m)"

lemma bootstrap_seed_let_in:
  assumes "bootstrap_seed E c lu lm policy dl skew url w = (Inr (SB_accepted, o1), w')"
  shows "seed_let_in E policy skew o1"
proof -
  obtain m w1 d w2 where "admit_manifest (out_crypto E) (out_now E w1) m policy skew w1 = (Inr d, w2)"
    "ad_accepted d" "bo_seed_manifest o1 = Some m"
    using assms by (auto simp: bootstrap_seed_def bootstrap_outcome_of_def split: prod.splits sum.splits if_splits)
  then show ?thesis
    by (auto simp: seed_let_in_def let_in_def)
qed

lemma bootstrap_seeds_let_in:
  "bootstrap_seeds E c lu lm policy dl skew urls rep w = (Inr rep', w') \<Longrightarrow>
   \<forall>o1 \<in> set (br_accepted rep). seed_let_in E policy skew o1 \<Longrightarrow>
   \<forall>o1 \<in> set (br_accepted rep'). seed_let_in E policy skew o1"
proof (induction urls arbitrary: rep w)
  case (Cons url urls)
  obtain b o1 w1 where s: "bootstrap_seed E c lu lm policy dl skew url w = (Inr (b, o1), w1)"
    using Cons.prems(1) by (auto split: prod.splits sum.splits)
  show ?case
  proof (cases b)
    case SB_accepted
    with Cons.prems s bootstrap_seed_let_in [OF s [unfolded SB_accepted]] show ?thesis
      by (intro Cons.IH [of "rep\<lparr>br_accepted := br_accepted rep @ [o1]\<rparr>" w1]) auto
  next
    case SB_rejected
    with Cons.prems s show ?thesis
      by (intro Cons.IH [of "rep\<lparr>br_rejected := br_rejected rep @ [o1]\<rparr>" w1]) auto
  next
    case SB_failed
    with Cons.prems s show ?thesis
      by (intro Cons.IH [of "rep\<lparr>br_failed := br_failed rep @ [o1]\<rparr>" w1]) auto
  qed
qed simp

lemma record_seeds_runs:
  "record_seeds Q now os s = (q, s') \<Longrightarrow> \<forall>o1 \<in> set os. seed_let_in E (fn_admission_policy n) skew o1 \<Longrightarrow>
   runs E Q n (s, ts) (s', ts)"
proof (induction os arbitrary: s)
  case (Cons o1 os)
  have one: "runs E Q n (s, ts) (s1, ts)"
    if "(case bo_seed_manifest o1 of None \<Rightarrow> io_lift (Inr ()) | Some m \<Rightarrow> record_peer Q now m (bo_seed_manifest_url o1)) s =
      (r, s1)" for r s1
    using that Cons.prems(2)
    by (auto simp: seed_let_in_def let_in_def split: option.splits intro: run_record)
  from Cons.prems(1) have "io_bind (case bo_seed_manifest o1 of None \<Rightarrow> io_lift (Inr ())
      | Some m \<Rightarrow> record_peer Q now m (bo_seed_manifest_url o1)) (\<lambda>_. record_seeds Q now os) s = (q, s')"
    by simp
  then show ?case
  proof (cases rule: io_bind_cases)
    case (went u s1)
    with one Cons.IH [OF went(2)] Cons.prems(2) show ?thesis by (auto intro: runs_trans)
  qed (use one in blast)
qed simp

text \<open>Decisions that are under way are applied one by one.\<close>

fun refresh_task :: "string \<times> manifest_refresh_decision \<Rightarrow> task" where
  "refresh_task (k, d) = RefreshTask k d"

definition batch_task :: "member_record \<Rightarrow> task" where
  "batch_task r = BatchTask (rec_node_id r) (rec_manifest_url r)"

lemma take_task: "add_mset t F \<subseteq># mset ts \<Longrightarrow> t \<in> set ts \<and> F \<subseteq># mset (remove1 t ts)"
  by (simp add: insert_subset_eq_iff)

lemma leave_task: "add_mset t F \<subseteq># M \<Longrightarrow> F \<subseteq># M"
  by (meson mset_subset_eq_insertD subset_mset.less_imp_le)

lemma apply_decisions_runs:
  "apply_decisions Q now ds s = (q, s') \<Longrightarrow> mset (map refresh_task ds) \<subseteq># mset ts \<Longrightarrow>
   \<exists>ts'. runs E Q n (s, ts) (s', ts')"
proof (induction ds arbitrary: s ts)
  case (Cons kd ds)
  obtain k d where kd: "kd = (k, d)" by fastforce
  have t: "RefreshTask k d \<in> set ts" "mset (map refresh_task ds) \<subseteq># mset (remove1 (RefreshTask k d) ts)"
    using Cons.prems(2) take_task [of "RefreshTask k d" "mset (map refresh_task ds)" ts] by (simp_all add: kd)
  from Cons.prems(1) have "io_bind (apply_refresh_decision Q now k d) (\<lambda>_. apply_decisions Q now ds) s = (q, s')"
    by (simp add: kd)
  then show ?case
  proof (cases rule: io_bind_cases)
    case (raised e)
    with finish_refresh [OF t(1) raised(1)] show ?thesis by blast
  next
    case (went u s1)
    with finish_refresh [OF t(1) went(1)] Cons.IH [OF went(2) t(2)] show ?thesis by (blast intro: runs_step)
  qed
qed auto

fun landed :: "'a option list \<Rightarrow> 'a list" where
  "landed [] = []"
| "landed (None # os) = landed os"
| "landed (Some x # os) = x # landed os"

lemma mset_dict_set: "mset (map f (dict_set k v d)) \<subseteq># add_mset (f (k, v)) (mset (map f d))"
proof (induction d)
  case (Cons p d)
  then show ?case
    by (cases p) (auto simp: add_mset_commute subset_mset.le_supI2)
qed simp

lemma mset_dict_update: "mset (map f (dict_update d e)) \<subseteq># mset (map f (d @ e))"
proof (induction e arbitrary: d)
  case (Cons p e)
  have "mset (map f (dict_update d (p # e))) \<subseteq># mset (map f (dict_set (fst p) (snd p) d @ e))"
    using Cons.IH [of "dict_set (fst p) (snd p) d"] by (cases p) (simp add: dict_update_def)
  also have "\<dots> \<subseteq># mset (map f (d @ p # e))"
    using mset_dict_set [of f "fst p" "snd p" d] by (simp add: subset_mset.add_right_mono flip: union_assoc)
  finally show ?case .
qed (simp add: dict_update_def)

lemma landed_all [simp]: "landed (map Some xs) = xs"
  by (induction xs) simp_all

lemma mset_update_pairs: "mset (map f (dict_update d (dict_of_pairs ps))) \<subseteq># mset (map f (d @ ps))"
proof -
  have "dict_of_pairs ps = dict_update [] ps"
    by (simp add: dict_of_pairs_def dict_update_def)
  then have "mset (map f (dict_of_pairs ps)) \<subseteq># mset (map f ps)"
    using mset_dict_update [of f "[]" ps] by simp
  with mset_dict_update [of f d "dict_of_pairs ps"] show ?thesis
    by (auto intro: subset_mset.order_trans subset_mset.add_left_mono)
qed

text \<open>
  The loop of a batch over its members, given what the network will decide on the targets it
  finds (\<open>news\<close>, \<open>None\<close> where the batch does not get that far): it ends where the interleaving has
  a task for every decision of the loop and every one of \<open>news\<close>.
\<close>

definition will_decide ::
    "'w outside \<Rightarrow> 'w federation_node \<Rightarrow> 'w key_continuity_policy option \<Rightarrow> int \<Rightarrow> manifest \<times> string \<Rightarrow>
      (string \<times> manifest_refresh_decision) option \<Rightarrow> bool" where
  "will_decide E n kp skew target o1 \<longleftrightarrow>
     (\<forall>kd. o1 = Some kd \<longrightarrow> (\<exists>v v'. refresh_one E (node_client n) kp skew target v = (Inr kd, v')))"

definition loop_runs ::
    "'w outside \<Rightarrow> ('t, 's) ports \<Rightarrow> 'w federation_node \<Rightarrow> (string \<times> manifest_refresh_decision) option list \<Rightarrow>
      task multiset \<Rightarrow> ('t, 's) node_state \<times> task list \<Rightarrow>
      ((manifest \<times> string) list \<times> (string, manifest_refresh_decision) dict) result \<Rightarrow> ('t, 's) node_state \<Rightarrow> bool" where
  "loop_runs E Q n news F x q s' \<longleftrightarrow>
     (\<exists>ts'. runs E Q n x (s', ts') \<and> (\<forall>targets ds. q = Inr (targets, ds) \<longrightarrow>
        mset (map refresh_task (ds @ landed news)) + F \<subseteq># mset ts'))"

lemma loop_step: "run_step E Q n x y \<Longrightarrow> loop_runs E Q n news F y q s' \<Longrightarrow> loop_runs E Q n news F x q s'"
  unfolding loop_runs_def by (blast intro: runs_step)

lemma loop_raised: "loop_runs E Q n news F x (Inl e) s' \<Longrightarrow> loop_runs E Q n news' F' x (Inl e) s'"
  by (auto simp: loop_runs_def)

lemma loop_missed:
  assumes "runs E Q n x y" "loop_runs E Q n news (add_mset (RefreshTask k d) F) y p s'"
  shows "loop_runs E Q n news F x (map_sum id (\<lambda>(targets, ds). (targets, dict_update [(k, d)] ds)) p) s'"
proof (cases p)
  case (Inl e)
  with assms show ?thesis by (auto simp: loop_runs_def intro: runs_trans)
next
  case (Inr a)
  obtain targets ds where a: "a = (targets, ds)" by fastforce
  let ?all = "mset (map refresh_task (ds @ landed news))"
  obtain ts' where ts': "runs E Q n x (s', ts')" "?all + add_mset (RefreshTask k d) F \<subseteq># mset ts'"
    using assms Inr a by (auto simp: loop_runs_def intro: runs_trans)
  have "mset (map refresh_task (dict_update [(k, d)] ds)) \<subseteq># add_mset (RefreshTask k d) (mset (map refresh_task ds))"
    using mset_dict_update [of refresh_task "[(k, d)]" ds] by simp
  then have "mset (map refresh_task (dict_update [(k, d)] ds @ landed news)) + F \<subseteq>#
      ?all + add_mset (RefreshTask k d) F"
    using subset_mset.add_right_mono [of _ "add_mset (RefreshTask k d) (mset (map refresh_task ds))"
        "mset (map refresh_task (landed news)) + F"]
    by (simp add: union_assoc)
  from subset_mset.order_trans [OF this ts'(2)] ts'(1) show ?thesis
    by (auto simp: loop_runs_def Inr a)
qed

lemma loop_skipped:
  "loop_runs E Q n news F x p s' \<Longrightarrow>
   loop_runs E Q n (None # news) F x (map_sum id (\<lambda>(targets, ds). (t # targets, ds)) p) s'"
  by (cases p) (auto simp: loop_runs_def)

lemma loop_decided:
  assumes "run_step E Q n x y" "loop_runs E Q n news (add_mset (refresh_task kd) F) y p s'"
  shows "loop_runs E Q n (Some kd # news) F x (map_sum id (\<lambda>(targets, ds). (t # targets, ds)) p) s'"
  using assms by (cases p) (auto simp: loop_runs_def intro: runs_step)

lemma decided_targets:
  assumes "refresh_all_manifests E (node_client n) targets kp skew w = (Inr new, w1)"
  obtains rs where "list_all2 (will_decide E n kp skew) targets (map Some rs)" "new = dict_of_pairs rs"
proof -
  obtain rs w2 where rs: "gather (map (refresh_one E (node_client n) kp skew) targets) w = (Inr rs, w2)"
    "new = dict_of_pairs rs"
    using assms by (auto simp: refresh_all_manifests_def io_simps)
  have "list_all2 (will_decide E n kp skew) targets (map Some rs)"
    using gather_length [OF rs(1)] gather_each [OF rs(1)]
    by (auto simp: list_all2_conv_all_nth will_decide_def)
  with rs(2) show ?thesis by (rule that [rotated])
qed

lemma refresh_targets_missed [consumes 2, case_names raised went]:
  assumes "refresh_targets Q now (r # rs) s = (q, s')" "dict_get (nd_manifests s) (rec_node_id r) = None"
  obtains e where "apply_refresh_decision Q now (rec_node_id r) unknown_peer_decision s = (Inl e, s')" "q = Inl e"
    | s1 p where "apply_refresh_decision Q now (rec_node_id r) unknown_peer_decision s = (Inr (), s1)"
      "refresh_targets Q now rs s1 = (p, s')"
      "q = map_sum id (\<lambda>(targets, ds). (targets, dict_update [(rec_node_id r, unknown_peer_decision)] ds)) p"
  using assms by (auto simp: io_bind_def io_lift_def split: prod.splits sum.splits)

text \<open>
  The state of a discovery that the interleaving has reached, with a task for every manifest that
  is still to be remembered.
\<close>

definition remember_tasks :: "discovery_outcome list \<Rightarrow> task list" where
  "remember_tasks os = List.map_filter (\<lambda>o1. map_option RememberTask (do_manifest o1)) os"

definition in_discovery ::
    "'w outside \<Rightarrow> ('t, 's) ports \<Rightarrow> 'w federation_node \<Rightarrow> ('t, 's) node_state \<times> task list \<Rightarrow>
      ('t, 's) node_state \<Rightarrow> 't discovery_state \<Rightarrow> bool" where
  "in_discovery E Q n x S s \<longleftrightarrow> (\<exists>ts. runs E Q n x (S\<lparr>nd_table := ds_table s\<rparr>, ts) \<and>
     mset (remember_tasks (dr_accepted (ds_report s))) \<subseteq># mset ts)"

lemma on_discovery_table:
  "tb_get T k t = (q, t') \<Longrightarrow> on_table (tb_get T k) (S\<lparr>nd_table := t\<rparr>) = (q, S\<lparr>nd_table := t'\<rparr>)"
  "tb_upsert T r t = (p, t') \<Longrightarrow> on_table (tb_upsert T r) (S\<lparr>nd_table := t\<rparr>) = (p, S\<lparr>nd_table := t'\<rparr>)"
  by (simp_all add: on_table_def)

lemma in_discovery_look:
  assumes "in_discovery E Q n x S s" "tb_get (po_members Q) k (ds_table s) = (q, t)"
  shows "in_discovery E Q n x S (s\<lparr>ds_table := t\<rparr>)"
  using assms(1) run_look [OF on_discovery_table(1) [OF assms(2)], of E n S]
  by (auto simp: in_discovery_def intro: rtranclp.rtrancl_into_rtrancl)

lemma process_ref_runs:
  assumes "in_discovery E Q n x S s" "tb_get (po_members Q) (rf_node_id ref) (ds_table s) = (Inr None, t)"
    and "process_ref (po_members Q) E (node_client n) (fn_admission_policy n) skew source ref s1 w = (r, s', w')"
    and "ds_table s1 = t" "dr_accepted (ds_report s1) = dr_accepted (ds_report s)"
  shows "in_discovery E Q n x S s'"
  using assms(3)
proof (cases rule: process_ref_cases)
  case passed
  with in_discovery_look [OF assms(1,2)] assms(4,5) show ?thesis
    by (simp add: in_discovery_def)
next
  case (stored m d w1 w2 u)
  obtain ts where ts: "runs E Q n x (S\<lparr>nd_table := ds_table s\<rparr>, ts)"
    "mset (remember_tasks (dr_accepted (ds_report s))) \<subseteq># mset ts"
    using assms(1) by (auto simp: in_discovery_def)
  let ?url = "rf_manifest_url ref" and ?t = "ds_table s'"
  have "run_step E Q n (S\<lparr>nd_table := ds_table s\<rparr>, ts) (S\<lparr>nd_table := t\<rparr>, DiscoveryTask m ?url # ts)"
    using on_discovery_table(1) [OF assms(2), of S] stored(1-5)
    by (intro start_discovery) (simp_all add: node_client_def)
  moreover have "run_step E Q n (S\<lparr>nd_table := t\<rparr>, DiscoveryTask m ?url # ts) (S\<lparr>nd_table := ?t\<rparr>, RememberTask m # ts)"
    using store_discovered [OF _ on_discovery_table(2) [OF stored(6) [unfolded assms(4)]], of "DiscoveryTask m ?url # ts"]
    by simp
  ultimately have "runs E Q n x (S\<lparr>nd_table := ?t\<rparr>, RememberTask m # ts)"
    using ts(1) by (blast intro: rtranclp.rtrancl_into_rtrancl)
  then show ?thesis
    using ts(2) stored(8) assms(5) unfolding in_discovery_def
    by (intro exI [of _ "RememberTask m # ts"])
      (auto simp: remember_tasks_def ref_outcome_eq List.map_filter_def intro: subset_mset.order_trans)
qed

lemma process_members_runs:
  "process_members (po_members Q) E (node_client n) (fn_admission_policy n) skew cap source i refs s w = (r, s', w') \<Longrightarrow>
   in_discovery E Q n x S s \<Longrightarrow> in_discovery E Q n x S s'"
proof (induction refs arbitrary: i s w)
  case (Cons ref refs)
  have look: "in_discovery E Q n x S (s\<lparr>ds_table := t\<rparr>)"
    if "tb_get (po_members Q) (rf_node_id ref) (ds_table s) = (q, t)" for q t
    by (rule in_discovery_look [OF Cons.prems(2) that])
  from Cons.prems(1) show ?case
  proof (cases rule: process_members_cases)
    case (skipped reason s1)
    from this(1) look Cons.prems(2) have "in_discovery E Q n x S s1" by auto
    then show ?thesis
      by (intro Cons.IH [OF skipped(2)]) (simp add: in_discovery_def)
  next
    case (store e t)
    with look show ?thesis by simp
  next
    case (stopped e t)
    show ?thesis by (rule process_ref_runs [OF Cons.prems(2) stopped(1,3)]) simp_all
  next
    case (went u t s1 w1)
    have "in_discovery E Q n x S s1" by (rule process_ref_runs [OF Cons.prems(2) went(1,2)]) simp_all
    then show ?thesis by (rule Cons.IH [OF went(3)])
  qed
qed simp

lemma visit_peers_runs:
  "visit_peers (po_members Q) E (node_client n) peers (fn_admission_policy n) skew cap since rs s w = (r, s', w') \<Longrightarrow>
   in_discovery E Q n x S s \<Longrightarrow> in_discovery E Q n x S s'"
proof (induction rs arbitrary: s w)
  case (Cons r rs)
  have failed: "in_discovery E Q n x S (add_failed o1 s)" for o1
    using Cons.prems(2) by (simp add: in_discovery_def)
  from Cons.prems(1) show ?case
    by (auto split: option.splits prod.splits sum.splits intro: Cons.IH failed
        dest!: process_members_runs [OF _ Cons.prems(2)])
qed simp

lemma remember_discovered_runs:
  "remember_discovered Q os s = (q, s') \<Longrightarrow> mset (remember_tasks os) \<subseteq># mset ts \<Longrightarrow>
   \<exists>ts'. runs E Q n (s, ts) (s', ts')"
proof (induction os arbitrary: s ts)
  case (Cons o1 os)
  show ?case
  proof (cases "do_manifest o1")
    case None
    with Cons.prems Cons.IH [of s ts] show ?thesis
      by (simp add: remember_tasks_def List.map_filter_def io_bind_def io_lift_def)
  next
    case (Some m)
    then have t: "RememberTask m \<in> set ts" "mset (remember_tasks os) \<subseteq># mset (remove1 (RememberTask m) ts)"
      using Cons.prems(2) take_task [of "RememberTask m" "mset (remember_tasks os)" ts]
      by (simp_all add: remember_tasks_def List.map_filter_def)
    from Cons.prems(1) Some have "io_bind (remember_manifest Q m) (\<lambda>_. remember_discovered Q os) s = (q, s')"
      by simp
    then show ?thesis
    proof (cases rule: io_bind_cases)
      case (raised e)
      with finish_discovery [OF t(1) raised(1)] show ?thesis by blast
    next
      case (went u s1)
      with finish_discovery [OF t(1) went(1)] Cons.IH [OF went(2) t(2)] show ?thesis by (blast intro: runs_step)
    qed
  qed
qed auto

lemma discover_runs:
  assumes "discover E Q n skew cap since s w = (r, s', w')"
  shows "\<exists>ts'. runs E Q n (s, []) (s', ts')"
proof -
  obtain p t where p: "eligible_peers (po_members Q) (out_now E w) (nd_table s) = (p, t)" by fastforce
  have listed: "runs E Q n (s, []) (s\<lparr>nd_table := t\<rparr>, [])"
    using run_list [of Q "out_now E w" s p "s\<lparr>nd_table := t\<rparr>"] p by (auto simp: on_table_def)
  show ?thesis
  proof (cases p)
    case (Inl e)
    with assms p listed show ?thesis
      by (auto simp: discover_def refresh_discovered_members_def)
  next
    case (Inr rs)
    let ?s = "\<lparr>ds_table = t, ds_report = empty_report, ds_seen_ids = [], ds_seen_urls = []\<rparr>"
    obtain q d w1 where v: "visit_peers (po_members Q) E (node_client n) (nd_manifests s) (fn_admission_policy n)
        skew cap since rs ?s w = (q, d, w1)"
      by (metis prod_cases3)
    have "in_discovery E Q n (s, []) s d"
      by (rule visit_peers_runs [OF v])
        (use listed in \<open>auto simp: in_discovery_def empty_report_def remember_tasks_def List.map_filter_def\<close>)
    then obtain ts where ts: "runs E Q n (s, []) (s\<lparr>nd_table := ds_table d\<rparr>, ts)"
      "mset (remember_tasks (dr_accepted (ds_report d))) \<subseteq># mset ts"
      by (auto simp: in_discovery_def)
    have "s' = s\<lparr>nd_table := ds_table d\<rparr> \<or>
        (\<exists>u. remember_discovered Q (dr_accepted (ds_report d)) (s\<lparr>nd_table := ds_table d\<rparr>) = (u, s'))"
      using assms p Inr v
      by (auto simp: discover_def refresh_discovered_members_def split: sum.splits prod.splits)
    with ts remember_discovered_runs [OF _ ts(2)] show ?thesis
      by (blast intro: runs_trans)
  qed
qed

section \<open>Operations are runs\<close>

context node_ports
begin

lemma hydrate_runs: "hydrate Q s = (q, s') \<Longrightarrow> runs E Q n (s, ts) (s', ts)"
  by (rule r_into_rtranclp, rule run_hydrate)

lemma admit_peer_runs:
  assumes "admit_peer E Q n m url skew s w = (r, s', w')"
  shows "runs E Q n (s, ts) (s', ts)"
proof (cases "s' = s")
  case False
  then obtain d w1 u q where "admit_manifest (out_crypto E) (out_now E w) m (fn_admission_policy n) skew w = (Inr d, w1)"
    "ad_accepted d" "record_peer Q (out_now E w1) m u s = (q, s')"
    using assms by (auto simp: admit_peer_def split: prod.splits sum.splits option.splits if_splits)
  then show ?thesis
    by (intro r_into_rtranclp run_record)
qed simp

lemma bootstrap_runs:
  assumes "node_bootstrap E Q n seeds lu lm dl skew s w = (r, s', w')"
  shows "runs E Q n (s, ts) (s', ts)"
proof (cases "s' = s")
  case False
  then obtain report w1 q where run: "bootstrap_seeds E (node_client n) lu lm (fn_admission_policy n) dl skew seeds
      \<lparr>br_accepted = [], br_rejected = [], br_failed = []\<rparr> w = (Inr report, w1)"
    and rec: "record_seeds Q (out_now E w1) (br_accepted report) s = (q, s')"
    using assms by (auto simp: node_bootstrap_def bootstrap_from_seeds_def split: prod.splits sum.splits)
  show ?thesis
    by (rule record_seeds_runs [OF rec bootstrap_seeds_let_in [OF run]]) simp
qed simp

lemma refresh_peer_runs:
  assumes "refresh_peer E Q n k kp skew s w = (r, s', w')"
  shows "\<exists>ts'. runs E Q n (s, ts) (s', ts')"
  using assms
proof (cases rule: refresh_peer_phases)
  case (stopped q)
  then show ?thesis by (blast intro: run_look)
next
  case (applied rec s1 m d w1 u)
  have "run_step E Q n (s, ts) (s1, RefreshTask k d # ts)"
    by (rule start_refresh [OF applied(1-3)])
  moreover have "run_step E Q n (s1, RefreshTask k d # ts) (s', ts)"
    using finish_refresh [OF _ applied(4), of "RefreshTask k d # ts" E n] by simp
  ultimately show ?thesis
    by (blast intro: runs_step)
qed

lemma visit_decided:
  assumes "well_kept V s" "BatchTask k url \<in> set ts" "dict_get (nd_manifests s) k = Some m"
    and "will_decide E n kp skew (m, url) (Some kd)"
  shows "run_step E Q n (s, ts) (s, refresh_task kd # remove1 (BatchTask k url) ts)"
proof -
  obtain v v' d where "refresh_peer_manifest E (node_client n) m url kp skew v = (Inr d, v')" "kd = (mf_node_id m, d)"
    using assms(4) by (auto simp: will_decide_def refresh_one_def io_bind_Inr)
  moreover have "mf_node_id m = k"
    using cached_id [OF assms(1)] assms(3) by (simp add: cached_def)
  ultimately show ?thesis
    using visit_known [OF assms(2,3)] by simp
qed

lemma visit_missed:
  assumes "BatchTask k url \<in> set ts" "dict_get (nd_manifests s) k = None"
    and "apply_refresh_decision Q now k unknown_peer_decision s = (p, s1)"
  shows "runs E Q n (s, ts) (s1, RefreshTask k unknown_peer_decision # remove1 (BatchTask k url) ts)"
proof -
  let ?t = "RefreshTask k unknown_peer_decision" and ?ts = "remove1 (BatchTask k url) ts"
  have "run_step E Q n (s, ts) (s, ?t # ?t # ?ts)"
    by (rule visit_unknown [OF assms(1,2)])
  moreover have "run_step E Q n (s, ?t # ?t # ?ts) (s1, ?t # ?ts)"
    using finish_refresh [OF _ assms(3), of "?t # ?t # ?ts" E n] by simp
  ultimately show ?thesis
    by (meson r_into_rtranclp runs_step)
qed

lemma found_runs:
  assumes "well_kept V s" "dict_get (nd_manifests s) (rec_node_id r) = Some m"
    and IH: "\<And>news F ts. \<forall>targets ds. p = Inr (targets, ds) \<longrightarrow> list_all2 (will_decide E n kp skew) targets news \<Longrightarrow>
      mset (map batch_task rs) + F \<subseteq># mset ts \<Longrightarrow> loop_runs E Q n news F (s, ts) p s'"
    and "\<forall>targets ds. map_sum id (\<lambda>(targets, ds). ((m, rec_manifest_url r) # targets, ds)) p = Inr (targets, ds) \<longrightarrow>
      list_all2 (will_decide E n kp skew) targets news"
    and tasks: "mset (map batch_task (r # rs)) + F \<subseteq># mset ts"
  shows "loop_runs E Q n news F (s, ts) (map_sum id (\<lambda>(targets, ds). ((m, rec_manifest_url r) # targets, ds)) p) s'"
proof -
  let ?ts = "remove1 (BatchTask (rec_node_id r) (rec_manifest_url r)) ts"
  have batch: "BatchTask (rec_node_id r) (rec_manifest_url r) \<in> set ts" "mset (map batch_task rs) + F \<subseteq># mset ?ts"
    using tasks take_task [of "batch_task r" "mset (map batch_task rs) + F" ts]
    by (simp_all add: batch_task_def [of r])
  have rest: "mset (map batch_task rs) + F \<subseteq># mset ts"
    using tasks leave_task [of "batch_task r"] by simp
  show ?thesis
  proof (cases p)
    case (Inl e)
    with IH [OF _ rest] show ?thesis by (auto intro: loop_raised)
  next
    case (Inr x)
    with assms(4) obtain o1 news' where news: "news = o1 # news'" "will_decide E n kp skew (m, rec_manifest_url r) o1"
      and decided: "\<forall>targets ds. p = Inr (targets, ds) \<longrightarrow> list_all2 (will_decide E n kp skew) targets news'"
      by (cases x) (auto simp: list_all2_Cons1)
    show ?thesis
    proof (cases o1)
      case None
      with loop_skipped [OF IH [OF decided rest]] news show ?thesis by simp
    next
      case (Some kd)
      note visit = visit_decided [OF assms(1) batch(1) assms(2) news(2) [unfolded Some]]
      have "mset (map batch_task rs) + add_mset (refresh_task kd) F \<subseteq># mset (refresh_task kd # ?ts)"
        using batch(2) by simp
      with loop_decided [OF visit IH [OF decided]] news Some show ?thesis by simp
    qed
  qed
qed

lemma refresh_targets_runs:
  "well_kept V s \<Longrightarrow> refresh_targets Q now rs s = (q, s') \<Longrightarrow>
   (\<forall>targets ds. q = Inr (targets, ds) \<longrightarrow> list_all2 (will_decide E n kp skew) targets news) \<Longrightarrow>
   mset (map batch_task rs) + F \<subseteq># mset ts \<Longrightarrow> loop_runs E Q n news F (s, ts) q s'"
proof (induction rs arbitrary: s q news F ts)
  case Nil
  then show ?case
    by (auto simp: loop_runs_def)
next
  case (Cons r rs)
  let ?k = "rec_node_id r" and ?t = "RefreshTask (rec_node_id r) unknown_peer_decision"
  let ?ts = "remove1 (BatchTask ?k (rec_manifest_url r)) ts"
  have batch: "BatchTask ?k (rec_manifest_url r) \<in> set ts" "mset (map batch_task rs) + F \<subseteq># mset ?ts"
    using Cons.prems(4) take_task [of "batch_task r" "mset (map batch_task rs) + F" ts]
    by (simp_all add: batch_task_def [of r])
  show ?case
  proof (cases "dict_get (nd_manifests s) ?k")
    case None
    note start = visit_missed [OF batch(1) None]
    from Cons.prems(2) None show ?thesis
    proof (cases rule: refresh_targets_missed)
      case (raised e)
      with start [OF raised(1)] show ?thesis by (auto simp: loop_runs_def)
    next
      case (went s1 p)
      have kept: "well_kept V s1"
        by (rule touches_kept [OF apply_decision_touches [OF Cons.prems(1) about_unknown went(1)]])
      have "\<forall>targets ds. p = Inr (targets, ds) \<longrightarrow> list_all2 (will_decide E n kp skew) targets news"
        using Cons.prems(3) went(3) by auto
      note IH = Cons.IH [OF kept went(2) this]
      from IH [where F = "add_mset ?t F" and ts = "?t # ?ts"] batch(2)
      have "loop_runs E Q n news (add_mset ?t F) (s1, ?t # ?ts) p s'" by simp
      then show ?thesis
        unfolding went(3) by (rule loop_missed [OF start [OF went(1)]])
    qed
  next
    case (Some m)
    with Cons.prems(2) obtain p where p: "refresh_targets Q now rs s = (p, s')"
      and q: "q = map_sum id (\<lambda>(targets, ds). ((m, rec_manifest_url r) # targets, ds)) p"
      by (auto simp: io_bind_def io_lift_def split: prod.splits sum.splits)
    show ?thesis
      unfolding q
      by (rule found_runs [OF Cons.prems(1) Some Cons.IH [OF Cons.prems(1) p] Cons.prems(3) [unfolded q] Cons.prems(4)])
  qed
qed

lemma batch_runs:
  assumes "well_kept V s" "io_bind (on_table (eligible_peers (po_members Q) now)) (refresh_targets Q now') s = (q, s')"
    and "\<forall>targets ds. q = Inr (targets, ds) \<longrightarrow> list_all2 (will_decide E n kp skew) targets news"
  shows "loop_runs E Q n news {#} (s, ts) q s'"
  using assms(2)
proof (cases rule: io_bind_cases)
  case (raised e)
  have "runs E Q n (s, ts) (s', ts)"
    by (rule r_into_rtranclp, rule run_list [OF raised(1)])
  with raised(2) show ?thesis
    by (auto simp: loop_runs_def)
next
  case (went rs s1)
  have "run_step E Q n (s, ts) (s1, map batch_task rs @ ts)"
    using start_batch [OF went(1)] by (simp add: batch_task_def [abs_def])
  moreover have "loop_runs E Q n news {#} (s1, map batch_task rs @ ts) q s'"
    by (rule refresh_targets_runs [OF touches_kept [OF eligible_effect(1) [OF assms(1) went(1)]] went(2) assms(3)]) simp
  ultimately show ?thesis
    by (blast intro: loop_step)
qed

lemma refresh_all_runs:
  assumes "well_kept V s" "node_refresh_all E Q n kp skew s w = (r, s', w')"
  shows "\<exists>ts'. runs E Q n (s, ts) (s', ts')"
  using assms(2)
proof (cases rule: refresh_all_phases)
  case (stopped q)
  let ?none = "case q of Inr (targets, _) \<Rightarrow> map (\<lambda>_. None) targets | Inl e \<Rightarrow> []"
  have "loop_runs E Q n ?none {#} (s, ts) q s'"
    by (rule batch_runs [OF assms(1) stopped])
      (auto simp: list_all2_conv_all_nth will_decide_def split: sum.splits)
  then show ?thesis
    by (auto simp: loop_runs_def)
next
  case (applied targets ds s1 new w1 u)
  obtain rs where rs: "list_all2 (will_decide E n kp skew) targets (map Some rs)" "new = dict_of_pairs rs"
    by (rule decided_targets [OF applied(2)])
  have "loop_runs E Q n (map Some rs) {#} (s, ts) (Inr (targets, ds)) s1"
    using batch_runs [OF assms(1) applied(1)] rs(1) by auto
  then obtain ts' where ts': "runs E Q n (s, ts) (s1, ts')" "mset (map refresh_task (ds @ rs)) \<subseteq># mset ts'"
    by (auto simp: loop_runs_def landed_all)
  have "mset (map refresh_task (dict_update ds new)) \<subseteq># mset (map refresh_task (ds @ rs))"
    unfolding rs(2) by (rule mset_update_pairs)
  then obtain ts'' where "runs E Q n (s1, ts') (s', ts'')"
    using apply_decisions_runs [OF applied(3)] ts'(2) by (meson subset_mset.order_trans)
  with ts'(1) show ?thesis
    by (blast intro: runs_trans)
qed

lemma node_step_runs:
  assumes "node_step E Q n s s'" "well_kept V s"
  shows "runs E Q n (s, []) (s', [])"
  using assms(1)
proof cases
  case (step_hydrate q)
  then show ?thesis by (rule hydrate_runs)
next
  case (step_admit m url skew w r w')
  then show ?thesis by (rule admit_peer_runs)
next
  case (step_bootstrap seeds lu lm dl skew w r w')
  then show ?thesis by (rule bootstrap_runs)
next
  case (step_discover skew cap since w r w')
  then show ?thesis by (blast dest: discover_runs intro: runs_abandon)
next
  case (step_refresh k kp skew w r w')
  then show ?thesis by (blast dest: refresh_peer_runs intro: runs_abandon)
next
  case (step_refresh_all kp skew w r w')
  then show ?thesis by (blast dest: refresh_all_runs [OF assms(2)] intro: runs_abandon)
next
  case (step_revoke now notice trusted authorize r)
  then show ?thesis by (intro r_into_rtranclp run_revoke)
qed

lemma node_steps_runs:
  assumes "(node_step E Q n)\<^sup>*\<^sup>* s s'" "well_kept V s"
  shows "runs E Q n (s, []) (s', [])"
  using assms(1)
proof (induction rule: rtranclp_induct)
  case (step s1 s2)
  have "well_kept V s1"
    using node_steps_ok [OF step.hyps(1) assms(2)] by (simp add: step_ok_def)
  from node_step_runs [OF step.hyps(2) this] step.IH show ?case
    by (blast intro: runs_trans)
qed simp

end

section \<open>The manifests an interleaving brings in\<close>

text \<open>The manifests of the tasks under way, and what a run adds to those that a node holds.\<close>

fun task_manifests :: "task \<Rightarrow> manifest set" where
  "task_manifests (BatchTask k url) = {}"
| "task_manifests (RefreshTask k d) = decided d"
| "task_manifests (DiscoveryTask m url) = {m}"
| "task_manifests (RememberTask m) = {m}"

definition under_way :: "task list \<Rightarrow> manifest set" where
  "under_way ts = (\<Union>t \<in> set ts. task_manifests t)"

definition run_brings ::
    "('t, 's) node_views \<Rightarrow> manifest set \<Rightarrow> ('t, 's) node_state \<times> task list \<Rightarrow>
      ('t, 's) node_state \<times> task list \<Rightarrow> bool" where
  "run_brings V M x y \<longleftrightarrow> brings V (under_way (snd x) \<union> M) (fst x) (fst y) \<and>
     under_way (snd y) \<subseteq> under_way (snd x) \<union> M"

lemma run_brings_trans:
  assumes "run_brings V M x y" "run_brings V M y z"
  shows "run_brings V M x z"
proof -
  have "under_way (snd y) \<union> M \<subseteq> under_way (snd x) \<union> M"
    using assms(1) by (auto simp: run_brings_def)
  then have "brings V (under_way (snd x) \<union> M) (fst y) (fst z)"
    using assms(2) by (auto simp: run_brings_def intro: brings_mono)
  with assms show ?thesis
    by (auto simp: run_brings_def intro: brings_trans)
qed

lemma under_way_simps [simp]:
  "under_way [] = {}" "under_way (t # ts) = task_manifests t \<union> under_way ts"
  "under_way (ts @ us) = under_way ts \<union> under_way us"
  by (auto simp: under_way_def)

lemma under_way_remove: "under_way (remove1 t ts) \<subseteq> under_way ts"
  using set_remove1_subset [of t ts] by (auto simp: under_way_def)

lemma task_under_way: "t \<in> set ts \<Longrightarrow> task_manifests t \<subseteq> under_way ts"
  by (auto simp: under_way_def)

lemma batch_under_way: "under_way (map (\<lambda>r. BatchTask (f r) (g r)) rs) = {}"
  by (simp add: under_way_def)

lemma run_brings_step:
  assumes "brings V N s s'" "N \<subseteq> under_way ts \<union> M" "under_way ts' \<subseteq> under_way ts \<union> M"
  shows "run_brings V M (s, ts) (s', ts')"
  using brings_mono [OF assms(1,2)] assms(3) by (simp add: run_brings_def)

lemma run_brings_same: "brings V {} s s' \<Longrightarrow> run_brings V M (s, ts) (s', ts)"
  by (rule run_brings_step) auto

lemma run_brings_start: "brings V {} s s' \<Longrightarrow> under_way new \<subseteq> M \<Longrightarrow> run_brings V M (s, ts) (s', new @ ts)"
  by (rule run_brings_step) auto

lemma run_brings_turn:
  assumes "t \<in> set ts" "brings V (task_manifests t) s s'" "under_way new \<subseteq> task_manifests t \<union> M"
  shows "run_brings V M (s, ts) (s', new @ remove1 t ts)"
  using assms(3) task_under_way [OF assms(1)] under_way_remove [of t ts] by (intro run_brings_step [OF assms(2)]) auto

lemma admitted_genuine: "admit_manifest L t m policy skew w = (Inr d, w') \<Longrightarrow> ad_accepted d \<Longrightarrow> genuine L m"
  using admit_manifest_verified [of L t m policy skew w d w'] by (auto simp: genuine_def)

context node_ports
begin

lemma run_step_brings:
  assumes "run_step E Q n x y" "well_kept V (fst x)"
  shows "run_brings V (Collect (genuine (out_crypto E))) x y"
  using assms
proof cases
  case (run_record t m skew w d w' now url s q s' ts)
  with assms(2) admitted_genuine [OF run_record(3,4)] show ?thesis
    by (auto intro: run_brings_step [OF record_peer_brings])
next
  case (start_refresh k s r s' m kp skew w d w' ts)
  with assms(2) decided_genuine [OF start_refresh(5)] run_brings_start [of V s s' "[RefreshTask k d]"] show ?thesis
    by (simp add: lookup_brings)
next
  case (start_batch now s rs s' ts)
  with assms(2) show ?thesis
    by (simp add: run_brings_start eligible_brings batch_under_way)
next
  case (start_discovery m s s' url skew w w1 t d w2 ts)
  with assms(2) admitted_genuine [OF start_discovery(6,7)] run_brings_start [of V s s' "[DiscoveryTask m url]"] show ?thesis
    by (simp add: lookup_brings)
next
  case (visit_known k url ts s m kp skew w d w')
  with assms(2) decided_genuine [OF visit_known(5)] run_brings_turn [OF visit_known(3), of V s s "[RefreshTask k d]"]
  show ?thesis by (simp add: brings_refl)
next
  case (visit_unknown k url ts s)
  with assms(2) run_brings_turn [OF visit_unknown(3), of V s s "replicate 2 (RefreshTask k unknown_peer_decision)"]
  show ?thesis by (simp add: brings_refl numeral_2_eq_2)
next
  case (finish_refresh k d ts now s q s')
  with assms(2) run_brings_turn [OF finish_refresh(3), of V s s' "[]"] show ?thesis
    by (simp add: apply_decision_brings)
next
  case (store_discovered m url ts now s q s')
  with assms(2) run_brings_turn [OF store_discovered(3), of V s s' "[RememberTask m]"] show ?thesis
    by (simp add: put_brings)
next
  case (finish_discovery m ts s q s')
  with assms(2) run_brings_turn [OF finish_discovery(3), of V s s' "[]"] show ?thesis
    by (simp add: remember_brings)
next
  case (abandon t ts s)
  with assms(2) run_brings_turn [OF abandon(3), of V s s "[]"] show ?thesis by (simp add: brings_refl)
qed (use assms(2) in \<open>simp, blast intro: run_brings_same hydrate_brings revocation_brings lookup_brings eligible_brings\<close>)+

lemma run_steps_bring:
  assumes "runs E Q n x y" "well_kept V (fst x)"
  shows "run_brings V (Collect (genuine (out_crypto E))) x y"
  using assms(1)
proof (induction rule: rtranclp_induct)
  case base
  show ?case using assms(2) by (simp add: run_brings_def brings_refl)
next
  case (step y z)
  have "well_kept V (fst y)"
    using step.IH by (auto simp: run_brings_def intro: brings_kept)
  from run_step_brings [OF step.hyps(2) this] step.IH show ?case
    by (blast intro: run_brings_trans)
qed

lemma node_steps_bring:
  assumes "(node_step E Q n)\<^sup>*\<^sup>* s s'" "well_kept V s"
  shows "brings V (Collect (genuine (out_crypto E))) s s'"
  using run_steps_bring [OF node_steps_runs [OF assms]] assms(2) by (simp add: run_brings_def)

lemma run_inbound_authentic:
  assumes "well_kept V (fst x)" "\<forall>m \<in> held V (fst x) \<union> under_way (snd x). self_signed (out_crypto E) m"
    and "runs E Q n x y"
    and "verify_known_inbound n (out_crypto E) vj now (fst y) hdr k verb path body maxb skew cache c = (Inr p, c')"
  shows "vp_source_node_id p = k \<and>
    (\<exists>m env sg. cached (fst y) k = Some m \<and> mf_node_id m = k \<and> self_signed (out_crypto E) m \<and>
       authentic_envelope (out_crypto E) vj now hdr m (fn_node_id n) verb path body maxb skew env sg)"
proof -
  obtain m where m: "cached (fst y) k = Some m"
    and run: "verify_peer_request (out_crypto E) vj now hdr m (fn_node_id n) verb path body maxb skew cache c =
      (Inr p, c')"
    using assms(4) by (auto simp: verify_known_inbound_def verify_inbound_def cached_def split: option.splits)
  have brought: "brings V (under_way (snd x) \<union> Collect (genuine (out_crypto E))) (fst x) (fst y)"
    using run_steps_bring [OF assms(3,1)] by (simp add: run_brings_def)
  have "m \<in> held V (fst y)"
    using m by (auto simp: held_def ran_def)
  then obtain m1 where "m1 \<in> held V (fst x) \<union> under_way (snd x) \<or> genuine (out_crypto E) m1"
    and "m = m1 \<or> m = nv_keep_manifest V m1"
    using brought by (auto simp: brings_def copies_def)
  then have "self_signed (out_crypto E) m"
    using assms(2) same_content_signed [OF keep_content, of _ m1]
    by (auto simp: genuine_def check_manifest_True_iff)
  moreover have id: "mf_node_id m = k"
    by (rule cached_id [OF brings_kept [OF brought] m])
  moreover obtain env sg where "authentic_envelope (out_crypto E) vj now hdr m (fn_node_id n) verb path body maxb
      skew env sg" "p = peer_of env sg"
    using accepted_authentic [OF run] by blast
  ultimately show ?thesis
    using m by (auto simp: peer_of_def authentic_envelope_def)
qed

end

section \<open>Properties\<close>

text \<open>
  C11: Every sequence of whole operations of a node, whatever exceptions end them, is one of the
  interleavings of their steps: the reads, the network decisions and the locked writes that the
  operations are made of lead from the first state to the last with no task left under way.
\<close>

theorem operations_are_runs:
  assumes "node_ports Q V" "well_kept V s" "(node_step E Q n)\<^sup>*\<^sup>* s s'"
  shows "(run_step E Q n)\<^sup>*\<^sup>* (s, []) (s', [])"
  by (rule node_ports.node_steps_runs [OF assms(1,3,2)])

lemma operations_are_runs_witness:
  "\<exists>s1 r s'. node_apply_revocation memory_ports toy_node toy_crypto 5 toy_notice toy_keys self_scoped_authorize
      (toy_state ACTIVE [(''a'', toy_peer)]) = (Inr (Some REVOKED), s1) \<and>
    node_refresh_all (toy_out toy_peer []) memory_ports toy_node None 300 s1 () = (r, s', ()) \<and>
    (run_step (toy_out toy_peer []) memory_ports toy_node)\<^sup>*\<^sup>* (toy_state ACTIVE [(''a'', toy_peer)], []) (s', [])"
proof -
  let ?E = "toy_out toy_peer []"
  obtain s1 where revoke: "node_apply_revocation memory_ports toy_node (out_crypto ?E) 5 toy_notice toy_keys
      self_scoped_authorize (toy_state ACTIVE [(''a'', toy_peer)]) = (Inr (Some REVOKED), s1)"
    using toy_revocation by (auto simp: toy_out_simps)
  obtain r s' where all: "node_refresh_all ?E memory_ports toy_node None 300 s1 () = (r, s', ())"
    by (cases "node_refresh_all ?E memory_ports toy_node None 300 s1 ()") simp
  have "(node_step ?E memory_ports toy_node)\<^sup>*\<^sup>* (toy_state ACTIVE [(''a'', toy_peer)]) s'"
    using step_revoke [OF revoke] step_refresh_all [OF all] by (rule converse_rtranclp_into_rtranclp [OF _ r_into_rtranclp])
  from operations_are_runs [OF memory.node_ports_axioms toy_state_kept(2) this] revoke all show ?thesis
    by (auto simp: toy_out_simps)
qed

text \<open>
  C6: A request that a node accepts in a peer's name is signed by that peer: under every interleaving
  of the node's operations and whatever its stores raise, if the node and the tasks under way started
  with signed manifests only, the envelope names the peer as its source, is bound to this node and to
  the request, is fresh, and verifies under a key of a manifest that names the peer and is signed
  under a key it advertises.
\<close>

theorem interleaved_inbound_authentic:
  assumes "node_ports Q V" "well_kept V s"
    and "\<forall>m \<in> held V s \<union> under_way ts. self_signed (out_crypto E) m"
    and "(run_step E Q n)\<^sup>*\<^sup>* (s, ts) (s', ts')"
    and "verify_known_inbound n (out_crypto E) vj now s' hdr k verb path body maxb skew cache c = (Inr p, c')"
  shows "vp_source_node_id p = k \<and>
    (\<exists>m env sg. cached s' k = Some m \<and> mf_node_id m = k \<and> self_signed (out_crypto E) m \<and>
       authentic_envelope (out_crypto E) vj now hdr m (fn_node_id n) verb path body maxb skew env sg)"
  using node_ports.run_inbound_authentic [OF assms(1) _ _ assms(4)] assms(2,3,5) by simp

lemma interleaved_inbound_authentic_witness:
  "\<exists>s' p c'. (run_step (toy_out toy_peer []) memory_ports (toy_node\<lparr>fn_node_id := ''b''\<rparr>))\<^sup>*\<^sup>*
      (toy_state REJECTED [], [RememberTask toy_peer]) (s', []) \<and>
    verify_known_inbound (toy_node\<lparr>fn_node_id := ''b''\<rparr>) toy_crypto (\<lambda>_. Inr (toy_request 0)) 0 s' (Some ''h'') ''a''
      ''get'' ''/members'' [] None 300 (Some (memory_set 0)) [] = (Inr p, c') \<and> vp_source_node_id p = ''a''"
proof -
  let ?n = "toy_node\<lparr>fn_node_id := ''b''\<rparr>" and ?E = "toy_out toy_peer []" and ?s = "toy_state REJECTED []"
  obtain s' where s': "remember_manifest memory_ports toy_peer ?s = (Inr (), s')"
    using never_raises_unit [OF reliable_returns(1) [OF memory_reliable(2)]] by blast
  have steps: "(run_step ?E memory_ports ?n)\<^sup>*\<^sup>* (?s, [RememberTask toy_peer]) (s', [])"
    using finish_discovery [OF _ s', of "[RememberTask toy_peer]" ?E ?n] by (simp add: r_into_rtranclp)
  have "cached s' ''a'' = Some toy_peer"
    using memory.remember_effect(3) [OF toy_state_kept(1) s'] by (simp add: toy_peer_id)
  moreover have "\<exists>p c'. verify_peer_request toy_crypto (\<lambda>_. Inr (toy_request 0)) 0 (Some ''h'') toy_peer ''b''
      ''get'' ''/members'' [] None 300 (Some (memory_set 0)) [] = (Inr p, c')"
    using toy_request_authentic [of 0 0 300 "''https://h''"]
    by (auto simp: verify_peer_request_ok_iff verify_signed_request_accepts envelope_checks_ok_iff
        authentic_envelope_def memory_set_def toy_signed_def check_body_size_def usec_def)
  ultimately obtain p c' where run: "verify_known_inbound ?n (out_crypto ?E) (\<lambda>_. Inr (toy_request 0)) 0 s' (Some ''h'')
      ''a'' ''get'' ''/members'' [] None 300 (Some (memory_set 0)) [] = (Inr p, c')"
    by (auto simp: verify_known_inbound_def verify_inbound_def cached_def toy_out_simps)
  have "self_signed toy_crypto toy_peer"
    using toy_check [of undefined "''a''" "''https://h''"] by (simp add: check_manifest_True_iff)
  then have "\<forall>m \<in> held memory_views ?s \<union> under_way [RememberTask toy_peer]. self_signed (out_crypto ?E) m"
    by (simp add: held_def toy_state_simps toy_out_simps)
  from interleaved_inbound_authentic [OF memory.node_ports_axioms toy_state_kept(1) this steps run]
  show ?thesis
    using steps run by (auto simp: toy_out_simps)
qed

text \<open>In particular along every sequence of whole operations.\<close>

theorem known_inbound_authentic:
  assumes "node_ports Q V" "well_kept V s" "\<forall>m \<in> held V s. self_signed (out_crypto E) m"
    and "(node_step E Q n)\<^sup>*\<^sup>* s s'"
    and "verify_known_inbound n (out_crypto E) vj now s' hdr k verb path body maxb skew cache c = (Inr p, c')"
  shows "vp_source_node_id p = k \<and>
    (\<exists>m env sg. cached s' k = Some m \<and> mf_node_id m = k \<and> self_signed (out_crypto E) m \<and>
       authentic_envelope (out_crypto E) vj now hdr m (fn_node_id n) verb path body maxb skew env sg)"
  using node_ports.run_inbound_authentic [OF assms(1) _ _ node_ports.node_steps_runs [OF assms(1,4,2)]] assms(2,3,5)
  by simp

end
