(* ===== verification/Node_Lineage.thy ===== *)
theory Node_Lineage
  imports Node_Runs
begin

text \<open>
  The line of a peer's manifests. A refresh replaces the manifest it was decided against by one
  that \<open>succeeds\<close> it, so along every sequence of whole refreshes and revocations a cached manifest
  descends from the one the node started with, key by key and without a rollback. Two refreshes
  that overlap break the line: the one that finishes last writes what it decided, also when what
  it decided against is no longer there.
\<close>

section \<open>Successors\<close>

text \<open>
  The new manifest is of the same node and organisation, is signed, is not older, and either keeps
  the keys or rotates them with the consent of an old key or of the host's evidence.
\<close>

definition succeeds :: "crypto_lib \<Rightarrow> 'w key_continuity_policy option \<Rightarrow> manifest \<Rightarrow> manifest \<Rightarrow> bool" where
  "succeeds L p old new \<longleftrightarrow>
     mf_node_id new = mf_node_id old \<and> mf_org_id new = mf_org_id old \<and>
     mf_revision old \<le> mf_revision new \<and> self_signed L new \<and>
     (dict_eq_by (dict_eq_by (=)) (keys_by_id old) (keys_by_id new) \<or>
      kp_allow_key_rotation (continuity_policy p) \<and>
      (signed_by_old_key L (keys_by_id old) new = Inr True \<or>
       (\<exists>vouch w r w'. kp_evidence_verifier (continuity_policy p) = Some vouch \<and> vouch new w = (Inr (True, r), w'))))"

lemma continuity_succeeds:
  assumes "check_key_continuity L old new p w = (Inr kd, w')" "kd_action kd = KC_accept"
    and "mf_revision old \<le> mf_revision new" "self_signed L new"
  shows "succeeds L p old new"
  using assms by (auto simp: succeeds_def check_key_continuity_def Let_def kc_def
      split: sum.splits prod.splits option.splits if_splits)

lemma refresh_succeeds:
  assumes "refresh_peer_manifest E c old url p skew w = (Inr d, w')" "m \<in> decided d"
  shows "succeeds (out_crypto E) p old m"
proof -
  obtain r w1 where fetch: "fetch_manifest E c url skew w = (r, w1)" by fastforce
  show ?thesis
  proof (cases r)
    case (Inl e)
    with assms fetch have "failed_refresh e (mf_revision old) = Inr d"
      by (simp add: refresh_peer_manifest_def)
    with assms(2) show ?thesis
      using failed_refresh_action by (fastforce simp: decided_def)
  next
    case (Inr new)
    have signed: "self_signed (out_crypto E) new"
      using fetch_manifest_ok [of E c url skew w new w1] fetch Inr by (simp add: check_manifest_True_iff)
    from assms fetch Inr obtain kd where m: "m = new" "mf_revision old \<le> mf_revision new"
      and kd: "check_key_continuity (out_crypto E) old new p w1 = (Inr kd, w')" "kd_action kd = KC_accept"
      by (auto simp: refresh_peer_manifest_def decided_def with_manifest_def
          split: if_splits prod.splits sum.splits continuity_action.splits)
    show ?thesis
      unfolding m(1) by (rule continuity_succeeds [OF kd m(2) signed])
  qed
qed

section \<open>What an operation caches\<close>

text \<open>Nothing new is cached but manifests of \<open>M\<close>.\<close>

definition caches ::
    "manifest set \<Rightarrow> ('t, 's) node_state \<Rightarrow> ('t, 's) node_state \<Rightarrow> bool" where
  "caches M s s' \<longleftrightarrow> (\<forall>k m. cached s' k = Some m \<longrightarrow> cached s k = Some m \<or> m \<in> M)"

lemma caches_refl: "caches M s s"
  by (simp add: caches_def)

lemma caches_trans: "caches M s s1 \<Longrightarrow> caches M s1 s2 \<Longrightarrow> caches M s s2"
  by (auto simp: caches_def)

lemma caches_mono: "caches M s s' \<Longrightarrow> M \<subseteq> N \<Longrightarrow> caches N s s'"
  by (auto simp: caches_def)

lemma caches_same: "cached s' = cached s \<Longrightarrow> caches M s s'"
  by (simp add: caches_def)

lemma touches_caches: "touches Q V {} s s' \<Longrightarrow> caches M s s'"
  by (auto simp: touches_def caches_def)

context node_ports
begin

lemma put_found_caches: "well_kept V s \<Longrightarrow> put_found Q x f s = (q, s') \<Longrightarrow> caches M s s'"
  using put_effect(2) by (auto simp: put_found_def caches_refl caches_same split: option.splits)

lemma remember_put_caches:
  assumes "well_kept V s" "io_bind (remember_manifest Q m) (\<lambda>_. put_found Q x f) s = (q, s')"
  shows "caches {m} s s'"
  using assms(2)
proof (cases rule: io_bind_cases)
  case (raised e)
  with remember_effect(3) [OF assms(1)] show ?thesis by (fastforce simp: caches_def)
next
  case (went u s1)
  note s1 = remember_effect [OF assms(1) went(1)]
  have "caches {m} s s1"
    using s1(3) by (simp add: caches_def)
  then show ?thesis
    by (rule caches_trans [OF _ put_found_caches [OF touches_kept [OF s1(1)] went(2)]])
qed

lemma put_forget_caches:
  assumes "well_kept V s" "io_bind (put_found Q x f) (\<lambda>_. forget_manifest Q k) s = (q, s')"
    and "\<And>r. x = Some r \<Longrightarrow> rec_node_id (f r) = k"
  shows "caches {} s s'"
  using assms(2)
proof (cases rule: io_bind_cases)
  case (raised e)
  show ?thesis by (rule put_found_caches [OF assms(1) raised(1)])
next
  case (went u s1)
  have "caches {} s1 s'"
    using forget_effect(3) [OF touches_kept [OF put_found_touches [OF assms(1) went(1) assms(3)]] went(2)]
    by (simp add: caches_def)
  with put_found_caches [OF assms(1) went(1)] show ?thesis
    by (rule caches_trans)
qed

lemma apply_decision_caches:
  assumes "well_kept V s" "apply_refresh_decision Q now k d s = (q, s')"
  shows "caches (decided d) s s'"
  using assms(2) [unfolded apply_refresh_decision_def]
proof (cases rule: io_bind_cases)
  case (raised e)
  then show ?thesis
    using touches_caches [OF lookup_effect(1) [OF assms(1)]] by blast
next
  case (went x s1)
  note s1 = lookup_effect [OF assms(1) went(1)]
  note kept = touches_kept [OF s1(1)]
  have id: "rec_node_id r = k" if "x = Some r" for r
    using record_id [OF assms(1)] s1(2) that by simp
  have "caches (decided d) s1 s'"
    using went(2) id by (cases "md_action d"; cases "md_manifest d")
      (auto simp: decided_def caches_refl intro: put_found_caches [OF kept] remember_put_caches [OF kept]
        put_forget_caches [OF kept])
  with touches_caches [OF s1(1)] show ?thesis
    by (rule caches_trans)
qed

lemma apply_decisions_caches:
  "well_kept V s \<Longrightarrow> \<forall>(k, d) \<in> set ds. about k d \<and> decided d \<subseteq> M \<Longrightarrow> apply_decisions Q now ds s = (q, s') \<Longrightarrow>
   caches M s s'"
proof (induction ds arbitrary: s)
  case (Cons kd ds)
  obtain k d where kd: "kd = (k, d)" by fastforce
  have first: "caches M s s1 \<and> well_kept V s1" if "apply_refresh_decision Q now k d s = (r, s1)" for r s1
    using Cons.prems(2) kd caches_mono [OF apply_decision_caches [OF Cons.prems(1) that]]
      touches_kept [OF apply_decision_touches [OF Cons.prems(1) _ that]] by simp
  from Cons.prems(3) have "io_bind (apply_refresh_decision Q now k d) (\<lambda>_. apply_decisions Q now ds) s = (q, s')"
    by (simp add: kd)
  then show ?case
  proof (cases rule: io_bind_cases)
    case (raised e)
    with first show ?thesis by blast
  next
    case (went u s1)
    with first [OF went(1)] Cons.IH [OF _ _ went(2)] Cons.prems(2) show ?thesis
      by (auto intro: caches_trans)
  qed
qed (simp add: caches_refl)

text \<open>The loop of a batch only evicts, and its targets are cached when it starts.\<close>

lemma refresh_targets_caches:
  "well_kept V s \<Longrightarrow> refresh_targets Q now rs s = (q, s') \<Longrightarrow>
   caches {} s s' \<and> (\<forall>targets ds. q = Inr (targets, ds) \<longrightarrow>
     (\<forall>t \<in> set targets. cached s (mf_node_id (fst t)) = Some (fst t)) \<and> (\<forall>kd \<in> set ds. decided (snd kd) = {}))"
proof (induction rs arbitrary: s q)
  case (Cons r rs)
  show ?case
  proof (cases "dict_get (nd_manifests s) (rec_node_id r)")
    case None
    note first = apply_decision_caches [OF Cons.prems(1)] apply_decision_touches [OF Cons.prems(1) about_unknown]
    from Cons.prems(2) None show ?thesis
    proof (cases rule: refresh_targets_missed)
      case (raised e)
      with first(1) show ?thesis by fastforce
    next
      case (went s1 p)
      have s1: "caches {} s s1" using first(1) [OF went(1)] by simp
      from Cons.IH [OF touches_kept [OF first(2) [OF went(1)]] went(2)] show ?thesis
        using s1 went(3) set_dict_update [of "[(rec_node_id r, unknown_peer_decision)]"]
        by (cases p) (fastforce simp: caches_def)+
    qed
  next
    case (Some m)
    with Cons.prems(2) obtain p where p: "refresh_targets Q now rs s = (p, s')"
      and q: "q = map_sum id (\<lambda>(targets, ds). ((m, rec_manifest_url r) # targets, ds)) p"
      by (auto simp: io_bind_def io_lift_def split: prod.splits sum.splits)
    have "cached s (mf_node_id m) = Some m"
      using Some cached_id [OF Cons.prems(1), of "rec_node_id r" m] by (simp add: cached_def)
    with Cons.IH [OF Cons.prems(1) p] q show ?thesis
      by (cases p) fastforce+
  qed
qed (simp add: caches_refl)

lemma batch_caches:
  assumes "well_kept V s" "io_bind (on_table (eligible_peers (po_members Q) now)) (refresh_targets Q now') s = (q, s')"
  shows "caches {} s s' \<and> (\<forall>targets ds. q = Inr (targets, ds) \<longrightarrow>
     (\<forall>t \<in> set targets. cached s (mf_node_id (fst t)) = Some (fst t)) \<and> (\<forall>kd \<in> set ds. decided (snd kd) = {}))"
  using assms(2)
proof (cases rule: io_bind_cases)
  case (raised e)
  with touches_caches [OF eligible_effect(1) [OF assms(1) raised(1)]] show ?thesis by simp
next
  case (went rs s1)
  note s1 = eligible_effect(1) [OF assms(1) went(1)]
  have "cached s1 = cached s" using s1 by (auto simp: touches_def)
  with refresh_targets_caches [OF touches_kept [OF s1] went(2)] show ?thesis
    by (auto simp: caches_def)
qed

section \<open>Descent\<close>

definition next_ones ::
    "crypto_lib \<Rightarrow> 'w key_continuity_policy option \<Rightarrow> ('t, 's) node_state \<Rightarrow> manifest set" where
  "next_ones L p s = {new. \<exists>m. cached s (mf_node_id m) = Some m \<and> succeeds L p m new}"

lemma refresh_peer_caches:
  assumes "well_kept V s" "refresh_peer E Q n k p skew s w = (r, s', w')"
  shows "caches (next_ones (out_crypto E) p s) s s'"
  using assms(2)
proof (cases rule: refresh_peer_phases)
  case (stopped q)
  then show ?thesis using touches_caches [OF lookup_effect(1) [OF assms(1)]] by blast
next
  case (applied rec s1 m d w1 u)
  note s1 = lookup_effect(1) [OF assms(1) applied(1)]
  have "cached s k = Some m"
    using s1 applied(2) by (simp add: touches_def cached_def)
  moreover from this have "mf_node_id m = k" by (rule cached_id [OF assms(1)])
  ultimately have "decided d \<subseteq> next_ones (out_crypto E) p s"
    using refresh_succeeds [OF applied(3)] by (auto simp: next_ones_def)
  from caches_mono [OF apply_decision_caches [OF touches_kept [OF s1] applied(4)] this] touches_caches [OF s1]
  show ?thesis by (blast intro: caches_trans)
qed

lemma refresh_all_caches:
  assumes "well_kept V s" "node_refresh_all E Q n p skew s w = (r, s', w')"
  shows "caches (next_ones (out_crypto E) p s) s s'"
  using assms(2)
proof (cases rule: refresh_all_phases)
  case (stopped q)
  with batch_caches [OF assms(1)] show ?thesis by (blast intro: caches_mono)
next
  case (applied targets ds s1 new w1 u)
  let ?M = "next_ones (out_crypto E) p s"
  note batch = batch_caches [OF assms(1) applied(1)] batch_targets_quiet [OF assms(1) applied(1)]
  have new: "about k d \<and> decided d \<subseteq> ?M" if kd: "(k, d) \<in> set new" for k d
  proof (rule refresh_all_decision [OF applied(2) kd])
    fix m url v v'
    assume m: "(m, url) \<in> set targets" "k = mf_node_id m" "refresh_peer_manifest E (node_client n) m url p skew v = (Inr d, v')"
    have "cached s (mf_node_id m) = Some m"
      using batch(1) m(1) by fastforce
    then show ?thesis
      using refresh_all_about [OF applied(2) kd] refresh_succeeds [OF m(3)] by (auto simp: next_ones_def)
  qed
  have "about k d \<and> decided d \<subseteq> ?M" if "(k, d) \<in> set ds" for k d
    using batch that by fastforce
  with new have "\<forall>(k, d) \<in> set (dict_update ds new). about k d \<and> decided d \<subseteq> ?M"
    using set_dict_update [of ds new] by fast
  then have "caches ?M s1 s'"
    by (rule apply_decisions_caches [OF touches_kept [OF batch(2) [THEN conjunct1]] _ applied(3)])
  with caches_mono [OF batch(1) [THEN conjunct1]] show ?thesis
    by (blast intro: caches_trans)
qed

lemma forget_caches: "forget_manifest Q k s = (q, s') \<Longrightarrow> caches M s s'"
  by (auto simp: forget_manifest_def on_store_def caches_def cached_def split: option.splits prod.splits if_splits)

lemma revocation_caches:
  assumes "well_kept V s" "node_apply_revocation Q n L now notice trusted authorize s = (q, s')"
  shows "caches {} s s'"
  using assms(2) [unfolded node_apply_revocation_def]
proof (cases rule: io_bind_cases)
  case (raised e)
  then show ?thesis by (auto simp: on_table_def cached_def split: prod.splits intro!: caches_same)
next
  case (went x s1)
  have "caches {} s s1"
    using went(1) by (auto simp: on_table_def cached_def split: prod.splits intro!: caches_same)
  moreover have "caches {} s1 s'"
    using went(2) by (auto simp: io_bind_def io_lift_def caches_refl split: if_splits prod.splits sum.splits
      intro: forget_caches)
  ultimately show ?thesis by (rule caches_trans)
qed

end

text \<open>Whole refreshes of one peer or of all, under one policy, and revocations.\<close>

inductive upkeep_step ::
    "'w outside \<Rightarrow> ('t, 's) ports \<Rightarrow> 'w federation_node \<Rightarrow> 'w key_continuity_policy option \<Rightarrow>
      ('t, 's) node_state \<Rightarrow> ('t, 's) node_state \<Rightarrow> bool"
  for E Q n p where
  upkeep_peer: "refresh_peer E Q n k p skew s w = (r, s', w') \<Longrightarrow> upkeep_step E Q n p s s'"
| upkeep_all: "node_refresh_all E Q n p skew s w = (r, s', w') \<Longrightarrow> upkeep_step E Q n p s s'"
| upkeep_revoke: "node_apply_revocation Q n (out_crypto E) now notice trusted authorize s = (r, s') \<Longrightarrow>
    upkeep_step E Q n p s s'"

lemma upkeep_node_step: "upkeep_step E Q n p s s' \<Longrightarrow> node_step E Q n s s'"
  by (induction rule: upkeep_step.induct) (blast intro: node_step.intros)+

context node_ports
begin

lemma upkeep_caches:
  assumes "upkeep_step E Q n p s s'" "well_kept V s"
  shows "caches (next_ones (out_crypto E) p s) s s'"
  using assms
  by cases (blast intro: refresh_peer_caches refresh_all_caches caches_mono [OF revocation_caches])+

lemma upkeep_descends:
  assumes "upkeep_step E Q n p s s'" "well_kept V s" "cached s' k = Some m'"
  shows "\<exists>m. cached s k = Some m \<and> (succeeds (out_crypto E) p)\<^sup>*\<^sup>* m m'"
proof -
  have "well_kept V s'"
    using node_step_ok [OF upkeep_node_step [OF assms(1)] assms(2)] by (simp add: step_ok_def)
  then have id: "mf_node_id m' = k" by (rule cached_id [OF _ assms(3)])
  have "cached s k = Some m' \<or> m' \<in> next_ones (out_crypto E) p s"
    using upkeep_caches [OF assms(1,2)] assms(3) by (simp add: caches_def)
  then show ?thesis
  proof
    assume "m' \<in> next_ones (out_crypto E) p s"
    then obtain m where m: "cached s (mf_node_id m) = Some m" "succeeds (out_crypto E) p m m'"
      by (auto simp: next_ones_def)
    moreover have "mf_node_id m = k"
      using m(2) id by (simp add: succeeds_def)
    ultimately show ?thesis by blast
  qed auto
qed

lemma upkeep_lineage:
  assumes "(upkeep_step E Q n p)\<^sup>*\<^sup>* s s'" "well_kept V s"
  shows "well_kept V s' \<and>
    (\<forall>k m'. cached s' k = Some m' \<longrightarrow> (\<exists>m. cached s k = Some m \<and> (succeeds (out_crypto E) p)\<^sup>*\<^sup>* m m'))"
  using assms(1)
proof (induction rule: rtranclp_induct)
  case (step y z)
  then have "well_kept V z"
    using node_step_ok [OF upkeep_node_step [OF step.hyps(2)]] by (auto simp: step_ok_def)
  with step.IH upkeep_descends [OF step.hyps(2)] show ?case
    by (meson rtranclp_trans)
qed (use assms(2) in auto)

end

lemma succeeds_older: "(succeeds L p)\<^sup>*\<^sup>* m m' \<Longrightarrow>
  mf_org_id m' = mf_org_id m \<and> mf_revision m \<le> mf_revision m' \<and> (m' = m \<or> self_signed L m')"
  by (induction rule: rtranclp_induct) (auto simp: succeeds_def)

section \<open>Properties\<close>

text \<open>
  C8: Refreshes keep the line of a peer's manifests: along every sequence of whole refreshes (of one
  peer or of all) and revocations, whatever the peers serve and the stores raise, a manifest that is
  cached was cached before under the same id or descends from the one that was, each link signed,
  of the same node and organisation, not older, and with the same keys or keys that an old key or
  the host's evidence vouches for.
\<close>

theorem refreshes_keep_lineage:
  assumes "node_ports Q V" "well_kept V s" "(upkeep_step E Q n p)\<^sup>*\<^sup>* s s'" "cached s' k = Some m'"
  shows "\<exists>m. cached s k = Some m \<and> (succeeds (out_crypto E) p)\<^sup>*\<^sup>* m m' \<and>
    mf_org_id m' = mf_org_id m \<and> mf_revision m \<le> mf_revision m' \<and> (m' = m \<or> self_signed (out_crypto E) m')"
  using node_ports.upkeep_lineage [OF assms(1,3,2)] assms(4) succeeds_older by blast

lemma toy_same_keys:
  "dict_eq_by (dict_eq_by (=)) (keys_by_id (toy_peer\<lparr>mf_revision := i\<rparr>)) (keys_by_id (toy_peer\<lparr>mf_revision := j\<rparr>))"
  "dict_eq_by (dict_eq_by (=)) (keys_by_id (toy_peer\<lparr>mf_revision := i\<rparr>)) (keys_by_id toy_peer)"
  by (simp_all add: keys_by_id_def toy_signed_def toy_manifest_def dict_of_pairs_def dict_eq_by_def
      public_jwk_def jwk_of_raw_def)

lemma refreshes_keep_lineage_witness:
  "\<exists>d s'. refresh_peer (toy_out toy_peer []) memory_ports toy_node ''a'' None 300
      (toy_state ACTIVE [(''a'', toy_peer\<lparr>mf_revision := 0\<rparr>)]) () = (Inr d, s', ()) \<and>
    cached s' ''a'' = Some toy_peer \<and> (succeeds toy_crypto (None :: unit key_continuity_policy option))\<^sup>*\<^sup>*
      (toy_peer\<lparr>mf_revision := 0\<rparr>) toy_peer"
proof -
  let ?old = "toy_peer\<lparr>mf_revision := 0\<rparr>" and ?E = "toy_out toy_peer []"
  let ?s = "toy_state ACTIVE [(''a'', ?old)]"
  have "node_client toy_node = toy_client"
    by (simp add: node_client_def toy_node_def toy_client_def)
  then obtain d where d: "refresh_peer_manifest ?E (node_client toy_node) ?old ''https://h/m'' None 300 () = (Inr d, ())"
    "md_action d = RF_accept" "md_manifest d = Some toy_peer"
    using toy_same_keys by (simp add: refresh_peer_manifest_def toy_fetch toy_peer_id check_key_continuity_def
        kc_def with_manifest_def toy_out_simps)
  have kept: "well_kept memory_views ?s"
    by (simp add: well_kept_def memory_views_def toy_state_def keyed_by_def dict_wf_def toy_peer_id)
  obtain s' where ap: "apply_refresh_decision memory_ports (out_now ?E ()) ''a'' d ?s = (Inr (), s')"
    using never_raises_unit [OF apply_decision_reliable [OF memory_reliable(2)]] by blast
  have "table_get (nd_table ?s) ''a'' = Some (toy_record ACTIVE)" "dict_get (nd_manifests ?s) ''a'' = Some ?old"
    by (simp_all add: toy_state_def table_get_def)
  with d(1) ap have run: "refresh_peer ?E memory_ports toy_node ''a'' None 300 ?s () = (Inr d, s', ())"
    unfolding refresh_peer_def memory_lookup by simp
  have "known memory_views ?s ''a'' = Some (toy_record ACTIVE)"
    by (simp add: toy_state_simps)
  then have cached: "cached s' ''a'' = Some toy_peer"
    using memory.apply_decision_returns(3) [OF kept ap, of "toy_record ACTIVE" toy_peer] d(2,3) toy_peer_id(1) by simp
  obtain m where "cached ?s ''a'' = Some m" "(succeeds (out_crypto ?E) (None :: unit key_continuity_policy option))\<^sup>*\<^sup>* m toy_peer"
    using refreshes_keep_lineage [OF memory.node_ports_axioms kept r_into_rtranclp cached, OF upkeep_peer, OF run] by blast
  then show ?thesis
    using run cached by (auto simp: toy_state_simps toy_out_simps)
qed

lemma refresh_starts:
  assumes "node_ports Q V" "ports_reliable Q" "well_kept V s" "known V s k = Some rec" "cached s k = Some m"
    and "refresh_peer_manifest E (node_client n) m (rec_manifest_url rec) p skew w = (Inr d, w')"
  shows "\<exists>s0. run_step E Q n (s, ts) (s0, RefreshTask k d # ts) \<and> well_kept V s0 \<and>
    known V s0 k = Some rec \<and> cached s0 k = Some m"
proof -
  obtain s0 where s0: "on_table (tb_get (po_members Q) k) s = (Inr (Some rec), s0)" "touches Q V {} s s0"
    using reliable_lookup [OF assms(1-3), of k] assms(4) by auto
  have now: "well_kept V s0" "known V s0 k = Some rec" "cached s0 k = Some m"
    using s0(2) assms(4,5) by (auto simp: touches_def)
  have "run_step E Q n (s, ts) (s0, RefreshTask k d # ts)"
    using now(3) by (intro start_refresh [OF s0(1) _ assms(6)]) (simp add: cached_def)
  with now show ?thesis by blast
qed

text \<open>
  C9: Refreshes that overlap can roll a peer back: when two refreshes of a peer have been decided
  against the same cached manifest and the one with the newer manifest is applied first, the other
  overwrites it: the older manifest is cached and requests are verified under its keys, also those
  that the newer manifest had retired.
\<close>

theorem overlapping_refreshes_roll_back:
  fixes c :: 'c
  assumes "node_ports Q V" "ports_reliable Q" "well_kept V s" "known V s k = Some rec" "cached s k = Some m"
    and "refresh_peer_manifest E (node_client n) m (rec_manifest_url rec) p skew w = (Inr d, w1)"
    and "md_action d \<in> {RF_accept, RF_unchanged}" "md_manifest d = Some old"
    and "refresh_peer_manifest E (node_client n) m (rec_manifest_url rec) p skew w2 = (Inr d', w3)"
    and "md_action d' \<in> {RF_accept, RF_unchanged}" "md_manifest d' = Some new"
    and "mf_revision old < mf_revision new"
  shows "\<exists>s1 s2. (run_step E Q n)\<^sup>*\<^sup>* (s, []) (s1, [RefreshTask k d]) \<and> cached s1 k = Some new \<and>
    run_step E Q n (s1, [RefreshTask k d]) (s2, []) \<and> cached s2 k = Some old \<and>
    (\<forall>L vj now' hdr verb path body maxb skew' cache.
       verify_known_inbound n L vj now' s2 hdr k verb path body maxb skew' cache c =
       verify_inbound n L vj now' hdr old verb path body maxb skew' cache c)"
proof -
  note ports = assms(1)
  obtain s0 where s0: "run_step E Q n (s, []) (s0, [RefreshTask k d])" "well_kept V s0"
    "known V s0 k = Some rec" "cached s0 k = Some m"
    using refresh_starts [OF assms(1-6)] by blast
  obtain sa where sa: "run_step E Q n (s0, [RefreshTask k d]) (sa, [RefreshTask k d', RefreshTask k d])"
    "well_kept V sa" "known V sa k = Some rec"
    using refresh_starts [OF assms(1,2) s0(2-4) assms(9)] by blast
  have id: "mf_node_id old = k" "mf_node_id new = k"
    using refresh_peer_sound [OF assms(6)] refresh_peer_sound [OF assms(9)] assms(7,8,10,11)
      node_ports.cached_id [OF ports assms(3,5)] by (auto simp: sound_refresh_def)
  obtain s1 where s1: "apply_refresh_decision Q now k d' sa = (Inr (), s1)"
    using never_raises_unit [OF apply_decision_reliable [OF assms(2)]] by blast
  note new = node_ports.apply_decision_returns(3) [OF ports sa(2) s1 sa(3) assms(10,11) id(2)]
  have kept1: "well_kept V s1"
    using node_ports.apply_decision_touches [OF ports sa(2) _ s1] assms(11) id(2)
    by (auto simp: touches_def about_def)
  obtain s2 where s2: "apply_refresh_decision Q now k d s1 = (Inr (), s2)"
    using never_raises_unit [OF apply_decision_reliable [OF assms(2)]] by blast
  have old: "cached s2 k = Some old"
    using node_ports.apply_decision_returns(3) [OF ports kept1 s2 _ assms(7,8) id(1)] new by blast
  have "run_step E Q n (sa, [RefreshTask k d', RefreshTask k d]) (s1, [RefreshTask k d])"
    using finish_refresh [OF _ s1, of "[RefreshTask k d', RefreshTask k d]" E n] by simp
  with s0(1) sa(1) have "(run_step E Q n)\<^sup>*\<^sup>* (s, []) (s1, [RefreshTask k d])"
    by (meson r_into_rtranclp rtranclp.rtrancl_into_rtrancl)
  moreover have "run_step E Q n (s1, [RefreshTask k d]) (s2, [])"
    using finish_refresh [OF _ s2, of "[RefreshTask k d]" E n] by simp
  moreover have "\<forall>L vj now' hdr verb path body maxb skew' cache.
      verify_known_inbound n L vj now' s2 hdr k verb path body maxb skew' cache c =
      verify_inbound n L vj now' hdr old verb path body maxb skew' cache c"
    using old by (simp add: verify_known_inbound_def cached_def)
  ultimately show ?thesis
    using new old by blast
qed

text \<open>A peer that publishes a new revision every second: the state of the world is the time.\<close>

definition moving_out :: "int outside" where
  "moving_out = \<lparr>out_crypto = toy_crypto, out_now = \<lambda>w. 0,
     out_uuid_text = \<lambda>w. (''id'', w), out_uuid_bytes = \<lambda>w. ([7], w),
     out_getaddrinfo = \<lambda>h w. (Inr [''8.8.8.8''], w),
     out_request = \<lambda>verb url body params hs w. (Inr \<lparr>ht_status_error = None, ht_json = Inr (JInt w)\<rparr>, w + 1),
     out_json_text = \<lambda>j. ''text'',
     val_manifest = \<lambda>j. (case j of JInt i \<Rightarrow> Inr (toy_peer\<lparr>mf_revision := i\<rparr>) | _ \<Rightarrow> Inl (ValidationError ''manifest'')),
     val_signed_request = read_as dec_signed_request,
     val_introduce_response = \<lambda>j. Inr signed_introduction,
     val_members_response = \<lambda>j. Inr (signed_members []),
     val_revocations_response = read_as dec_revocations_response,
     val_operation_response = \<lambda>j. Inr signed_operation,
     val_protocol_response = read_as dec_protocol_response,
     val_health_response = read_as dec_health_response\<rparr>"

definition moving_node :: "int federation_node" where
  "moving_node = \<lparr>fn_node_id = ''me'', fn_federation_id = ''fed'', fn_key = [], fn_key_id = ''k1'',
     fn_admission_policy = \<lparr>ap_federation_id = ''fed'', ap_protocol_versions = [''v1''],
       ap_require_expires_at = False, ap_require_signed_http = True, ap_require_https = True,
       ap_allow_private_hosts = False, ap_allowed_endpoint_domains = [], ap_evidence_verifier = None,
       ap_auth_method_verifiers = []\<rparr>, fn_manifest_revision = 1, fn_allow_private = False\<rparr>"

lemma moving_refresh:
  assumes "i < w"
  shows "\<exists>d. refresh_peer_manifest moving_out (node_client moving_node) (toy_peer\<lparr>mf_revision := i\<rparr>) ''https://h/m'' None 300 w =
      (Inr d, w + 1) \<and> md_action d = RF_accept \<and> md_manifest d = Some (toy_peer\<lparr>mf_revision := w\<rparr>)"
proof -
  have "toy_peer\<lparr>mf_revision := w\<rparr> = toy_signed ((toy_manifest ''a'' ''https://h'')\<lparr>mf_revision := w\<rparr>)"
    by (simp add: toy_signed_def)
  then have "check_manifest toy_crypto 0 (toy_peer\<lparr>mf_revision := w\<rparr>) 300 = Inr (True, ''ok'')"
    using toy_verify [of "(toy_manifest ''a'' ''https://h'')\<lparr>mf_revision := w\<rparr>"]
    by (simp add: check_manifest_True_iff self_signed_def fresh_at_def td_ok_def usec_def day_usec_def
        toy_signed_def toy_manifest_def)
  then have "fetch_manifest moving_out (node_client moving_node) ''https://h/m'' 300 w = (Inr (toy_peer\<lparr>mf_revision := w\<rparr>), w + 1)"
    by (simp add: fetch_manifest_def io_bind_def io_lift_def raise_for_status_def moving_out_def
        node_client_def moving_node_def toy_public)
  with toy_same_keys assms show ?thesis
    by (simp add: refresh_peer_manifest_def check_key_continuity_def kc_def with_manifest_def)
qed

lemma overlapping_refreshes_roll_back_witness:
  "\<exists>d s1 s2. (run_step moving_out memory_ports moving_node)\<^sup>*\<^sup>* (toy_state ACTIVE [(''a'', toy_peer)], [])
      (s1, [RefreshTask ''a'' d]) \<and> cached s1 ''a'' = Some (toy_peer\<lparr>mf_revision := 6\<rparr>) \<and>
    run_step moving_out memory_ports moving_node (s1, [RefreshTask ''a'' d]) (s2, []) \<and>
    cached s2 ''a'' = Some (toy_peer\<lparr>mf_revision := 5\<rparr>)"
proof -
  let ?s = "toy_state ACTIVE [(''a'', toy_peer)]"
  have peer: "toy_peer\<lparr>mf_revision := 1\<rparr> = toy_peer"
    by (simp add: toy_signed_def toy_manifest_def)
  have known: "known memory_views ?s ''a'' = Some (toy_record ACTIVE)" "cached ?s ''a'' = Some toy_peer"
    by (simp_all add: toy_state_simps)
  obtain d d' where d: "refresh_peer_manifest moving_out (node_client moving_node) toy_peer
      (rec_manifest_url (toy_record ACTIVE)) None 300 5 = (Inr d, 6)" "md_action d = RF_accept"
      "md_manifest d = Some (toy_peer\<lparr>mf_revision := 5\<rparr>)"
    and d': "refresh_peer_manifest moving_out (node_client moving_node) toy_peer
      (rec_manifest_url (toy_record ACTIVE)) None 300 6 = (Inr d', 7)" "md_action d' = RF_accept"
      "md_manifest d' = Some (toy_peer\<lparr>mf_revision := 6\<rparr>)"
    using moving_refresh [of 1 5] moving_refresh [of 1 6] by (auto simp: peer)
  have "md_action d \<in> {RF_accept, RF_unchanged}" "md_action d' \<in> {RF_accept, RF_unchanged}"
    "mf_revision (toy_peer\<lparr>mf_revision := 5\<rparr>) < mf_revision (toy_peer\<lparr>mf_revision := 6\<rparr>)"
    using d(2) d'(2) by simp_all
  from overlapping_refreshes_roll_back [OF memory.node_ports_axioms memory_reliable(2) toy_state_kept(2) known
      d(1) this(1) d(3) d'(1) this(2) d'(3) this(3), where c = "()"]
  show ?thesis by blast
qed

end
