(* ===== verification/Json_Stores.thy ===== *)
theory Json_Stores
  imports Node_Race
begin

text \<open>
  Stores that serialize: a host may keep membership records and manifests as JSON
  (\<^verbatim>\<open>model_dump\<close> and \<^verbatim>\<open>model_validate\<close>, as \<^verbatim>\<open>membership.py\<close> and \<^verbatim>\<open>protocols/membership_store.py\<close> suggest).
  Locale \<open>serializer\<close> is a dump that reads back up to what it rounds; over it, a dictionary of
  dumps is a port in the sense of \<open>Ports\<close>, so everything shown of nodes holds over such stores.
  What rounding a record's times to the second does to disclosure is shown last.
\<close>

section \<open>Membership records as JSON\<close>

definition peer_state_text :: "peer_state \<Rightarrow> string" where
  "peer_state_text st = (case st of ACTIVE \<Rightarrow> ''active'' | COOLDOWN \<Rightarrow> ''cooldown''
     | STALE_MANIFEST \<Rightarrow> ''stale_manifest'' | REJECTED \<Rightarrow> ''rejected'' | REVOKED \<Rightarrow> ''revoked'')"

text \<open>\<^verbatim>\<open>_ser_ts\<close> and the other optional fields: \<^verbatim>\<open>model_dump(mode="json")\<close> writes \<open>None\<close> as null.\<close>

definition nullable :: "('a \<Rightarrow> json) \<Rightarrow> 'a option \<Rightarrow> json" where
  "nullable enc v = (case v of None \<Rightarrow> JNull | Some x \<Rightarrow> enc x)"

definition dump_member_record :: "member_record \<Rightarrow> obj" where
  "dump_member_record r =
     [(''node_id'', JStr (rec_node_id r)), (''manifest_url'', JStr (rec_manifest_url r)),
      (''org_id'', nullable JStr (rec_org_id r)),
      (''manifest_revision'', JInt (rec_manifest_revision r)),
      (''state'', JStr (peer_state_text (rec_state r))),
      (''accepted_until'', nullable json_time (rec_accepted_until r)),
      (''cooldown_until'', nullable json_time (rec_cooldown_until r)),
      (''failures'', JInt (rec_failures r)),
      (''last_refresh'', nullable json_time (rec_last_refresh r))]"

definition dec_peer_state :: "json \<Rightarrow> peer_state option" where
  "dec_peer_state j =
     List.find (\<lambda>st. j = JStr (peer_state_text st)) [ACTIVE, COOLDOWN, STALE_MANIFEST, REJECTED, REVOKED]"

definition dec_member_record :: "json \<Rightarrow> member_record option" where
  "dec_member_record j = do { d \<leftarrow> dec_obj j;
     node_id \<leftarrow> req dec_str ''node_id'' d;
     manifest_url \<leftarrow> req dec_str ''manifest_url'' d;
     org_id \<leftarrow> opt dec_str ''org_id'' d;
     manifest_revision \<leftarrow> dflt dec_int 0 ''manifest_revision'' d;
     state \<leftarrow> dflt dec_peer_state ACTIVE ''state'' d;
     accepted_until \<leftarrow> opt dec_time ''accepted_until'' d;
     cooldown_until \<leftarrow> opt dec_time ''cooldown_until'' d;
     failures \<leftarrow> dflt dec_int 0 ''failures'' d;
     last_refresh \<leftarrow> opt dec_time ''last_refresh'' d;
     Some \<lparr>rec_node_id = node_id, rec_manifest_url = manifest_url, rec_org_id = org_id,
       rec_manifest_revision = manifest_revision, rec_state = state,
       rec_accepted_until = accepted_until, rec_cooldown_until = cooldown_until,
       rec_failures = failures, rec_last_refresh = last_refresh\<rparr> }"

definition member_ok :: "member_record \<Rightarrow> bool" where
  "member_ok r \<longleftrightarrow> times_ok (rec_accepted_until r) \<and> times_ok (rec_cooldown_until r) \<and> times_ok (rec_last_refresh r)"

definition member_norm :: "member_record \<Rightarrow> member_record" where
  "member_norm r = r\<lparr>rec_accepted_until := map_option trunc_sec (rec_accepted_until r),
     rec_cooldown_until := map_option trunc_sec (rec_cooldown_until r),
     rec_last_refresh := map_option trunc_sec (rec_last_refresh r)\<rparr>"

lemma member_norm_simps [simp]:
  "rec_node_id (member_norm r) = rec_node_id r" "rec_state (member_norm r) = rec_state r"
  "rec_manifest_url (member_norm r) = rec_manifest_url r" "rec_org_id (member_norm r) = rec_org_id r"
  "rec_manifest_revision (member_norm r) = rec_manifest_revision r"
  by (simp_all add: member_norm_def)

lemma member_norm_idem [simp]: "member_norm (member_norm r) = member_norm r"
  by (simp add: member_norm_def option.map_comp comp_def)

lemma dec_peer_state_text [simp]: "dec_peer_state (JStr (peer_state_text st)) = Some st"
  by (cases st) (simp_all add: dec_peer_state_def peer_state_text_def)

lemma nullable_time:
  "times_ok v \<Longrightarrow> map_of d k = Some (nullable json_time v) \<Longrightarrow> opt dec_time k d = Some (map_option trunc_sec v)"
  by (cases v) (simp_all add: opt_def nullable_def times_ok_def parse_iso_instant)

lemma nullable_text: "map_of d k = Some (nullable JStr v) \<Longrightarrow> opt dec_str k d = Some v"
  by (cases v) (simp_all add: opt_def nullable_def)

lemma dec_dump_member_record:
  assumes "member_ok r"
  shows "dec_member_record (JObj (dump_member_record r)) = Some (member_norm r)"
proof -
  let ?d = "dump_member_record r"
  have times: "opt dec_time ''accepted_until'' ?d = Some (map_option trunc_sec (rec_accepted_until r))"
    "opt dec_time ''cooldown_until'' ?d = Some (map_option trunc_sec (rec_cooldown_until r))"
    "opt dec_time ''last_refresh'' ?d = Some (map_option trunc_sec (rec_last_refresh r))"
    using assms unfolding member_ok_def by (intro nullable_time; simp add: dump_member_record_def)+
  have "opt dec_str ''org_id'' ?d = Some (rec_org_id r)"
    by (intro nullable_text) (simp add: dump_member_record_def)
  moreover have "req dec_str ''node_id'' ?d = Some (rec_node_id r)" "req dec_str ''manifest_url'' ?d = Some (rec_manifest_url r)"
    "dflt dec_int 0 ''manifest_revision'' ?d = Some (rec_manifest_revision r)"
    "dflt dec_peer_state ACTIVE ''state'' ?d = Some (rec_state r)" "dflt dec_int 0 ''failures'' ?d = Some (rec_failures r)"
    by (simp_all add: dump_member_record_def field_simps_json)
  ultimately show ?thesis
    by (simp add: dec_member_record_def times member_norm_def)
qed

section \<open>A dictionary of dumps\<close>

text \<open>What cannot be dumped (a time no \<^verbatim>\<open>datetime\<close> has) or read back raises.\<close>

definition dump_put ::
    "('r \<Rightarrow> obj) \<Rightarrow> ('r \<Rightarrow> bool) \<Rightarrow> ('r \<Rightarrow> string) \<Rightarrow> 'r \<Rightarrow> ((string, obj) dict, unit) io" where
  "dump_put dump ok key r d =
     (if ok r then (Inr (), dict_set (key r) (dump r) d) else (Inl (ValidationError ''dump''), d))"

definition dump_remove :: "string \<Rightarrow> ((string, obj) dict, unit) io" where
  "dump_remove k d = (Inr (), dict_pop k d)"

definition dump_get :: "(json \<Rightarrow> 'r option) \<Rightarrow> string \<Rightarrow> ((string, obj) dict, 'r option) io" where
  "dump_get load k d =
     (case dict_get d k of
        None \<Rightarrow> (Inr None, d)
      | Some x \<Rightarrow> (case load (JObj x) of None \<Rightarrow> (Inl (ValidationError ''load''), d) | Some r \<Rightarrow> (Inr (Some r), d)))"

definition dump_values :: "(json \<Rightarrow> 'r option) \<Rightarrow> ((string, obj) dict, 'r list) io" where
  "dump_values load d =
     (case dec_all (load \<circ> JObj) (dict_values d) of
        None \<Rightarrow> (Inl (ValidationError ''load''), d) | Some rs \<Rightarrow> (Inr rs, d))"

definition dump_view :: "(json \<Rightarrow> 'r option) \<Rightarrow> (string, obj) dict \<Rightarrow> string \<Rightarrow> 'r option" where
  "dump_view load d k = Option.bind (dict_get d k) (load \<circ> JObj)"

definition dumps_of :: "('r \<Rightarrow> obj) \<Rightarrow> ('r \<Rightarrow> bool) \<Rightarrow> ('r \<Rightarrow> string) \<Rightarrow> (string, obj) dict \<Rightarrow> bool" where
  "dumps_of dump ok key d \<longleftrightarrow> dict_wf d \<and> (\<forall>(k, x) \<in> set d. \<exists>r. ok r \<and> key r = k \<and> x = dump r)"

lemma dec_all_set: "dec_all f xs = Some ys \<Longrightarrow> set ys = {y. \<exists>x \<in> set xs. f x = Some y}"
  by (induction xs arbitrary: ys) (auto split: bind_splits)

text \<open>A dump that reads back up to \<open>norm\<close>, which a second trip leaves alone.\<close>

locale serializer =
  fixes dump :: "'r \<Rightarrow> obj" and load :: "json \<Rightarrow> 'r option" and norm :: "'r \<Rightarrow> 'r"
    and ok :: "'r \<Rightarrow> bool" and key :: "'r \<Rightarrow> string"
  assumes load_dump: "ok r \<Longrightarrow> load (JObj (dump r)) = Some (norm r)"
    and norm_norm: "norm (norm r) = norm r"
    and key_norm: "key (norm r) = key r"
begin

lemma view_found:
  assumes "dumps_of dump ok key d" "dump_view load d k = Some r"
  obtains r0 where "ok r0" "key r0 = k" "dict_get d k = Some (dump r0)" "r = norm r0"
proof -
  obtain x where x: "dict_get d k = Some x" "load (JObj x) = Some r"
    using assms(2) by (auto simp: dump_view_def bind_eq_Some_conv)
  moreover obtain r0 where "ok r0" "key r0 = k" "x = dump r0"
    using assms(1) map_of_SomeD [OF x(1)] by (auto simp: dumps_of_def)
  ultimately show ?thesis
    using that [of r0] load_dump by simp
qed

lemma put_view:
  assumes "dumps_of dump ok key d" "ok r"
  shows "dumps_of dump ok key (dict_set (key r) (dump r) d)"
    "dump_view load (dict_set (key r) (dump r) d) = (dump_view load d)(key r \<mapsto> norm r)"
  using assms load_dump [OF assms(2)]
  by (auto simp: dumps_of_def set_dict_set dump_view_def fun_eq_iff)

lemma remove_view:
  assumes "dumps_of dump ok key d"
  shows "dumps_of dump ok key (dict_pop k d)" "dump_view load (dict_pop k d) = (dump_view load d)(k := None)"
proof -
  have "set (dict_pop k d) \<subseteq> set d"
    by (auto simp: AList.delete_eq)
  then show "dumps_of dump ok key (dict_pop k d)"
    using assms by (auto simp: dumps_of_def)
  show "dump_view load (dict_pop k d) = (dump_view load d)(k := None)"
    by (simp add: dump_view_def fun_eq_iff)
qed

lemma values_view:
  assumes "dumps_of dump ok key d" "dec_all (load \<circ> JObj) (dict_values d) = Some rs"
  shows "set rs = ran (dump_view load d)"
proof -
  have wf: "dict_wf d" using assms(1) by (simp add: dumps_of_def)
  show ?thesis
    using dec_all_set [OF assms(2)] set_dict_values [OF wf]
    by (auto simp: ran_def dump_view_def bind_eq_Some_conv simp del: set_map)
qed

end

sublocale serializer \<subseteq> port: member_port "dump_put dump ok key" dump_remove "dump_values load" key norm
    "dump_view load" "dumps_of dump ok key" "dump_get load"
proof
  fix d r q d' k
  assume d: "dumps_of dump ok key d"
  show "dumps_of dump ok key d' \<and> (dump_view load d' = (dump_view load d)(key r \<mapsto> norm r) \<or>
      isl q \<and> dump_view load d' = dump_view load d)" if "dump_put dump ok key r d = (q, d')"
    using that d put_view [OF d, of r] by (auto simp: dump_put_def split: if_splits)
  show "dumps_of dump ok key d' \<and> (dump_view load d' = (dump_view load d)(k := None) \<or>
      isl q \<and> dump_view load d' = dump_view load d)" if "dump_remove k d = (q, d')"
    using that remove_view [OF d] by (auto simp: dump_remove_def)
  show "key r = k" "norm r = r" if "dump_view load d k = Some r"
    using view_found [OF d that] by (metis key_norm, metis norm_norm)
  show "dumps_of dump ok key d' \<and> dump_view load d' = dump_view load d \<and>
      (\<forall>rs. v = Inr rs \<longrightarrow> set rs = ran (dump_view load d))" if "dump_values load d = (v, d')" for v
    using that d values_view [OF d] by (auto simp: dump_values_def split: option.splits)
  show "dumps_of dump ok key d' \<and> dump_view load d' = dump_view load d \<and>
      (\<forall>x. g = Inr x \<longrightarrow> x = dump_view load d k)" if "dump_get load k d = (g, d')" for g
    using that d by (auto simp: dump_get_def dump_view_def split: option.splits)
qed

interpretation member_json: serializer dump_member_record dec_member_record member_norm member_ok rec_node_id
  by unfold_locales (simp_all add: dec_dump_member_record)

lemma evidence_norm_idem [simp]: "evidence_norm (evidence_norm e) = evidence_norm e"
  by (cases e) simp_all

lemma manifest_norm_idem: "manifest_norm (manifest_norm m) = manifest_norm m"
  by (simp add: manifest_norm_def option.map_comp comp_def)

lemma manifest_norm_content: "same_content m (manifest_norm m)"
  by (simp add: same_content_def manifest_norm_dump) (simp add: manifest_norm_def)

interpretation manifest_json: serializer dump_manifest dec_manifest manifest_norm manifest_ok mf_node_id
  by unfold_locales (simp_all add: dec_dump_manifest manifest_norm_idem, simp add: manifest_norm_def)

text \<open>A node whose two stores keep JSON.\<close>

definition json_ports :: "((string, obj) dict, (string, obj) dict) ports" where
  "json_ports = \<lparr>po_members = \<lparr>tb_get = dump_get dec_member_record,
       tb_upsert = dump_put dump_member_record member_ok rec_node_id,
       tb_values = dump_values dec_member_record, tb_delete = dump_remove\<rparr>,
     po_manifests = \<lparr>ms_upsert = dump_put dump_manifest manifest_ok mf_node_id,
       ms_delete = dump_remove, ms_values = dump_values dec_manifest\<rparr>\<rparr>"

definition json_views :: "((string, obj) dict, (string, obj) dict) node_views" where
  "json_views = \<lparr>nv_members = dump_view dec_member_record, nv_keep_member = member_norm,
     nv_members_ok = dumps_of dump_member_record member_ok rec_node_id,
     nv_manifests = dump_view dec_manifest, nv_keep_manifest = manifest_norm,
     nv_manifests_ok = dumps_of dump_manifest manifest_ok mf_node_id\<rparr>"

interpretation json: node_ports json_ports json_views
  using member_json.port.member_port_axioms manifest_json.port.store_port_axioms
  by (simp add: node_ports_def node_ports_axioms_def membership_port_def membership_port_axioms_def
      json_ports_def json_views_def manifest_norm_content)

section \<open>Properties\<close>

text \<open>
  A membership record survives JSON up to whole seconds: its identity, state and counters are kept,
  and whether it is eligible changes only within the second in which its acceptance or its
  cooldown ends.
\<close>

theorem member_record_reloads:
  assumes "member_ok r"
  shows "\<exists>r'. dec_member_record (JObj (dump_member_record r)) = Some r' \<and> rec_node_id r' = rec_node_id r \<and>
    rec_state r' = rec_state r \<and> rec_failures r' = rec_failures r \<and>
    rec_manifest_revision r' = rec_manifest_revision r \<and>
    (is_eligible now r' = is_eligible now r \<or>
     (\<exists>t. (rec_accepted_until r = Some t \<or> rec_cooldown_until r = Some t) \<and> trunc_sec t \<le> now \<and> now < t))"
proof -
  have "is_eligible now (member_norm r) = is_eligible now r"
    if out: "\<And>t. rec_accepted_until r = Some t \<or> rec_cooldown_until r = Some t \<Longrightarrow> \<not> (trunc_sec t \<le> now \<and> now < t)"
  proof -
    have "trunc_sec t \<le> now \<longleftrightarrow> t \<le> now" if "rec_accepted_until r = Some t \<or> rec_cooldown_until r = Some t" for t
      using out [OF that] trunc_sec_le(1) [of t] by linarith
    then show ?thesis
      by (cases "rec_accepted_until r"; cases "rec_cooldown_until r")
        (simp_all add: is_eligible_def member_norm_def flip: not_le)
  qed
  then show ?thesis
    using dec_dump_member_record [OF assms] by (intro exI [of _ "member_norm r"]) (auto simp: member_norm_def)
qed

lemma member_record_reloads_witness:
  "\<exists>r'. dec_member_record (JObj (dump_member_record (new_record ''a'' None ''u'' 1))) = Some r' \<and> rec_state r' = ACTIVE"
  using member_record_reloads [of "new_record ''a'' None ''u'' 1" 0]
  by (auto simp: member_ok_def times_ok_def new_record_def)

text \<open>
  C39: Keeping members as JSON hides changes from incremental disclosure: a member that changed
  after a cursor was taken, in the same second, is disclosed to a requester that comes back with
  the cursor, but not once its record has been written as JSON and read back, since the record's
  time is then that of the cursor and only later ones are disclosed.
\<close>

theorem reload_hides_changes:
  fixes c :: datetime
  defines "cursor \<equiv> Some (SinceText (iso_instant c))"
  assumes "rec_last_refresh r = Some t" "c < t" "trunc_sec c = trunc_sec t" "member_ok r"
    and "parse_since_cursor fromiso (SinceText (iso_instant c)) = Inr (trunc_sec c)"
    and "is_eligible now r" "is_eligible now (member_norm r)" "rec_node_id r \<notin> dp_denied policy"
  shows "(\<exists>ref. disclose_members fromiso now [r] requester policy cursor = Inr [ref] \<and> rf_node_id ref = rec_node_id r) \<and>
    (\<exists>r'. dec_member_record (JObj (dump_member_record r)) = Some r' \<and>
       disclose_members fromiso now [r'] requester policy cursor = Inr [])"
proof -
  have "disclosed_after (trunc_sec c) r" "\<not> disclosed_after (trunc_sec c) (member_norm r)"
    using assms(2-4) trunc_sec_le(1) [of c] by (simp_all add: disclosed_after_def member_norm_def)
  then show ?thesis
    using assms(6-9) dec_dump_member_record [OF assms(5)]
    by (simp add: disclose_members_def cursor_def member_ref_of_def)
qed

lemma reload_hides_changes_witness:
  "\<exists>r'. dec_member_record (JObj (dump_member_record (touch 700000 (new_record ''a'' None ''u'' 1)))) = Some r' \<and>
    disclose_members (\<lambda>_. Some (Aware 0)) (5 * usec) [r'] ''q''
      \<lparr>dp_default = ''federation'', dp_denied = {}, dp_requester_disclosure = []\<rparr>
      (Some (SinceText (iso_instant 300000))) = Inr []"
  using reload_hides_changes [of "touch 700000 (new_record ''a'' None ''u'' 1)" 700000 300000 "\<lambda>_. Some (Aware 0)"
      "5 * usec" "\<lparr>dp_default = ''federation'', dp_denied = {}, dp_requester_disclosure = []\<rparr>" "''q''"]
  by (simp add: touch_def new_record_def member_ok_def times_ok_def dt_ok_def day_usec_def trunc_sec_def usec_def
      parse_since_cursor_def is_eligible_def member_norm_def)

end
