(* ===== verification/Traffic.thy ===== *)
theory Traffic
  imports Toy_Outside
begin

text \<open>
  Which URLs the package requests. Locale \<open>request_log\<close> is a world that shows the URLs requested
  so far; every world becomes one when its requests are recorded (\<open>logged\<close>). Inside it, each call
  is shown to stay within a set of URLs (\<open>stays\<close>): manifests are fetched only from URLs the SSRF guard of
  \<^verbatim>\<open>net.py\<close> has let through, everything else goes to URLs that manifests advertise.
\<close>

section \<open>Worlds that show their requests\<close>

locale request_log =
  fixes E :: "'w outside" and reached :: "'w \<Rightarrow> string set"
  assumes request: "out_request E verb url body params hs w = (r, w') \<Longrightarrow> reached w' \<subseteq> insert url (reached w)"
    and resolve: "out_getaddrinfo E host w = (a, w') \<Longrightarrow> reached w' = reached w"
    and uuid_text: "out_uuid_text E w = (t, w') \<Longrightarrow> reached w' = reached w"
    and uuid_bytes: "out_uuid_bytes E w = (b, w') \<Longrightarrow> reached w' = reached w"

definition logged :: "'w outside \<Rightarrow> ('w \<times> string set) outside" where
  "logged E = \<lparr>out_crypto = out_crypto E, out_now = (\<lambda>(w, l). out_now E w),
     out_uuid_text = (\<lambda>(w, l). case out_uuid_text E w of (t, w') \<Rightarrow> (t, w', l)),
     out_uuid_bytes = (\<lambda>(w, l). case out_uuid_bytes E w of (b, w') \<Rightarrow> (b, w', l)),
     out_getaddrinfo = (\<lambda>host (w, l). case out_getaddrinfo E host w of (a, w') \<Rightarrow> (a, w', l)),
     out_request = (\<lambda>verb url body params hs (w, l).
       case out_request E verb url body params hs w of (r, w') \<Rightarrow> (r, w', insert url l)),
     out_json_text = out_json_text E,
     val_manifest = val_manifest E, val_signed_request = val_signed_request E,
     val_introduce_response = val_introduce_response E, val_members_response = val_members_response E,
     val_revocations_response = val_revocations_response E,
     val_operation_response = val_operation_response E, val_protocol_response = val_protocol_response E,
     val_health_response = val_health_response E\<rparr>"

interpretation logged: request_log "logged E" snd
  by unfold_locales (auto simp: logged_def split: prod.splits)

section \<open>Calls that stay within a set of URLs\<close>

definition stays :: "('w \<Rightarrow> string set) \<Rightarrow> string set \<Rightarrow> ('w, 'a) io \<Rightarrow> bool" where
  "stays reached R m \<longleftrightarrow> (\<forall>w q w'. m w = (q, w') \<longrightarrow> reached w' \<subseteq> reached w \<union> R)"

lemma staysD: "stays reached R m \<Longrightarrow> m w = (q, w') \<Longrightarrow> reached w' \<subseteq> reached w \<union> R"
  by (simp add: stays_def)

lemma stays_mono: "stays reached R m \<Longrightarrow> R \<subseteq> S \<Longrightarrow> stays reached S m"
  unfolding stays_def by blast

lemma stays_lift [simp]: "stays reached R (io_lift r)"
  by (simp add: stays_def)

lemma stays_bind:
  assumes "stays reached R m" "\<And>x. stays reached R (f x)"
  shows "stays reached R (io_bind m f)"
  unfolding stays_def
proof (intro allI impI)
  fix w q w'
  assume "io_bind m f w = (q, w')"
  then show "reached w' \<subseteq> reached w \<union> R"
    using staysD [OF assms(1)] staysD [OF assms(2)] by (cases rule: io_bind_cases) blast+
qed

text \<open>The host's verifiers make no requests of their own.\<close>

definition silent_policy :: "('w \<Rightarrow> string set) \<Rightarrow> 'w admission_policy \<Rightarrow> bool" where
  "silent_policy reached policy \<longleftrightarrow>
     (\<forall>verify. verify \<in> ran (dict_get (ap_auth_method_verifiers policy)) \<union> set_option (ap_evidence_verifier policy) \<longrightarrow>
        (\<forall>m. stays reached {} (verify m)))"

definition guard_passes :: "'w outside \<Rightarrow> federation_client \<Rightarrow> string \<Rightarrow> bool" where
  "guard_passes E c url \<longleftrightarrow>
     (\<exists>w w'. assert_public_host (out_getaddrinfo E) url (fc_allow_private c) w = (Inr (), w'))"

context request_log
begin

lemma guard_stays: "stays reached {} (assert_public_host (out_getaddrinfo E) url allow)"
  using resolve by (auto simp: stays_def assert_public_host_def Let_def split: sum.splits prod.splits if_splits)

lemma request_stays: "stays reached {url} (out_request E verb url body params hs)"
  using request by (fastforce simp: stays_def)

lemma envelope_stays: "stays reached {} (signed_envelope E c target verb path body)"
  using uuid_text uuid_bytes by (fastforce simp: stays_def signed_envelope_def split: prod.splits)

lemma headers_stays: "stays reached {} (signed_headers E c target verb path body)"
  unfolding signed_headers_def by (rule stays_bind [OF envelope_stays stays_lift])

lemma send_stays: "stays reached {url} (client_send E c target verb url body params)"
  unfolding client_send_def
  by (intro stays_bind stays_lift request_stays stays_mono [OF headers_stays]) simp

text \<open>A manifest is requested only when the guard lets its URL through.\<close>

lemma fetch_stays:
  "stays reached (if guard_passes E c url then {url} else {}) (fetch_manifest E c url skew)"
proof (cases "guard_passes E c url")
  case True
  have checked: "stays reached {url} (\<lambda>w. case check_manifest (out_crypto E) (out_now E w) m skew of
        Inl e \<Rightarrow> (Inl e, w)
      | Inr (ok, reason) \<Rightarrow>
          if \<not> ok then (Inl (ManifestVerificationError reason), w) else (Inr m, w))" for m
    by (auto simp: stays_def split: sum.splits prod.splits if_splits)
  have "stays reached {url} (fetch_manifest E c url skew)"
    unfolding fetch_manifest_def
    by (intro stays_bind stays_lift checked request_stays stays_mono [OF guard_stays]) simp
  with True show ?thesis by simp
next
  case False
  show ?thesis
    unfolding stays_def
  proof (intro allI impI)
    fix w q w'
    assume "fetch_manifest E c url skew w = (q, w')"
    then obtain e where "assert_public_host (out_getaddrinfo E) url (fc_allow_private c) w = (Inl e, w')"
      unfolding fetch_manifest_def using False by (cases rule: io_bind_cases) (auto simp: guard_passes_def)
    from staysD [OF guard_stays this] False show "reached w' \<subseteq> reached w \<union> (if guard_passes E c url then {url} else {})"
      by simp
  qed
qed

lemma get_members_stays: "stays reached {mb_members_url (mf_membership peer)} (get_members E c peer since)"
  unfolding get_members_def by (intro stays_bind send_stays stays_lift)

lemma introduce_stays:
  "stays reached {mb_introduce_url (mf_membership peer)} (client_introduce E c peer intro)"
  unfolding client_introduce_def by (intro stays_bind send_stays stays_lift)

lemma introduce_to_seed_stays:
  "stays reached {mb_introduce_url (mf_membership m)} (introduce_to_seed E c lu lm dl m)"
  using uuid_bytes staysD [OF introduce_stays]
  by (fastforce simp: stays_def introduce_to_seed_def split: prod.splits)

lemma auth_methods_stays:
  "\<forall>verify \<in> ran (dict_get verifiers). \<forall>m. stays reached {} (verify m) \<Longrightarrow>
   stays reached {} (check_auth_methods verifiers m as)"
proof (induction as)
  case (Cons a as)
  show ?case
    unfolding stays_def
  proof (intro allI impI)
    fix w q w'
    assume run: "check_auth_methods verifiers m (a # as) w = (q, w')"
    note rest = staysD [OF Cons.IH [OF Cons.prems]]
    show "reached w' \<subseteq> reached w \<union> {}"
    proof (cases "dict_get verifiers a")
      case None
      with run rest show ?thesis by simp
    next
      case (Some verify)
      then have "stays reached {} (verify m)"
        using Cons.prems by (auto simp: ran_def)
      note verified = staysD [OF this]
      from Some run show ?thesis
        using verified rest by (fastforce split: prod.splits sum.splits if_splits)
    qed
  qed
qed (simp add: stays_def)

lemma admit_stays:
  assumes "silent_policy reached policy"
  shows "stays reached {} (admit_manifest L now m policy skew)"
  unfolding stays_def
proof (intro allI impI)
  fix w q w'
  assume run: "admit_manifest L now m policy skew w = (q, w')"
  let ?check = "check_auth_methods (ap_auth_method_verifiers policy) m (mf_auth_methods m)"
  have verifiers: "\<forall>verify \<in> ran (dict_get (ap_auth_method_verifiers policy)). \<forall>m. stays reached {} (verify m)"
    "ap_evidence_verifier policy = Some verify \<Longrightarrow> stays reached {} (verify m)" for verify m
    using assms by (auto simp: silent_policy_def)
  consider "w' = w" | r w1 where "?check w = (r, w1)" "w' = w1"
    | r w1 verify a where "?check w = (r, w1)" "ap_evidence_verifier policy = Some verify" "verify m w1 = (a, w')"
    using run by (auto simp: admit_manifest_def split: sum.splits prod.splits option.splits if_splits)
  then show "reached w' \<subseteq> reached w \<union> {}"
  proof cases
    case 2
    with staysD [OF auth_methods_stays [OF verifiers(1)]] show ?thesis by blast
  next
    case 3
    with staysD [OF auth_methods_stays [OF verifiers(1)] 3(1)] staysD [OF verifiers(2) [OF 3(2)] 3(3)]
    show ?thesis by blast
  qed simp
qed

section \<open>Discovery and bootstrap\<close>

definition guarded :: "federation_client \<Rightarrow> string set" where
  "guarded c = {url. guard_passes E c url}"

lemma fetch_guarded: "fetch_manifest E c url skew w = (q, w') \<Longrightarrow> reached w' \<subseteq> reached w \<union> guarded c"
  using staysD [OF fetch_stays, of c url skew w q w'] by (auto simp: guarded_def split: if_splits)

lemma process_ref_requests:
  assumes "silent_policy reached policy" "process_ref T E c policy skew source ref s w = (q, s', w')"
  shows "reached w' \<subseteq> reached w \<union> guarded c"
proof -
  obtain r w1 where f: "fetch_manifest E c (rf_manifest_url ref) skew w = (r, w1)" by fastforce
  have "w' = w1 \<or> (\<exists>m a. admit_manifest (out_crypto E) (out_now E w1) m policy skew w1 = (a, w'))"
    using assms(2) f by (auto simp: process_ref_def split: sum.splits prod.splits if_splits)
  then show ?thesis
    using fetch_guarded [OF f] staysD [OF admit_stays [OF assms(1)]] by blast
qed

lemma process_members_requests:
  assumes "silent_policy reached policy"
  shows "process_members T E c policy skew cap source i refs s w = (q, s', w') \<Longrightarrow>
    reached w' \<subseteq> reached w \<union> guarded c"
proof (induction refs arbitrary: i s w)
  case (Cons ref refs)
  from Cons.prems show ?case
  proof (cases rule: process_members_cases)
    case (skipped reason s1)
    from skipped(2) show ?thesis by (rule Cons.IH)
  next
    case (stopped e t)
    from stopped(3) show ?thesis by (rule process_ref_requests [OF assms])
  next
    case (went u t s1 w1)
    with process_ref_requests [OF assms went(2)] Cons.IH [OF went(3)] show ?thesis by blast
  qed simp
qed simp

lemma visit_peers_requests:
  assumes "silent_policy reached policy"
  shows "visit_peers T E c peers policy skew cap since rs s w = (q, s', w') \<Longrightarrow>
    reached w' \<subseteq> reached w \<union> (guarded c \<union> {mb_members_url (mf_membership p) | p. p \<in> ran (dict_get peers)})"
proof (induction rs arbitrary: s w)
  case (Cons r rs)
  let ?R = "guarded c \<union> {mb_members_url (mf_membership p) | p. p \<in> ran (dict_get peers)}"
  show ?case
  proof (cases "dict_get peers (rec_node_id r)")
    case None
    with Cons show ?thesis by simp
  next
    case (Some peer)
    obtain a w1 where a: "get_members E c peer since w = (a, w1)" by fastforce
    have "peer \<in> ran (dict_get peers)" using Some by (auto simp: ran_def)
    then have w1: "reached w1 \<subseteq> reached w \<union> ?R"
      using staysD [OF get_members_stays a] by blast
    show ?thesis
    proof (cases a)
      case (Inl e)
      with Cons.prems Some a have "reached w' \<subseteq> reached w1 \<union> ?R"
        by (intro Cons.IH) simp
      with w1 show ?thesis by blast
    next
      case (Inr members)
      obtain b s1 w2 where b: "process_members T E c policy skew cap (mf_node_id peer) 0 (mr_members members) s w1 =
          (b, s1, w2)"
        by (metis prod_cases3)
      have "reached w' \<subseteq> reached w2 \<union> ?R"
      proof (cases b)
        case Inl
        with Cons.prems Some a Inr b show ?thesis by simp
      next
        case Inr
        with Cons.prems Some a \<open>a = _\<close> b show ?thesis by (intro Cons.IH) simp
      qed
      with w1 process_members_requests [OF assms b] show ?thesis by blast
    qed
  qed
qed simp

lemma bootstrap_seed_requests:
  assumes "silent_policy reached policy" "bootstrap_seed E c lu lm policy dl skew url w = (q, w')" "u \<in> reached w'"
  shows "u \<in> reached w \<or> u = url \<and> guard_passes E c url \<or>
    (\<exists>m now. u = mb_introduce_url (mf_membership m) \<and> check_manifest (out_crypto E) now m skew = Inr (True, ''ok'') \<and>
       policy_allows policy m)"
proof -
  obtain r w1 where f: "fetch_manifest E c url skew w = (r, w1)" by fastforce
  consider "w' = w1" | m a where "admit_manifest (out_crypto E) (out_now E w1) m policy skew w1 = (a, w')"
    | m d w2 b where "admit_manifest (out_crypto E) (out_now E w1) m policy skew w1 = (Inr d, w2)" "ad_accepted d"
      "introduce_to_seed E c lu lm dl m w2 = (b, w')"
    using assms(2) f by (auto simp: bootstrap_seed_def split: sum.splits prod.splits if_splits)
  then show ?thesis
  proof cases
    case 1
    then show ?thesis
      using staysD [OF fetch_stays f] assms(3) by (auto split: if_splits)
  next
    case 2
    then show ?thesis
      using staysD [OF fetch_stays f] staysD [OF admit_stays [OF assms(1)] 2] assms(3) by (auto split: if_splits)
  next
    case 3
    have "u \<in> reached w1 \<or> u = mb_introduce_url (mf_membership m)"
      using staysD [OF admit_stays [OF assms(1)] 3(1)] staysD [OF introduce_to_seed_stays 3(3)] assms(3) by blast
    then show ?thesis
      using staysD [OF fetch_stays f] admit_manifest_verified [OF 3(1,2)] by (auto split: if_splits)
  qed
qed

lemma bootstrap_seeds_requests:
  assumes "silent_policy reached policy"
  shows "bootstrap_seeds E c lu lm policy dl skew urls rep w = (q, w') \<Longrightarrow> u \<in> reached w' \<Longrightarrow>
    u \<in> reached w \<or> u \<in> set urls \<and> guard_passes E c u \<or>
    (\<exists>m now. u = mb_introduce_url (mf_membership m) \<and> check_manifest (out_crypto E) now m skew = Inr (True, ''ok'') \<and>
       policy_allows policy m)"
proof (induction urls arbitrary: rep w)
  case (Cons url urls)
  obtain a w1 where a: "bootstrap_seed E c lu lm policy dl skew url w = (a, w1)" by fastforce
  have "w' = w1 \<or> (\<exists>rep'. bootstrap_seeds E c lu lm policy dl skew urls rep' w1 = (q, w'))"
    using Cons.prems(1) a by (auto split: sum.splits)
  then show ?case
    using Cons.IH Cons.prems(2) bootstrap_seed_requests [OF assms a] by auto
qed simp

end

section \<open>Properties\<close>

text \<open>Recording the requests of a call changes nothing else.\<close>

lemma logged_send:
  assumes "client_send E c target verb url body params w = (Inr r, w')"
  shows "client_send (logged E) c target verb url body params (w, l) = (Inr r, w', insert url l)"
proof -
  let ?hs = "\<lambda>env. [(SIGNATURE_HEADER, out_json_text E (JObj (dump_signed_request env)))]"
  from assms obtain u env w1 where u: "urlparse url = Inr u"
    and env: "signed_envelope E c target verb (us_path u) body w = (Inr env, w1)"
    and out: "out_request E verb url (if body = [] then None else Some body) params (?hs env) w1 = (Inr r, w')"
    and ok: "raise_for_status r = Inr ()"
    by (auto simp: client_send_def signed_headers_def io_simps)
  have "signed_envelope (logged E) c target verb (us_path u) body (w, l) = (Inr env, w1, l)"
    using env by (auto simp: signed_envelope_def logged_def split: prod.splits)
  moreover have "out_request (logged E) verb url (if body = [] then None else Some body) params (?hs env) (w1, l) =
      (Inr r, w', insert url l)"
    using out by (simp add: logged_def)
  moreover have "out_json_text (logged E) = out_json_text E"
    by (simp add: logged_def)
  ultimately show ?thesis
    by (simp add: client_send_def signed_headers_def io_bind_def u ok)
qed

lemma logged_members:
  "get_members E c peer since w = (Inr ms, w') \<Longrightarrow>
   get_members (logged E) c peer since (w, l) = (Inr ms, w', insert (mb_members_url (mf_membership peer)) l)"
proof -
  assume "get_members E c peer since w = (Inr ms, w')"
  then obtain r where send: "client_send E c (mf_node_id peer) ''GET'' (mb_members_url (mf_membership peer)) []
      (since_params since) w = (Inr r, w')"
    and ms: "verified_response E peer dump_members_response mr_signature (val_members_response E) r = Inr ms"
    by (auto simp: get_members_def io_simps)
  have "verified_response (logged E) peer dump_members_response mr_signature (val_members_response (logged E)) r = Inr ms"
    using ms by (simp add: verified_response_def logged_def)
  then show ?thesis
    by (simp add: get_members_def io_bind_def logged_send [OF send])
qed

lemma logged_fetch:
  "fetch_manifest E c url skew w = (Inr m, w') \<Longrightarrow>
   fetch_manifest (logged E) c url skew (w, l) = (Inr m, w', insert url l)"
proof -
  assume "fetch_manifest E c url skew w = (Inr m, w')"
  then obtain w1 r w2 reason where guard: "assert_public_host (out_getaddrinfo E) url (fc_allow_private c) w = (Inr (), w1)"
    and out: "out_request E ''GET'' url None [] [] w1 = (Inr r, w')" and ok: "raise_for_status r = Inr ()"
    and m: "rbind (ht_json r) (val_manifest E) = Inr m"
      "check_manifest (out_crypto E) (out_now E w') m skew = Inr (True, reason)"
    by (auto simp: fetch_manifest_def io_simps checked_manifest_Inr)
  have "assert_public_host (out_getaddrinfo (logged E)) url (fc_allow_private c) (w, l) = (Inr (), w1, l)"
    using guard
    by (cases "urlparse url")
      (auto simp: assert_public_host_def Let_def logged_def split: prod.splits sum.splits if_splits)
  moreover have "out_request (logged E) ''GET'' url None [] [] (w1, l) = (Inr r, w', insert url l)"
    using out by (simp add: logged_def)
  moreover have "val_manifest (logged E) = val_manifest E" "out_crypto (logged E) = out_crypto E"
    "out_now (logged E) (w', insert url l) = out_now E w'"
    by (simp_all add: logged_def)
  ultimately show ?thesis
    by (simp add: fetch_manifest_def io_bind_def ok m)
qed

definition closed_policy :: "'w admission_policy" where
  "closed_policy = \<lparr>ap_federation_id = ''other'', ap_protocol_versions = [''v1''],
     ap_require_expires_at = False, ap_require_signed_http = True, ap_require_https = True,
     ap_allow_private_hosts = False, ap_allowed_endpoint_domains = [], ap_evidence_verifier = None,
     ap_auth_method_verifiers = []\<rparr>"

lemma closed_silent: "silent_policy reached closed_policy"
  by (simp add: silent_policy_def closed_policy_def)

text \<open>
  C15: Discovery requests only guarded or advertised URLs: every URL it requests is one that the SSRF
  guard has let through, or the members URL of a peer whose manifest the node holds.
\<close>

theorem discovery_requests:
  assumes "request_log E reached" "silent_policy reached policy"
    and "refresh_discovered_members T E c table peers policy skew cap since w = (r, t, w')"
    and "u \<in> reached w'" "u \<notin> reached w"
  shows "(\<exists>w1 w2. assert_public_host (out_getaddrinfo E) u (fc_allow_private c) w1 = (Inr (), w2)) \<or>
    (\<exists>k p. dict_get peers k = Some p \<and> u = mb_members_url (mf_membership p))"
proof -
  obtain q t1 where "eligible_peers T (out_now E w) table = (q, t1)" by fastforce
  then obtain rs s q1 s1 where "visit_peers T E c peers policy skew cap since rs s w = (q1, s1, w')"
    using assms(3-5) by (auto simp: refresh_discovered_members_def split: sum.splits prod.splits)
  from request_log.visit_peers_requests [OF assms(1,2) this] assms(4,5)
  have "u \<in> request_log.guarded E c \<or> (\<exists>p \<in> ran (dict_get peers). u = mb_members_url (mf_membership p))"
    by blast
  then show ?thesis
    by (auto simp: request_log.guarded_def [OF assms(1)] guard_passes_def ran_def)
qed

lemma discovery_requests_witness:
  "\<exists>report l. refresh_discovered_members table_port (logged (toy_out toy_peer [])) toy_client
      toy_table [(''a'', toy_peer)] closed_policy 300 100 None ((), {}) = (Inr report, toy_table, (), l) \<and>
    ''https://h/members'' \<in> l"
proof -
  let ?E = "logged (toy_out toy_peer [])" and ?r = "new_record ''a'' None ''https://h/m'' 1"
  have url: "mb_members_url (mf_membership toy_peer) = ''https://h/members''" "mf_node_id toy_peer = ''a''"
    by (simp_all add: toy_signed_def toy_manifest_def)
  have "get_members ?E toy_client toy_peer None ((), {}) = (Inr (signed_members []), (), {''https://h/members''})"
    using logged_members [OF toy_get_members] url by simp
  moreover have "eligible_peers table_port 0 toy_table = (Inr [?r], toy_table)" "rec_node_id ?r = ''a''"
    "out_now ?E ((), {}) = 0" "mr_members (signed_members []) = []"
    by (simp_all add: eligible_peers_def io_bind_def table_values_def toy_table_def is_eligible_def new_record_def
        logged_def toy_out_simps signed_members_def)
  ultimately obtain report where run: "refresh_discovered_members table_port ?E toy_client toy_table
      [(''a'', toy_peer)] closed_policy 300 100 None ((), {}) = (Inr report, toy_table, (), {''https://h/members''})"
    by (simp add: refresh_discovered_members_def)
  from discovery_requests [OF logged.request_log_axioms closed_silent run, of "''https://h/members''"] run
  show ?thesis by blast
qed

text \<open>
  Bootstrap requests only guarded seeds and admitted peers: every URL it requests is a configured
  seed URL that the SSRF guard has let through, or the introduction URL of a manifest that has
  been verified and that the policy allows.
\<close>

theorem bootstrap_requests:
  assumes "request_log E reached" "silent_policy reached policy"
    and "bootstrap_from_seeds E c seeds lu lm policy dl skew w = (r, w')"
    and "u \<in> reached w'" "u \<notin> reached w"
  shows "u \<in> set seeds \<and> (\<exists>w1 w2. assert_public_host (out_getaddrinfo E) u (fc_allow_private c) w1 = (Inr (), w2)) \<or>
    (\<exists>m. u = mb_introduce_url (mf_membership m) \<and> self_signed (out_crypto E) m \<and> policy_allows policy m)"
  using request_log.bootstrap_seeds_requests [OF assms(1,2) assms(3) [unfolded bootstrap_from_seeds_def] assms(4)]
    assms(5)
  by (auto simp: guard_passes_def check_manifest_True_iff)

lemma bootstrap_requests_witness:
  "\<exists>report l. bootstrap_from_seeds (logged (toy_out toy_peer [])) toy_client [''https://h/m''] ''https://me/m''
      toy_peer closed_policy ''federation'' 300 ((), {}) = (Inr report, (), l) \<and> ''https://h/m'' \<in> l"
proof -
  let ?E = "logged (toy_out toy_peer [])"
  have fetch: "fetch_manifest ?E toy_client ''https://h/m'' 300 ((), {}) = (Inr toy_peer, (), {''https://h/m''})"
    using logged_fetch [OF toy_fetch] by simp
  have "admit_manifest (out_crypto ?E) now toy_peer closed_policy 300 w = (Inr (refuse ''wrong_federation''), w)" for now w
    by (simp add: logged_def toy_out_simps admit_manifest_def toy_check)
      (simp add: closed_policy_def toy_signed_def toy_manifest_def)
  note admit = this
  obtain report where run: "bootstrap_from_seeds ?E toy_client [''https://h/m''] ''https://me/m'' toy_peer
      closed_policy ''federation'' 300 ((), {}) = (Inr report, (), {''https://h/m''})"
    by (simp add: bootstrap_from_seeds_def bootstrap_seed_def fetch admit) (simp add: refuse_def)
  from bootstrap_requests [OF logged.request_log_axioms closed_silent run, of "''https://h/m''"] run
  show ?thesis by blast
qed

text \<open>
  C14: The URLs of a manifest's membership section pass no guard: admission does not look at them, so
  for any URL an admissible manifest can name it as its members URL, and the client sends its
  signed request there, also when the SSRF guard would refuse the URL.
\<close>

theorem membership_urls_unguarded:
  fixes url m
  defines "evil \<equiv> m\<lparr>mf_membership := (mf_membership m)\<lparr>mb_members_url := url\<rparr>\<rparr>"
  assumes "policy_allows policy m" "urlparse url = Inr u"
    and "signed_envelope E c (mf_node_id m) ''GET'' (us_path u) [] w = (Inr env, w1)"
    and "\<forall>verb body params hs v. url \<in> reached (snd (out_request E verb url body params hs v))"
  shows "policy_allows policy evil \<and> url \<in> reached (snd (get_members E c evil since w))"
proof -
  let ?hs = "[(SIGNATURE_HEADER, out_json_text E (JObj (dump_signed_request env)))]"
  obtain r w2 where out: "out_request E ''GET'' url None (since_params since) ?hs w1 = (r, w2)" by fastforce
  have "mb_members_url (mf_membership evil) = url" "mf_node_id evil = mf_node_id m"
    by (simp_all add: evil_def)
  then have "snd (get_members E c evil since w) = w2"
    using assms(3,4) out
    by (cases r) (simp_all add: get_members_def client_send_def signed_headers_def io_bind_def raise_for_status_def
        split: option.splits)
  moreover have "policy_allows policy evil"
    using assms(2) by (simp add: policy_allows_def evil_def)
  ultimately show ?thesis
    using out assms(5) by (metis snd_conv)
qed

lemma membership_urls_unguarded_witness:
  "\<exists>w2. get_members (logged (toy_out toy_peer [])) toy_client (toy_peer\<lparr>mf_membership :=
      (mf_membership toy_peer)\<lparr>mb_members_url := ''http://169.254.169.254/''\<rparr>\<rparr>) None ((), {}) =
      (Inr (signed_members []), w2) \<and> ''http://169.254.169.254/'' \<in> snd w2 \<and>
    fst (assert_public_host (\<lambda>h w. (Inr [h], w)) ''http://169.254.169.254/'' False ()) \<noteq> Inr ()"
proof -
  let ?E = "logged (toy_out toy_peer [])" and ?url = "''http://169.254.169.254/''"
  let ?evil = "toy_peer\<lparr>mf_membership := (mf_membership toy_peer)\<lparr>mb_members_url := ?url\<rparr>\<rparr>"
  have "case urlparse ?url of Inr u \<Rightarrow> True | Inl e \<Rightarrow> False" by code_simp
  then obtain u where u: "urlparse ?url = Inr u" by (auto split: sum.splits)
  obtain env where env: "signed_envelope (toy_out toy_peer []) toy_client (mf_node_id toy_peer) ''GET'' (us_path u) [] () =
      (Inr env, ())"
    using toy_envelope by blast
  then have envelope: "signed_envelope ?E toy_client (mf_node_id toy_peer) ''GET'' (us_path u) [] ((), {}) = (Inr env, (), {})"
    by (simp add: signed_envelope_def logged_def split: prod.splits)
  have allows: "policy_allows toy_policy toy_peer"
    using admit_manifest_verified [OF toy_admitted] by (simp add: accept_decision_def)
  have log: "\<forall>verb body params hs v. ?url \<in> snd (snd (out_request ?E verb ?url body params hs v))"
    by (auto simp: logged_def split: prod.splits)
  note unguarded = membership_urls_unguarded [where since = None and reached = snd, OF allows u envelope log]
  have "get_members (toy_out toy_peer []) toy_client ?evil None () = (Inr (signed_members []), ())"
  proof -
    have "verified_response (toy_out toy_peer []) ?evil dump_members_response mr_signature
        (val_members_response (toy_out toy_peer [])) \<lparr>ht_status_error = None, ht_json = Inr JNull\<rparr> = Inr (signed_members [])"
      by (rule verified_response_signed) (use toy_verify_all(1) in \<open>simp_all add: toy_out_def response_signed_by_def\<close>)
    then show ?thesis
      by (simp add: get_members_def io_bind_def toy_send [OF u])
  qed
  from logged_members [OF this] have "\<exists>w2. get_members ?E toy_client ?evil None ((), {}) = (Inr (signed_members []), w2)"
    by blast
  moreover have "fst (assert_public_host (\<lambda>h w. (Inr [h], w)) ?url False ()) \<noteq> Inr ()" by code_simp
  ultimately show ?thesis using unguarded by fastforce
qed

end
