(* ===== verification/Publication.thy ===== *)
theory Publication
  imports Admission
begin

text \<open>
  Publishing: the operation items of \<^verbatim>\<open>operations.py\<close>, the typed response signers of
  \<^verbatim>\<open>responses.py\<close> and the manifest builder of \<^verbatim>\<open>publication.py\<close>.
\<close>

section \<open>Operation items\<close>

text \<open>
  A host payload is a pydantic model, of which only \<^verbatim>\<open>model_dump\<close>'s result matters, or a
  mapping.
\<close>

datatype host_payload = ModelPayload (payload_dump: obj) | MappingPayload (payload_items: obj)

definition build_operation_item :: "host_payload \<Rightarrow> payload_provenance option \<Rightarrow> operation_item" where
  "build_operation_item payload provenance =
     \<lparr>oi_payload = (case payload of ModelPayload d \<Rightarrow> d | MappingPayload d \<Rightarrow> d),
      oi_provenance = provenance, oi_signature = None\<rparr>"

definition sign_operation_item ::
    "crypto_lib \<Rightarrow> (json \<Rightarrow> operation_item result) \<Rightarrow> operation_item \<Rightarrow> bytes \<Rightarrow> string \<Rightarrow>
      operation_item result" where
  "sign_operation_item L validate item key key_id =
     sign_model L dump_operation_item validate item key key_id"

definition sign_operation_payload ::
    "crypto_lib \<Rightarrow> (json \<Rightarrow> operation_item result) \<Rightarrow> host_payload \<Rightarrow> bytes \<Rightarrow> string \<Rightarrow>
      payload_provenance option \<Rightarrow> operation_item result" where
  "sign_operation_payload L validate payload key key_id provenance =
     sign_operation_item L validate (build_operation_item payload provenance) key key_id"

definition verify_operation_item :: "crypto_lib \<Rightarrow> manifest \<Rightarrow> operation_item \<Rightarrow> bool result" where
  "verify_operation_item L owner item =
     (case oi_signature item of
        None \<Rightarrow> Inr False
      | Some s \<Rightarrow>
        if (case oi_provenance item of None \<Rightarrow> False | Some p \<Rightarrow> pp_node_id p \<noteq> mf_node_id owner)
        then Inr False
        else (case find_jwk (mf_public_keys owner) (sig_key_id s) of
            None \<Rightarrow> Inr False
          | Some j \<Rightarrow> verify_model L dump_operation_item item j))"

section \<open>Response signers\<close>

text \<open>What a signer returns for a well-formed response verifies under a manifest with its key.\<close>

context signed_model
begin

lemma signed_response:
  assumes "crypto_ok L" "find_jwk (mf_public_keys peer) kid = Some (public_jwk L key)"
    and "cl_jcs L (JObj (unsigned_body (dump m))) = Inr data"
    and "ok m" "reads validate dec"
  shows "\<exists>r. sign_model L dump validate m key kid = Inr r \<and>
    verify_response_signature L peer dump get_sig r = Inr True"
proof -
  let ?s = "\<lparr>sig_key_id = kid, sig_alg = ''EdDSA'', sig_sig = sign_bytes L key data\<rparr>"
  let ?r = "norm (set_sig ?s m)"
  have "map_option signature_json (get_sig ?r) = map_option signature_json (Some ?s)"
    by (simp only: get_sig_norm get_set_sig)
  then have "get_sig ?r = Some ?s"
    by (cases "get_sig ?r") (auto simp: signature_json_def)
  then show ?thesis
    using sign_model_eq [OF assms(4,5,3)] verify_sign_model [OF assms(1,3), of kid key] assms(2)
    by (intro exI [of _ ?r]) (simp add: verify_response_signature_def)
qed

end

definition sign_introduce_response ::
    "crypto_lib \<Rightarrow> (json \<Rightarrow> introduce_response result) \<Rightarrow> introduce_response \<Rightarrow> bytes \<Rightarrow> string \<Rightarrow>
      introduce_response result" where
  "sign_introduce_response L validate r key key_id =
     sign_model L dump_introduce_response validate r key key_id"

definition sign_members_response ::
    "crypto_lib \<Rightarrow> (json \<Rightarrow> members_response result) \<Rightarrow> members_response \<Rightarrow> bytes \<Rightarrow> string \<Rightarrow>
      members_response result" where
  "sign_members_response L validate r key key_id =
     sign_model L dump_members_response validate r key key_id"

definition sign_revocations_response ::
    "crypto_lib \<Rightarrow> (json \<Rightarrow> revocations_response result) \<Rightarrow> revocations_response \<Rightarrow> bytes \<Rightarrow>
      string \<Rightarrow> revocations_response result" where
  "sign_revocations_response L validate r key key_id =
     sign_model L dump_revocations_response validate r key key_id"

definition sign_operation_response ::
    "crypto_lib \<Rightarrow> (json \<Rightarrow> operation_response result) \<Rightarrow> operation_response \<Rightarrow> bytes \<Rightarrow> string \<Rightarrow>
      operation_response result" where
  "sign_operation_response L validate r key key_id =
     sign_model L dump_operation_response validate r key key_id"

definition introduction :: "bool \<Rightarrow> introduce_response" where
  "introduction accepted = \<lparr>ir_accepted = accepted, ir_accepted_node_id = None,
     ir_accepted_manifest_revision = None, ir_accepted_until = None, ir_reason = None,
     ir_membership_cursor = None, ir_known_peer_count = None, ir_signature = None\<rparr>"

section \<open>The manifest builder\<close>

text \<open>
  The keyword arguments of \<^verbatim>\<open>build_signed_manifest\<close>, with the defaults of the signature in
  \<open>default_spec\<close>.
\<close>

record manifest_spec =
  ps_node_id :: string
  ps_org_id :: string
  ps_endpoint :: string
  ps_federations :: "string list"
  ps_protocol_versions :: "string list"
  ps_manifest_url :: "string option"
  ps_revision :: int
  ps_bu_id :: "string option"
  ps_auth_methods :: "string list"
  ps_introduce_url :: "string option"
  ps_members_url :: "string option"
  ps_revocations_url :: "string option"
  ps_extensions :: "obj option"
  ps_admission_evidence :: "admission_evidence option"
  ps_disclosure :: "disclosure option"
  ps_limits :: "manifest_limits option"
  ps_issued_at :: "datetime option"
  ps_expires_at :: "datetime option"
  ps_ttl :: "timedelta option"

definition default_spec ::
    "string \<Rightarrow> string \<Rightarrow> string \<Rightarrow> string list \<Rightarrow> string list \<Rightarrow> manifest_spec" where
  "default_spec node_id org_id endpoint federations protocol_versions =
     \<lparr>ps_node_id = node_id, ps_org_id = org_id, ps_endpoint = endpoint,
      ps_federations = federations, ps_protocol_versions = protocol_versions,
      ps_manifest_url = None, ps_revision = 1, ps_bu_id = None, ps_auth_methods = [''signed_http''],
      ps_introduce_url = None, ps_members_url = None, ps_revocations_url = None,
      ps_extensions = None, ps_admission_evidence = None, ps_disclosure = None, ps_limits = None,
      ps_issued_at = None, ps_expires_at = None, ps_ttl = Some (7 * day_usec)\<rparr>"

text \<open>Python's \<^verbatim>\<open>x or default\<close> on an optional string.\<close>

definition or_else :: "string option \<Rightarrow> string \<Rightarrow> string" where
  "or_else x d = (case x of None \<Rightarrow> d | Some s \<Rightarrow> if s = [] then d else s)"

definition expiry_of :: "manifest_spec \<Rightarrow> datetime \<Rightarrow> datetime option result" where
  "expiry_of p issued =
     (case ps_expires_at p of
        Some e \<Rightarrow> Inr (Some e)
      | None \<Rightarrow> (case ps_ttl p of None \<Rightarrow> Inr None
          | Some ttl \<Rightarrow> rbind (dt_add issued ttl) (\<lambda>e. Inr (Some e))))"

definition unsigned_manifest ::
    "crypto_lib \<Rightarrow> bytes \<Rightarrow> string \<Rightarrow> manifest_spec \<Rightarrow> datetime \<Rightarrow> datetime option \<Rightarrow> manifest" where
  "unsigned_manifest L key key_id p issued expires =
     (let base = str_rstrip (CHR ''/'') (ps_endpoint p) in
      \<lparr>mf_node_id = ps_node_id p, mf_org_id = ps_org_id p, mf_bu_id = ps_bu_id p,
       mf_federations = ps_federations p, mf_endpoint = base, mf_manifest_url = ps_manifest_url p,
       mf_protocol_versions = ps_protocol_versions p, mf_revision = ps_revision p,
       mf_public_keys = [\<lparr>pk_key_id = key_id, pk_use = ''sig'', pk_alg = ''EdDSA'',
         pk_public_jwk = public_jwk L key\<rparr>],
       mf_auth_methods = ps_auth_methods p,
       mf_membership = \<lparr>mb_introduce_url = or_else (ps_introduce_url p) (base @ ''/members/introduce''),
         mb_members_url = or_else (ps_members_url p) (base @ ''/members''),
         mb_revocations_url = ps_revocations_url p, mb_extra = []\<rparr>,
       mf_extensions = (case ps_extensions p of None \<Rightarrow> [] | Some e \<Rightarrow> e),
       mf_admission_evidence = ps_admission_evidence p, mf_disclosure = ps_disclosure p,
       mf_limits = ps_limits p, mf_issued_at = Some issued, mf_expires_at = expires,
       mf_signature = None\<rparr>)"

definition build_signed_manifest ::
    "crypto_lib \<Rightarrow> (json \<Rightarrow> manifest result) \<Rightarrow> datetime \<Rightarrow> bytes \<Rightarrow> string \<Rightarrow> manifest_spec \<Rightarrow>
      manifest result" where
  "build_signed_manifest L validate now key key_id p =
     (let issued = (case ps_issued_at p of None \<Rightarrow> now | Some t \<Rightarrow> t) in
      rbind (expiry_of p issued) (\<lambda>expires.
        sign_manifest L validate (unsigned_manifest L key key_id p issued expires) key key_id))"

section \<open>Properties\<close>

lemma unsigned_manifest_ok:
  assumes "dt_ok issued" "times_ok expires"
    and "case ps_admission_evidence p of None \<Rightarrow> True | Some e \<Rightarrow> evidence_ok e"
  shows "manifest_ok (unsigned_manifest L key kid p issued expires)"
  using assms by (simp add: manifest_ok_def unsigned_manifest_def Let_def extra_ok_def times_ok_def)

lemma unsigned_manifest_key:
  "find_jwk (mf_public_keys (unsigned_manifest L key kid p issued expires)) kid = Some (public_jwk L key)"
  by (simp add: unsigned_manifest_def Let_def)

lemma admit_manifest_plain:
  assumes "self_signed L m" "td_ok (skew * usec)" "fresh_at now skew m" "policy_allows policy m"
    and "ap_auth_method_verifiers policy = []" "ap_evidence_verifier policy = None"
  shows "admit_manifest L now m policy skew w = (Inr accept_decision, w)"
proof -
  have "check_manifest L now m skew = Inr (True, ''ok'')"
    using assms(1-3) by (simp add: check_manifest_True_iff)
  moreover have "check_auth_methods [] m as w = (Inr None, w)" for as
    by (induction as) auto
  ultimately show ?thesis
    using assms(4-6) by (auto simp: admit_manifest_def policy_allows_def)
qed

text \<open>
  C31: What a node publishes with \<open>build_signed_manifest\<close> is admitted by a peer whose policy
  speaks its federation, a protocol version and signed HTTP and accepts its endpoint (without
  trailing slashes), at every time from the issue to the expiry, the skew allowed for on both
  sides.
\<close>

theorem published_manifest_admitted:
  assumes "crypto_ok L" "reads validate dec_manifest"
    and "cl_jcs L (JObj (unsigned_body (dump_manifest
      (unsigned_manifest L key kid p issued (Some expires))))) = Inr data"
    and "issued = (case ps_issued_at p of None \<Rightarrow> now | Some t \<Rightarrow> t)"
    and "expiry_of p issued = Inr (Some expires)" "dt_ok issued" "dt_ok expires"
    and "case ps_admission_evidence p of None \<Rightarrow> True | Some e \<Rightarrow> evidence_ok e"
    and "td_ok (skew * usec)" "dt_ok (trunc_sec expires + skew * usec)"
      "dt_ok (trunc_sec issued - skew * usec)"
    and "issued - skew * usec \<le> t" "t \<le> trunc_sec expires + skew * usec"
    and "ap_federation_id policy \<in> set (ps_federations p)"
    and "set (ps_protocol_versions p) \<inter> set (ap_protocol_versions policy) \<noteq> {}"
    and "''signed_http'' \<in> set (ps_auth_methods p)"
    and "check_endpoint (str_rstrip (CHR ''/'') (ps_endpoint p)) policy = Inr None"
    and "ap_auth_method_verifiers policy = []" "ap_evidence_verifier policy = None"
  shows "\<exists>m. build_signed_manifest L validate now key kid p = Inr m \<and>
    admit_manifest L t m policy skew w = (Inr accept_decision, w)"
proof -
  let ?m = "unsigned_manifest L key kid p issued (Some expires)"
  have "times_ok (Some expires)" using assms(7) by (simp add: times_ok_def)
  with unsigned_manifest_ok [OF assms(6) _ assms(8)] have ok: "manifest_ok ?m" by blast
  obtain s where s: "sign_manifest L validate ?m key kid = Inr (manifest_norm (?m\<lparr>mf_signature := Some s\<rparr>))"
    "self_signed L (manifest_norm (?m\<lparr>mf_signature := Some s\<rparr>))"
    by (rule sign_manifest_eq [OF assms(1,2) ok unsigned_manifest_key assms(3)])
  let ?s = "manifest_norm (?m\<lparr>mf_signature := Some s\<rparr>)"
  have "fresh_at t skew ?s"
    using assms(10-13) trunc_sec_le(1) [of issued]
    by (simp add: fresh_at_def manifest_norm_def unsigned_manifest_def Let_def)
  moreover have "policy_allows policy ?s"
    using assms(14-17) by (simp add: policy_allows_def manifest_norm_def unsigned_manifest_def Let_def)
  ultimately have "admit_manifest L t ?s policy skew w = (Inr accept_decision, w)"
    using s(2) assms(9,18,19) by (intro admit_manifest_plain)
  moreover have "build_signed_manifest L validate now key kid p = Inr ?s"
    using s(1) assms(4,5) by (simp add: build_signed_manifest_def Let_def)
  ultimately show ?thesis by blast
qed

lemma published_manifest_admitted_witness:
  "\<exists>m. build_signed_manifest toy_crypto (read_as dec_manifest) (2000 * day_usec) [] ''k1''
      (default_spec ''a'' ''org'' ''https://h//'' [''fed''] [''v1'']) = Inr m \<and>
    admit_manifest toy_crypto (2001 * day_usec) m toy_policy 300 () = (Inr accept_decision, ())"
proof -
  have "str_rstrip (CHR ''/'') ''https://h//'' = ''https://h''" by code_simp
  note endpoint = this toy_endpoint [unfolded toy_policy_def]
  show ?thesis
    by (rule published_manifest_admitted [OF toy_crypto_ok reads_read_as toy_jcs, where
          issued = "2000 * day_usec" and expires = "2007 * day_usec"])
      (simp_all add: default_spec_def endpoint expiry_of_def dt_add_def dt_ok_def td_ok_def usec_def
        day_usec_def toy_policy_def trunc_sec_def)
qed

text \<open>
  An operation item verifies against a node's manifest exactly when it carries a signature
  under a key that the manifest advertises, over its content, and names no other node as its
  provenance.
\<close>

theorem operation_item_verifies_iff:
  "verify_operation_item L owner item = Inr True \<longleftrightarrow>
     (\<exists>s j. oi_signature item = Some s \<and> find_jwk (mf_public_keys owner) (sig_key_id s) = Some j \<and>
        verify_model L dump_operation_item item j = Inr True) \<and>
     (oi_provenance item = None \<or>
      (\<exists>p. oi_provenance item = Some p \<and> pp_node_id p = mf_node_id owner))"
  by (auto simp: verify_operation_item_def split: option.splits if_splits)

text \<open>
  A payload signed with a key its owner advertises verifies under the owner's manifest; once
  it names the owner as provenance, it verifies under no other node's manifest, not even one that
  advertises the same key.
\<close>

theorem signed_item_bound_to_owner:
  assumes "crypto_ok L" "reads validate dec_operation_item" "provenance_ok p"
    and "cl_jcs L (JObj (unsigned_body (dump_operation_item (build_operation_item payload (Some p))))) =
      Inr data"
    and "find_jwk (mf_public_keys owner) kid = Some (public_jwk L key)" "pp_node_id p = mf_node_id owner"
    and "mf_node_id other \<noteq> mf_node_id owner"
  shows "\<exists>item. sign_operation_payload L validate payload key kid (Some p) = Inr item \<and>
    verify_operation_item L owner item = Inr True \<and> verify_operation_item L other item = Inr False"
proof -
  let ?i = "build_operation_item payload (Some p)"
  let ?s = "\<lparr>sig_key_id = kid, sig_alg = ''EdDSA'', sig_sig = sign_bytes L key data\<rparr>"
  let ?item = "operation_item_norm (?i\<lparr>oi_signature := Some ?s\<rparr>)"
  have "operation_item_ok ?i"
    using assms(3) by (simp add: operation_item_ok_def build_operation_item_def)
  then have "sign_operation_payload L validate payload key kid (Some p) = Inr ?item"
    unfolding sign_operation_payload_def sign_operation_item_def
    by (rule item_wire.sign_model_eq [OF _ assms(2,4)])
  moreover have "verify_model L dump_operation_item ?item (public_jwk L key) = Inr True"
    by (rule item_wire.verify_sign_model [OF assms(1,4)])
  ultimately show ?thesis
    using assms(5-7)
    by (intro exI [of _ ?item])
      (simp add: verify_operation_item_def, simp add: operation_item_norm_def build_operation_item_def
        provenance_norm_def)
qed

lemma signed_item_bound_to_owner_witness:
  "\<exists>item. sign_operation_payload toy_crypto (read_as dec_operation_item)
      (MappingPayload [(''x'', JInt 1)]) [] ''k1''
      (Some \<lparr>pp_node_id = ''a'', pp_content_hash = None, pp_extra = []\<rparr>) = Inr item \<and>
    verify_operation_item toy_crypto (toy_manifest ''a'' ''e'') item = Inr True \<and>
    verify_operation_item toy_crypto (toy_manifest ''b'' ''e'') item = Inr False"
  by (rule signed_item_bound_to_owner [OF toy_crypto_ok reads_read_as _ toy_jcs])
    (simp_all add: toy_manifest_def provenance_ok_def extra_ok_def)

text \<open>
  A response signed with one of the typed signers and a key the node's manifest advertises
  verifies as that node's response, for each of the four signed response classes.
\<close>

theorem signed_responses_verify:
  assumes "crypto_ok L" "find_jwk (mf_public_keys peer) kid = Some (public_jwk L key)"
    and "cl_jcs L (JObj (unsigned_body (dump_introduce_response ri))) = Inr d1"
    and "cl_jcs L (JObj (unsigned_body (dump_members_response rm))) = Inr d2"
    and "cl_jcs L (JObj (unsigned_body (dump_revocations_response rr))) = Inr d3"
    and "cl_jcs L (JObj (unsigned_body (dump_operation_response ro))) = Inr d4"
    and "reads vi dec_introduce_response" "introduce_response_ok ri"
    and "reads vm dec_members_response" "reads vr dec_revocations_response" "revocations_response_ok rr"
    and "reads vo dec_operation_response" "operation_response_ok ro"
  shows "(\<exists>r. sign_introduce_response L vi ri key kid = Inr r \<and>
      verify_response_signature L peer dump_introduce_response ir_signature r = Inr True) \<and>
    (\<exists>r. sign_members_response L vm rm key kid = Inr r \<and>
      verify_response_signature L peer dump_members_response mr_signature r = Inr True) \<and>
    (\<exists>r. sign_revocations_response L vr rr key kid = Inr r \<and>
      verify_response_signature L peer dump_revocations_response rr_signature r = Inr True) \<and>
    (\<exists>r. sign_operation_response L vo ro key kid = Inr r \<and>
      verify_response_signature L peer dump_operation_response or_signature r = Inr True)"
  using introduce_response_wire.signed_response [OF assms(1,2,3,8,7)]
    members_wire.signed_response [OF assms(1,2,4) _ assms(9)]
    revocations_wire.signed_response [OF assms(1,2,5,11,10)]
    operation_response_wire.signed_response [OF assms(1,2,6,13,12)]
  by (simp add: sign_introduce_response_def sign_members_response_def sign_revocations_response_def
      sign_operation_response_def)

lemma signed_responses_verify_witness:
  "(\<exists>r. sign_introduce_response toy_crypto (read_as dec_introduce_response)
      (introduction True) [] ''k1'' = Inr r \<and>
    verify_response_signature toy_crypto (toy_manifest ''a'' ''e'') dump_introduce_response ir_signature r =
      Inr True)"
  using signed_responses_verify [OF toy_crypto_ok, of "toy_manifest ''a'' ''e''" "''k1''" "[]",
      OF _ toy_jcs toy_jcs toy_jcs toy_jcs reads_read_as _ reads_read_as reads_read_as _ reads_read_as,
      of "introduction True" "\<lparr>rr_source_node_id = ''a'', rr_cursor = None, rr_notices = [], rr_signature = None\<rparr>"
        "\<lparr>or_operation_id = ''o'', or_source_node_id = ''a'', or_payload = [], or_items = [],
          or_metadata = [], or_signature = None\<rparr>"]
  by (simp add: toy_manifest_def introduce_response_ok_def introduction_def times_ok_def
      revocations_response_ok_def operation_response_ok_def)

end
