(* ===== verification/Example_Host.thy ===== *)
theory Example_Host
  imports Publication Client Toy_Outside "HOL-Library.Countable"
begin

text \<open>
  The example host (\<^verbatim>\<open>examples/host.py\<close>): its state, its handlers and the routing of its HTTP
  server, as the server side of the client. The socket server and its thread are not modelled:
  \<open>loopback\<close> hands a client's request to the routes and the answer back.
\<close>

section \<open>State and validators\<close>

record host_node =
  ho_node_id :: string
  ho_org_id :: string
  ho_key :: bytes
  ho_key_id :: string
  ho_manifest :: "manifest option"
  ho_trusted :: "(string, manifest) dict"
  ho_nonces :: "string list"

text \<open>What the host's handlers use from outside the package: the signature scheme and pydantic.\<close>

record host_env =
  he_crypto :: crypto_lib
  he_request_text :: "string \<Rightarrow> signed_request result"
  he_introduce_text :: "bytes \<Rightarrow> introduce_request result"
  he_manifest :: "json \<Rightarrow> manifest result"
  he_members :: "json \<Rightarrow> members_response result"
  he_introduction :: "json \<Rightarrow> introduce_response result"

definition MEMBERS_ROUTE :: string where
  "MEMBERS_ROUTE = ''/federation/v1/members''"

definition INTRODUCE_ROUTE :: string where
  "INTRODUCE_ROUTE = ''/federation/v1/members/introduce''"

definition MANIFEST_ROUTE :: string where
  "MANIFEST_ROUTE = ''/manifest.json''"

definition assertion_error :: exc where
  "assertion_error = OtherException ''AssertionError'' []"

section \<open>Handlers\<close>

definition publish_at :: "host_env \<Rightarrow> datetime \<Rightarrow> string \<Rightarrow> string \<Rightarrow> host_node \<Rightarrow> host_node result" where
  "publish_at V now endpoint manifest_url h =
     rbind (build_signed_manifest (he_crypto V) (he_manifest V) now (ho_key h) (ho_key_id h)
       ((default_spec (ho_node_id h) (ho_org_id h) endpoint [''example-federation'']
           [''example-federation/1''])\<lparr>ps_manifest_url := Some manifest_url\<rparr>))
       (\<lambda>m. Inr (h\<lparr>ho_manifest := Some m\<rparr>))"

definition trust :: "manifest \<Rightarrow> host_node \<Rightarrow> host_node" where
  "trust peer h = h\<lparr>ho_trusted := dict_set (mf_node_id peer) peer (ho_trusted h)\<rparr>"

definition trusted_ref :: "manifest \<Rightarrow> member_ref" where
  "trusted_ref peer = \<lparr>rf_node_id = mf_node_id peer, rf_org_id = Some (mf_org_id peer),
     rf_manifest_url = or_else (mf_manifest_url peer) (mf_endpoint peer),
     rf_manifest_revision = Some (mf_revision peer), rf_disclosure = ''federation''\<rparr>"

definition trusted_members :: "host_node \<Rightarrow> members_response" where
  "trusted_members h = \<lparr>mr_source_node_id = ho_node_id h, mr_cursor = None,
     mr_members = map trusted_ref (dict_values (ho_trusted h)), mr_signature = None\<rparr>"

definition host_members_response :: "host_env \<Rightarrow> host_node \<Rightarrow> obj result" where
  "host_members_response V h =
     (if ho_manifest h = None then Inl assertion_error
      else rbind (sign_members_response (he_crypto V) (he_members V) (trusted_members h) (ho_key h)
          (ho_key_id h)) (\<lambda>r. Inr (dump_members_response r)))"

text \<open>
  A request is verified with the node's nonce cache; the two \<^verbatim>\<open>except\<close> clauses give the reason
  of an \<open>UnauthorizedPeerRequest\<close> and let other exceptions out.
\<close>

definition host_verify ::
    "host_env \<Rightarrow> datetime \<Rightarrow> string option \<Rightarrow> manifest \<Rightarrow> string \<Rightarrow> string \<Rightarrow> bytes \<Rightarrow> host_node \<Rightarrow>
      string option result \<times> host_node" where
  "host_verify V now header peer verb path body h =
     (case verify_peer_request (he_crypto V) (he_request_text V) now header peer (ho_node_id h) verb
         path body None 300 (Some (memory_set now)) (ho_nonces h) of
        (Inl (UnauthorizedPeerRequest reason), c) \<Rightarrow> (Inr (Some reason), h\<lparr>ho_nonces := c\<rparr>)
      | (Inl e, c) \<Rightarrow> (Inl e, h\<lparr>ho_nonces := c\<rparr>)
      | (Inr _, c) \<Rightarrow> (Inr None, h\<lparr>ho_nonces := c\<rparr>))"

definition authenticate_known_peer ::
    "host_env \<Rightarrow> datetime \<Rightarrow> string option \<Rightarrow> string \<Rightarrow> string \<Rightarrow> bytes \<Rightarrow> host_node \<Rightarrow>
      (bool \<times> string) result \<times> host_node" where
  "authenticate_known_peer V now header verb path body h =
     (case header of
        None \<Rightarrow> (Inr (False, ''missing_signature''), h)
      | Some t \<Rightarrow>
        if t = [] then (Inr (False, ''missing_signature''), h)
        else (case he_request_text V t of
            Inl e \<Rightarrow> if is_value_error e then (Inr (False, ''malformed_envelope''), h) else (Inl e, h)
          | Inr envelope \<Rightarrow> (case dict_get (ho_trusted h) (sr_source_node_id envelope) of
              None \<Rightarrow> (Inr (False, ''unknown_peer''), h)
            | Some peer \<Rightarrow> (case host_verify V now header peer verb path body h of
                (Inl e, h') \<Rightarrow> (Inl e, h')
              | (Inr (Some reason), h') \<Rightarrow> (Inr (False, reason), h')
              | (Inr None, h') \<Rightarrow> (Inr (True, ''ok''), h')))))"

definition handle_members ::
    "host_env \<Rightarrow> datetime \<Rightarrow> string option \<Rightarrow> host_node \<Rightarrow> (int \<times> obj) result \<times> host_node" where
  "handle_members V now header h =
     (case authenticate_known_peer V now header ''GET'' MEMBERS_ROUTE [] h of
        (Inl e, h') \<Rightarrow> (Inl e, h')
      | (Inr (ok, reason), h') \<Rightarrow>
          if \<not> ok then (Inr (401, [(''error'', JStr reason)]), h')
          else (rbind (host_members_response V h') (\<lambda>payload. Inr (200, payload)), h'))"

definition host_refusal :: "string \<Rightarrow> obj" where
  "host_refusal reason = [(''accepted'', JBool False), (''reason'', JStr reason)]"

definition host_introduction :: "manifest \<Rightarrow> host_node \<Rightarrow> introduce_response" where
  "host_introduction peer h = \<lparr>ir_accepted = True, ir_accepted_node_id = Some (mf_node_id peer),
     ir_accepted_manifest_revision = Some (mf_revision peer), ir_accepted_until = None,
     ir_reason = None, ir_membership_cursor = None,
     ir_known_peer_count = Some (int (length (ho_trusted h))), ir_signature = None\<rparr>"

definition handle_introduce ::
    "host_env \<Rightarrow> datetime \<Rightarrow> bytes \<Rightarrow> string option \<Rightarrow> host_node \<Rightarrow> (int \<times> obj) result \<times> host_node" where
  "handle_introduce V now body header h =
     (case he_introduce_text V body of
        Inl e \<Rightarrow> (Inl e, h)
      | Inr intro \<Rightarrow> (case check_manifest (he_crypto V) now (iq_manifest intro) 300 of
          Inl e \<Rightarrow> (Inl e, h)
        | Inr (ok, reason) \<Rightarrow>
          if \<not> ok then (Inr (400, host_refusal (''manifest_'' @ reason)), h)
          else (case host_verify V now header (iq_manifest intro) ''POST'' INTRODUCE_ROUTE body h of
              (Inl e, h') \<Rightarrow> (Inl e, h')
            | (Inr (Some reason), h') \<Rightarrow> (Inr (401, host_refusal reason), h')
            | (Inr None, h') \<Rightarrow>
                let h'' = trust (iq_manifest intro) h' in
                (rbind (sign_introduce_response (he_crypto V) (he_introduction V)
                    (host_introduction (iq_manifest intro) h'') (ho_key h'') (ho_key_id h''))
                  (\<lambda>r. Inr (200, dump_introduce_response r)), h''))))"

section \<open>Routes\<close>

definition not_found :: "int \<times> obj" where
  "not_found = (404, [(''error'', JStr ''not_found'')])"

definition do_GET ::
    "host_env \<Rightarrow> datetime \<Rightarrow> string \<Rightarrow> string option \<Rightarrow> host_node \<Rightarrow> (int \<times> obj) result \<times> host_node" where
  "do_GET V now path header h =
     (case ho_manifest h of
        None \<Rightarrow> (Inl assertion_error, h)
      | Some m \<Rightarrow>
          if path = MANIFEST_ROUTE then (Inr (200, dump_manifest m), h)
          else if path = MEMBERS_ROUTE then handle_members V now header h
          else (Inr not_found, h))"

definition do_POST ::
    "host_env \<Rightarrow> datetime \<Rightarrow> string \<Rightarrow> bytes \<Rightarrow> string option \<Rightarrow> host_node \<Rightarrow>
      (int \<times> obj) result \<times> host_node" where
  "do_POST V now path body header h =
     (if path = INTRODUCE_ROUTE then handle_introduce V now body header h else (Inr not_found, h))"

text \<open>
  A client's request served by the host at the time the client's world shows. A handler that
  raises closes the connection, an error status makes \<^verbatim>\<open>raise_for_status\<close> raise, and a query
  string is part of the path that the routes compare.
\<close>

definition served :: "(int \<times> obj) result \<times> host_node \<Rightarrow> http_response result \<times> host_node" where
  "served answer =
     (case answer of
        (Inl e, h) \<Rightarrow> (Inl (HttpxTransportError ''RemoteProtocolError'' []), h)
      | (Inr (status, payload), h) \<Rightarrow>
          (Inr \<lparr>ht_status_error = (if 400 \<le> status then Some (HttpxHTTPStatusError []) else None),
             ht_json = Inr (JObj payload)\<rparr>, h))"

definition loopback ::
    "host_env \<Rightarrow> (host_node \<Rightarrow> datetime) \<Rightarrow> string \<Rightarrow> string \<Rightarrow> bytes option \<Rightarrow>
      (string \<times> string) list \<Rightarrow> headers \<Rightarrow> (host_node, http_response) io" where
  "loopback V clock verb url body params hs h =
     (case urlparse url of
        Inl e \<Rightarrow> (Inl e, h)
      | Inr u \<Rightarrow>
        let path = us_path u @ (if params = [] then [] else ''?''); header = map_of hs SIGNATURE_HEADER in
        served (if verb = ''GET'' then do_GET V (clock h) path header h
          else if verb = ''POST''
          then do_POST V (clock h) path (case body of None \<Rightarrow> [] | Some b \<Rightarrow> b) header h
          else (Inr (501, []), h)))"

section \<open>Starting a host\<close>

definition new_host :: "string \<Rightarrow> string \<Rightarrow> bytes \<Rightarrow> host_node" where
  "new_host node_id org_id key = \<lparr>ho_node_id = node_id, ho_org_id = org_id, ho_key = key,
     ho_key_id = node_id @ ''-k1'', ho_manifest = None, ho_trusted = [], ho_nonces = []\<rparr>"

text \<open>A number in decimal, as in an f-string.\<close>

fun nat_text :: "nat \<Rightarrow> string" where
  "nat_text n = (if n < 10 then [char_of (48 + n)] else nat_text (n div 10) @ [char_of (48 + n mod 10)])"

declare nat_text.simps [simp del]

text \<open>The port is the one the operating system gave the server socket.\<close>

definition host_enter :: "host_env \<Rightarrow> datetime \<Rightarrow> nat \<Rightarrow> host_node \<Rightarrow> host_node result" where
  "host_enter V now port h =
     (let base = ''http://127.0.0.1:'' @ nat_text port
      in publish_at V now (base @ ''/federation/v1'') (base @ MANIFEST_ROUTE) h)"

section \<open>Serving an authentic request\<close>

lemma host_verify_ok:
  "host_verify V now header peer verb path body h = (Inr None, h') \<longleftrightarrow>
     (\<exists>p c. verify_peer_request (he_crypto V) (he_request_text V) now header peer (ho_node_id h) verb path
        body None 300 (Some (memory_set now)) (ho_nonces h) = (Inr p, c) \<and> h' = h\<lparr>ho_nonces := c\<rparr>)"
  by (auto simp: host_verify_def split: prod.splits sum.splits exc.splits)

lemma host_verify_authentic:
  assumes "host_verify V now header peer verb path body h = (Inr None, h')"
  obtains env sg where "authentic_envelope (he_crypto V) (he_request_text V) now header peer (ho_node_id h) verb path
      body None 300 env sg" "nonce_cache_key env \<notin> set (ho_nonces h)"
    "h' = h\<lparr>ho_nonces := nonce_cache_key env # ho_nonces h\<rparr>"
proof -
  obtain p c where run: "verify_peer_request (he_crypto V) (he_request_text V) now header peer (ho_node_id h) verb
      path body None 300 (Some (memory_set now)) (ho_nonces h) = (Inr p, c)" and h': "h' = h\<lparr>ho_nonces := c\<rparr>"
    using assms by (auto simp: host_verify_ok)
  then obtain t env s j r where t: "header = Some t" "t \<noteq> []" "he_request_text V t = Inr env"
    and v: "sr_signature env = Some s" "sr_source_node_id env = mf_node_id peer"
    "find_jwk (mf_public_keys peer) (sig_key_id s) = Some j"
    "verify_signed_request (he_crypto V) now env j (ho_node_id h) verb path body None 300
       (Some (memory_set now)) (ho_nonces h) = (Inr (True, r), c)"
    by (auto simp: verify_peer_request_ok_iff)
  then have cache: "memory_set now (nonce_cache_key env) 300 (ho_nonces h) = (Inr True, c)"
    and env: "envelope_checks (he_crypto V) now env j (ho_node_id h) verb path body None 300 = Inr (True, ''ok'')"
    by (auto simp: verify_signed_request_accepts)
  have "authentic_envelope (he_crypto V) (he_request_text V) now header peer (ho_node_id h) verb path body None 300 env s"
    using env t v by (auto simp: authentic_envelope_def envelope_checks_ok_iff)
  with cache h' that show ?thesis
    by (auto simp: memory_set_def split: if_splits)
qed

lemma host_members_served:
  assumes "crypto_ok (he_crypto V)" "reads (he_members V) dec_members_response"
    and "cl_jcs (he_crypto V) (JObj (unsigned_body (dump_members_response (trusted_members h)))) = Inr data"
    and "ho_manifest h \<noteq> None"
  obtains s where "sig_key_id s = ho_key_id h"
    "host_members_response V h = Inr (dump_members_response (trusted_members h\<lparr>mr_signature := Some s\<rparr>))"
    "verify_model (he_crypto V) dump_members_response (trusted_members h\<lparr>mr_signature := Some s\<rparr>)
       (public_jwk (he_crypto V) (ho_key h)) = Inr True"
proof
  let ?s = "\<lparr>sig_key_id = ho_key_id h, sig_alg = ''EdDSA'', sig_sig = sign_bytes (he_crypto V) (ho_key h) data\<rparr>"
  show "sig_key_id ?s = ho_key_id h" by simp
  show "host_members_response V h = Inr (dump_members_response (trusted_members h\<lparr>mr_signature := Some ?s\<rparr>))"
    using members_wire.sign_model_eq [OF _ assms(2,3)] assms(4)
    by (simp add: host_members_response_def sign_members_response_def)
  show "verify_model (he_crypto V) dump_members_response (trusted_members h\<lparr>mr_signature := Some ?s\<rparr>)
      (public_jwk (he_crypto V) (ho_key h)) = Inr True"
    by (rule members_wire.verify_sign_model [OF assms(1,3)])
qed

section \<open>Properties\<close>

text \<open>
  The members route answers with the member list only to a request signed by a trusted peer:
  the envelope in its header parses, is bound to this host, method, path and an empty body, is
  fresh and verifies under a key of the trusted manifest of its source, and its nonce is new.
\<close>

theorem members_route_guarded:
  assumes "handle_members V now header h = (Inr (200, payload), h')"
  shows "\<exists>env s peer. dict_get (ho_trusted h) (sr_source_node_id env) = Some peer \<and>
    authentic_envelope (he_crypto V) (he_request_text V) now header peer (ho_node_id h) ''GET''
      MEMBERS_ROUTE [] None 300 env s \<and>
    nonce_cache_key env \<notin> set (ho_nonces h) \<and> nonce_cache_key env \<in> set (ho_nonces h')"
proof -
  obtain h1 where auth: "authenticate_known_peer V now header ''GET'' MEMBERS_ROUTE [] h = (Inr (True, ''ok''), h1)"
    and h1: "h' = h1"
    using assms by (fastforce simp: handle_members_def authenticate_known_peer_def
        split: prod.splits sum.splits if_splits option.splits)
  then obtain t env0 peer where t: "header = Some t" "he_request_text V t = Inr env0"
    and peer: "dict_get (ho_trusted h) (sr_source_node_id env0) = Some peer"
    and ok: "host_verify V now header peer ''GET'' MEMBERS_ROUTE [] h = (Inr None, h')"
    by (fastforce simp: authenticate_known_peer_def split: option.splits sum.splits prod.splits if_splits)
  from ok obtain env sg where "authentic_envelope (he_crypto V) (he_request_text V) now header peer (ho_node_id h)
      ''GET'' MEMBERS_ROUTE [] None 300 env sg" "nonce_cache_key env \<notin> set (ho_nonces h)"
    "h' = h\<lparr>ho_nonces := nonce_cache_key env # ho_nonces h\<rparr>"
    by (rule host_verify_authentic)
  moreover from this t have "env = env0"
    by (auto simp: authentic_envelope_def)
  ultimately show ?thesis
    using peer by auto
qed

text \<open>
  C19: Whatever reaches the introduction route, the host's trust changes in one way only: it trusts
  the introduced manifest under the id the manifest names, and only when that manifest is signed
  under a key it advertises and the request is authentic under such a key, for this route and
  body, with a nonce not seen before. Other trusted peers stay.
\<close>

theorem introduce_route_guarded:
  assumes "handle_introduce V now body header h = (r, h')" "ho_trusted h' \<noteq> ho_trusted h"
  shows "\<exists>m env sg. ho_trusted h' = dict_set (mf_node_id m) m (ho_trusted h) \<and> self_signed (he_crypto V) m \<and>
    map_sum id iq_manifest (he_introduce_text V body) = Inr m \<and>
    authentic_envelope (he_crypto V) (he_request_text V) now header m (ho_node_id h) ''POST''
      INTRODUCE_ROUTE body None 300 env sg \<and>
    nonce_cache_key env \<notin> set (ho_nonces h) \<and> nonce_cache_key env \<in> set (ho_nonces h')"
proof -
  obtain intro where intro: "he_introduce_text V body = Inr intro"
    using assms by (auto simp: handle_introduce_def split: sum.splits)
  let ?m = "iq_manifest intro"
  obtain q h1 where verify: "host_verify V now header ?m ''POST'' INTRODUCE_ROUTE body h = (q, h1)" by fastforce
  have h1: "ho_trusted h1 = ho_trusted h"
    using verify by (auto simp: host_verify_def split: prod.splits sum.splits exc.splits)
  obtain reason where checked: "check_manifest (he_crypto V) now ?m 300 = Inr (True, reason)"
    and q: "q = Inr None" and h': "h' = trust ?m h1"
    using assms intro verify h1
    by (auto simp: handle_introduce_def Let_def split: sum.splits prod.splits option.splits if_splits)
  obtain env sg where "authentic_envelope (he_crypto V) (he_request_text V) now header ?m (ho_node_id h)
      ''POST'' INTRODUCE_ROUTE body None 300 env sg" "nonce_cache_key env \<notin> set (ho_nonces h)"
    "h1 = h\<lparr>ho_nonces := nonce_cache_key env # ho_nonces h\<rparr>"
    by (rule host_verify_authentic [OF verify [unfolded q]])
  moreover have "self_signed (he_crypto V) ?m"
    using checked by (simp add: check_manifest_True_iff)
  ultimately show ?thesis
    by (intro exI [of _ ?m] exI [of _ env] exI [of _ sg]) (simp add: h' trust_def intro)
qed

text \<open>A JSON text for the witness: any injective coding of the values will do.\<close>

instance json :: countable
  by countable_datatype

definition unary_text :: "json \<Rightarrow> string" where
  "unary_text j = replicate (Suc (to_nat j)) (CHR ''x'')"

definition toy_host_env :: host_env where
  "toy_host_env = \<lparr>he_crypto = toy_crypto,
     he_request_text = \<lambda>t. read_as dec_signed_request (from_nat (length t - 1)),
     he_introduce_text = \<lambda>b. read_as dec_introduce_request (from_nat (length b - 1)),
     he_manifest = read_as dec_manifest,
     he_members = read_as dec_members_response, he_introduction = read_as dec_introduce_response\<rparr>"

definition toy_host_out :: "host_node outside" where
  "toy_host_out = \<lparr>out_crypto = toy_crypto, out_now = \<lambda>w. 7, out_uuid_text = \<lambda>w. (''id'', w),
     out_uuid_bytes = \<lambda>w. ([7], w), out_getaddrinfo = \<lambda>host w. (Inr [''8.8.8.8''], w),
     out_request = loopback toy_host_env (\<lambda>w. 7), out_json_text = unary_text,
     val_manifest = read_as dec_manifest, val_signed_request = read_as dec_signed_request,
     val_introduce_response = read_as dec_introduce_response,
     val_members_response = read_as dec_members_response,
     val_revocations_response = read_as dec_revocations_response,
     val_operation_response = read_as dec_operation_response,
     val_protocol_response = read_as dec_protocol_response,
     val_health_response = read_as dec_health_response\<rparr>"

definition toy_host :: host_node where
  "toy_host = \<lparr>ho_node_id = ''a'', ho_org_id = ''org'', ho_key = [], ho_key_id = ''k1'',
     ho_manifest = Some (toy_manifest ''a'' ''https://h/federation/v1''),
     ho_trusted = [(''me'', toy_manifest ''me'' ''https://m'')], ho_nonces = []\<rparr>"

lemma toy_host_out_simps:
  "out_crypto toy_host_out = toy_crypto" "out_now toy_host_out = (\<lambda>w. 7)"
  "out_uuid_text toy_host_out = (\<lambda>w. (''id'', w))" "out_uuid_bytes toy_host_out = (\<lambda>w. ([7], w))"
  "out_request toy_host_out = loopback toy_host_env (\<lambda>w. 7)" "out_json_text toy_host_out = unary_text"
  "val_signed_request toy_host_out = read_as dec_signed_request"
  "val_members_response toy_host_out = read_as dec_members_response"
  by (simp_all add: toy_host_out_def)

lemma unary_text_read:
  "dt_ok (sr_timestamp env) \<Longrightarrow> trunc_sec (sr_timestamp env) = sr_timestamp env \<Longrightarrow>
   unary_text (JObj (dump_signed_request env)) \<noteq> [] \<and>
   he_request_text toy_host_env (unary_text (JObj (dump_signed_request env))) = Inr env"
  by (simp add: unary_text_def toy_host_env_def read_as_def dec_dump_signed_request
      signed_request_ok_def signed_request_norm_def del: replicate_Suc)

definition toy_call :: "string \<Rightarrow> string \<Rightarrow> string \<Rightarrow> bytes \<Rightarrow> signed_request" where
  "toy_call src verb path body = (unsigned_request 0 ''r'' [7] ''fed'' src ''a'' verb path body 1)\<lparr>
     sr_signature := Some \<lparr>sig_key_id = ''k1'', sig_alg = ''EdDSA'',
       sig_sig = sign_bytes toy_crypto [] [1, 2, 3]\<rparr>\<rparr>"

abbreviation toy_header :: "string \<Rightarrow> string \<Rightarrow> string \<Rightarrow> bytes \<Rightarrow> string" where
  "toy_header src verb path body \<equiv> unary_text (JObj (dump_signed_request (toy_call src verb path body)))"

lemma toy_call_fields:
  "sr_source_node_id (toy_call src verb path body) = src" "sr_target_node_id (toy_call src verb path body) = ''a''"
  "sr_timestamp (toy_call src verb path body) = 0" "sr_method (toy_call src verb path body) = str_upper verb"
  "sr_path (toy_call src verb path body) = path" "sr_body_sha256 (toy_call src verb path body) = sha256_hex body"
  "sr_signature (toy_call src verb path body) = Some \<lparr>sig_key_id = ''k1'', sig_alg = ''EdDSA'',
     sig_sig = sign_bytes toy_crypto [] [1, 2, 3]\<rparr>"
  by (simp_all add: toy_call_def unsigned_request_def)

lemma toy_header_read:
  "toy_header src verb path body \<noteq> []"
  "he_request_text toy_host_env (toy_header src verb path body) = Inr (toy_call src verb path body)"
  using unary_text_read [of "toy_call src verb path body"]
  by (simp_all add: toy_call_fields dt_ok_def trunc_sec_def day_usec_def)

lemma toy_host_verify:
  assumes "mf_node_id peer = src" "find_jwk (mf_public_keys peer) ''k1'' = Some (public_jwk toy_crypto [])"
  shows "host_verify toy_host_env 7 (Some (toy_header src verb path body)) peer verb path body toy_host =
    (Inr None, toy_host\<lparr>ho_nonces := [nonce_cache_key (toy_call src verb path body)]\<rparr>)"
proof -
  let ?env = "toy_call src verb path body"
  have "verify_model toy_crypto dump_signed_request ?env (public_jwk toy_crypto []) = Inr True"
    using toy_crypto_ok by (simp add: request_wire.verify_model_True toy_call_fields verify_bytes_signed)
  then have "envelope_checks toy_crypto 7 ?env (public_jwk toy_crypto []) ''a'' verb path body None 300 = Inr (True, ''ok'')"
    by (simp add: envelope_checks_ok_iff toy_call_fields check_body_size_def usec_def)
  moreover have "he_crypto toy_host_env = toy_crypto" "ho_node_id toy_host = ''a''" "ho_nonces toy_host = []"
    by (simp_all add: toy_host_env_def toy_host_def)
  ultimately show ?thesis
    using assms toy_header_read
    by (auto simp: host_verify_ok verify_peer_request_ok_iff toy_call_fields verify_signed_request_accepts memory_set_def)
qed

lemma members_route_guarded_witness:
  "\<exists>payload h' env peer. handle_members toy_host_env 7 (Some (toy_header ''me'' ''GET'' MEMBERS_ROUTE [])) toy_host =
      (Inr (200, payload), h') \<and>
    dict_get (ho_trusted toy_host) (sr_source_node_id env) = Some peer \<and>
    nonce_cache_key env \<in> set (ho_nonces h')"
proof -
  let ?t = "toy_header ''me'' ''GET'' MEMBERS_ROUTE []" and ?me = "toy_manifest ''me'' ''https://m''"
  let ?h = "toy_host\<lparr>ho_nonces := [nonce_cache_key (toy_call ''me'' ''GET'' MEMBERS_ROUTE [])]\<rparr>"
  have host: "ho_manifest ?h \<noteq> None" "he_crypto toy_host_env = toy_crypto"
    "reads (he_members toy_host_env) dec_members_response" "dict_get (ho_trusted toy_host) ''me'' = Some ?me"
    by (simp_all add: toy_host_def toy_host_env_def)
  have "mf_node_id ?me = ''me''" "find_jwk (mf_public_keys ?me) ''k1'' = Some (public_jwk toy_crypto [])"
    by (simp_all add: toy_manifest_def)
  note verified = toy_host_verify [OF this]
  have "authenticate_known_peer toy_host_env 7 (Some ?t) ''GET'' MEMBERS_ROUTE [] toy_host = (Inr (True, ''ok''), ?h)"
    using toy_header_read host(4) by (simp add: authenticate_known_peer_def toy_call_fields verified)
  moreover obtain payload where "host_members_response toy_host_env ?h = Inr payload"
    by (rule host_members_served [of toy_host_env ?h "[1, 2, 3]"]) (use host toy_crypto_ok in simp_all)
  ultimately have run: "handle_members toy_host_env 7 (Some ?t) toy_host = (Inr (200, payload), ?h)"
    by (simp add: handle_members_def)
  from members_route_guarded [OF run] run show ?thesis by blast
qed

definition toy_introduction :: introduce_request where
  "toy_introduction = \<lparr>iq_federation_id = ''fed'', iq_manifest_url = ''https://new/m'',
     iq_manifest = toy_signed (toy_manifest ''new'' ''https://new''), iq_requested_disclosure = ''federation'',
     iq_nonce = ''n'', iq_timestamp = 0\<rparr>"

definition toy_body :: bytes where
  "toy_body = encode_text (unary_text (JObj (dump_introduce_request toy_introduction)))"

lemma toy_introduction_read: "he_introduce_text toy_host_env toy_body = Inr toy_introduction"
proof -
  let ?m = "toy_signed (toy_manifest ''new'' ''https://new'')"
  have "manifest_ok ?m" "manifest_norm ?m = ?m"
    by (simp_all add: manifest_ok_def manifest_norm_def toy_signed_def toy_manifest_def extra_ok_def times_ok_def drop_null_def)
  then have "dec_introduce_request (JObj (dump_introduce_request toy_introduction)) = Some toy_introduction"
    by (subst dec_dump_introduce_request) (simp_all add: toy_introduction_def dt_ok_def day_usec_def trunc_sec_def)
  then show ?thesis
    by (simp add: toy_body_def toy_host_env_def read_as_def encode_text_def unary_text_def del: replicate_Suc)
qed

lemma introduce_route_guarded_witness:
  "\<exists>r h' m. handle_introduce toy_host_env 7 toy_body (Some (toy_header ''new'' ''POST'' INTRODUCE_ROUTE toy_body)) toy_host =
      (r, h') \<and> mf_node_id m = ''new'' \<and> dict_get (ho_trusted h') ''new'' = Some m \<and> self_signed toy_crypto m"
proof -
  let ?m = "toy_signed (toy_manifest ''new'' ''https://new'')"
  have m: "mf_node_id ?m = ''new''" "find_jwk (mf_public_keys ?m) ''k1'' = Some (public_jwk toy_crypto [])"
    "iq_manifest toy_introduction = ?m"
    by (simp_all add: toy_signed_def toy_manifest_def toy_introduction_def)
  have "he_crypto toy_host_env = toy_crypto" by (simp add: toy_host_env_def)
  then obtain r h' where run: "handle_introduce toy_host_env 7 toy_body
      (Some (toy_header ''new'' ''POST'' INTRODUCE_ROUTE toy_body)) toy_host = (r, h')" "dict_get (ho_trusted h') ''new'' = Some ?m"
    using toy_host_verify [OF m(1,2)] m(1)
    by (simp add: handle_introduce_def toy_introduction_read m(3) toy_check Let_def trust_def)
  moreover have "ho_trusted h' \<noteq> ho_trusted toy_host"
    using run(2) by (auto simp: toy_host_def)
  ultimately show ?thesis
    using introduce_route_guarded [OF run(1)] m(1,3) toy_introduction_read
    by (auto simp: toy_host_env_def)
qed

end
