(* ===== verification/Host_Exchange.thy ===== *)
theory Host_Exchange
  imports Example_Host
begin

text \<open>
  The client and the sample host talking to each other (\<^verbatim>\<open>client.py\<close> against
  \<^verbatim>\<open>examples/host.py\<close>). Locale \<open>host_link\<close> is what lies between
  the two: the same signature scheme, text and JSON carried faithfully, one clock, and a transport
  that hands requests to the routes. Inside it, a request that a client builds arrives as an
  authentic one; the exchanges follow.
\<close>

section \<open>The link\<close>

locale host_link =
  fixes V :: host_env and E :: "host_node outside"
  assumes crypto: "he_crypto V = out_crypto E" "crypto_ok (out_crypto E)"
    and served: "out_request E = loopback V (out_now E)"
    and drawn: "out_uuid_text E h = (fst (out_uuid_text E h), h)" "out_uuid_bytes E h = (fst (out_uuid_bytes E h), h)"
    and clock: "dt_ok (out_now E h)"
    and wire: "reads (val_signed_request E) dec_signed_request" "reads (val_members_response E) dec_members_response"
      "reads (val_introduce_response E) dec_introduce_response" "reads (he_members V) dec_members_response"
      "reads (he_introduction V) dec_introduce_response" "reads (he_manifest V) dec_manifest"
    and request_text: "dt_ok (sr_timestamp env) \<Longrightarrow> trunc_sec (sr_timestamp env) = sr_timestamp env \<Longrightarrow>
      out_json_text E (JObj (dump_signed_request env)) \<noteq> [] \<and>
      he_request_text V (out_json_text E (JObj (dump_signed_request env))) = Inr env"
    and introduce_text: "manifest_ok (iq_manifest r) \<Longrightarrow> dt_ok (iq_timestamp r) \<Longrightarrow>
      he_introduce_text V (encode_text (out_json_text E (JObj (dump_introduce_request r)))) =
        Inr (r\<lparr>iq_manifest := manifest_norm (iq_manifest r), iq_timestamp := trunc_sec (iq_timestamp r)\<rparr>)"

text \<open>The envelope of a client's next call to a host, but for its signature, and its nonce.\<close>

definition next_call ::
    "host_node outside \<Rightarrow> federation_client \<Rightarrow> host_node \<Rightarrow> string \<Rightarrow> string \<Rightarrow> bytes \<Rightarrow> datetime \<Rightarrow> signed_request"
  where
  "next_call E c h verb path body t = unsigned_request t (fst (out_uuid_text E h)) (fst (out_uuid_bytes E h))
     (fc_federation_id c) (fc_node_id c) (ho_node_id h) verb path body (fc_manifest_revision c)"

definition next_nonce :: "host_node outside \<Rightarrow> federation_client \<Rightarrow> host_node \<Rightarrow> string" where
  "next_nonce E c h = nonce_cache_key (next_call E c h [] [] [] 0)"

text \<open>A manifest under which a client's requests verify.\<close>

definition speaks_for :: "crypto_lib \<Rightarrow> manifest \<Rightarrow> federation_client \<Rightarrow> bool" where
  "speaks_for L m c \<longleftrightarrow> mf_node_id m = fc_node_id c \<and>
     find_jwk (mf_public_keys m) (fc_key_id c) = Some (public_jwk L (fc_key c))"

text \<open>A manifest under which a host's answers verify.\<close>

definition describes :: "crypto_lib \<Rightarrow> manifest \<Rightarrow> host_node \<Rightarrow> bool" where
  "describes L m h \<longleftrightarrow> mf_node_id m = ho_node_id h \<and>
     find_jwk (mf_public_keys m) (ho_key_id h) = Some (public_jwk L (ho_key h))"

abbreviation spend :: "string \<Rightarrow> host_node \<Rightarrow> host_node" where
  "spend key h \<equiv> h\<lparr>ho_nonces := key # ho_nonces h\<rparr>"

context host_link
begin

lemma request_arrives:
  assumes jcs: "cl_jcs (out_crypto E) (JObj (unsigned_body (dump_signed_request
      (next_call E c h verb path body (out_now E h))))) = Inr data"
    and pm: "speaks_for (out_crypto E) pm c" and fresh: "next_nonce E c h \<notin> set (ho_nonces h)"
  obtains t env where "signed_headers E c (ho_node_id h) verb path body h = (Inr [(SIGNATURE_HEADER, t)], h)"
    "t \<noteq> []" "he_request_text V t = Inr env" "sr_source_node_id env = fc_node_id c"
    "host_verify V (out_now E h) (Some t) pm verb path body h = (Inr None, spend (next_nonce E c h) h)"
proof -
  let ?now = "out_now E h"
  obtain s where s: "sig_key_id s = fc_key_id c"
    "build_signed_request (out_crypto E) (val_signed_request E) ?now (fst (out_uuid_text E h))
      (fst (out_uuid_bytes E h)) (fc_key c) (fc_key_id c) (fc_federation_id c) (fc_node_id c) (ho_node_id h)
      verb path body (fc_manifest_revision c) =
      Inr ((next_call E c h verb path body (trunc_sec ?now))\<lparr>sr_signature := Some s\<rparr>)"
    "verify_model (out_crypto E) dump_signed_request
      ((next_call E c h verb path body (trunc_sec ?now))\<lparr>sr_signature := Some s\<rparr>)
      (public_jwk (out_crypto E) (fc_key c)) = Inr True"
    unfolding next_call_def
    by (rule built_request [OF crypto(2) wire(1) clock jcs [unfolded next_call_def]])
  let ?env = "(next_call E c h verb path body (trunc_sec ?now))\<lparr>sr_signature := Some s\<rparr>"
  have fields: "sr_timestamp ?env = trunc_sec ?now" "sr_source_node_id ?env = fc_node_id c"
    "sr_target_node_id ?env = ho_node_id h" "sr_method ?env = str_upper verb" "sr_path ?env = path"
    "sr_body_sha256 ?env = sha256_hex body" "sr_signature ?env = Some s"
    "nonce_cache_key ?env = next_nonce E c h"
    by (simp_all add: next_call_def next_nonce_def unsigned_request_def nonce_cache_key_def)
  let ?t = "out_json_text E (JObj (dump_signed_request ?env))"
  have t: "?t \<noteq> []" "he_request_text V ?t = Inr ?env"
    using request_text [of ?env] clock by (simp_all add: fields(1) trunc_sec_ok)
  have "signed_envelope E c (ho_node_id h) verb path body h = (Inr ?env, h)"
    using s(2) drawn by (simp add: signed_envelope_def split: prod.splits) (metis fst_conv snd_conv)
  then have "signed_headers E c (ho_node_id h) verb path body h = (Inr [(SIGNATURE_HEADER, ?t)], h)"
    by (simp add: signed_headers_def io_bind_def)
  moreover have "host_verify V ?now (Some ?t) pm verb path body h = (Inr None, spend (next_nonce E c h) h)"
  proof -
    have "\<bar>?now - trunc_sec ?now\<bar> \<le> 300 * usec"
      using trunc_sec_le [of ?now] by (simp add: usec_def)
    then have "envelope_checks (he_crypto V) ?now ?env (public_jwk (out_crypto E) (fc_key c)) (ho_node_id h)
        verb path body None 300 = Inr (True, ''ok'')"
      using s(3) by (simp add: envelope_checks_ok_iff fields crypto(1) check_body_size_def)
    then show ?thesis
      using t fields s(1) pm fresh
      by (auto simp: host_verify_ok verify_peer_request_ok_iff verify_signed_request_accepts memory_set_def
          speaks_for_def)
  qed
  ultimately show ?thesis
    using that t fields(2) by blast
qed

lemma call_answered:
  assumes "urlparse url = Inr u" "verb = ''GET'' \<and> body = [] \<or> verb = ''POST''"
    and "signed_headers E c target verb (us_path u) body h = (Inr [(SIGNATURE_HEADER, t)], h)"
    and "(if verb = ''GET'' then do_GET V (out_now E h) (us_path u) (Some t) h
      else do_POST V (out_now E h) (us_path u) body (Some t) h) = (Inr (200, payload), h')"
  shows "client_send E c target verb url body [] h =
    (Inr \<lparr>ht_status_error = None, ht_json = Inr (JObj payload)\<rparr>, h')"
  using assms
  by (auto simp: client_send_def io_bind_def served loopback_def served_def raise_for_status_def split: if_splits)

text \<open>A response the host signed is one the client accepts.\<close>

lemma answer_accepted:
  assumes "verify_model (out_crypto E) dump resp (public_jwk (out_crypto E) (ho_key h)) = Inr True"
    and "get_sig resp = Some sg" "sig_key_id sg = ho_key_id h" "describes (out_crypto E) peer h"
    and "validate (JObj (dump resp)) = Inr resp"
  shows "verified_response E peer dump get_sig validate
      \<lparr>ht_status_error = None, ht_json = Inr (JObj (dump resp))\<rparr> = Inr resp"
    "response_signed_by (out_crypto E) peer dump get_sig resp"
proof -
  show signed: "response_signed_by (out_crypto E) peer dump get_sig resp"
    using assms(1-4) by (simp add: response_signed_by_def describes_def)
  show "verified_response E peer dump get_sig validate
      \<lparr>ht_status_error = None, ht_json = Inr (JObj (dump resp))\<rparr> = Inr resp"
    using signed assms(5) by (intro verified_response_signed) simp_all
qed

lemma members_answered:
  assumes jcs: "cl_jcs (out_crypto E) (JObj (unsigned_body (dump_signed_request
      (next_call E c h ''GET'' MEMBERS_ROUTE [] (out_now E h))))) = Inr dr"
    "cl_jcs (out_crypto E) (JObj (unsigned_body (dump_members_response (trusted_members h)))) = Inr ds"
    and trusted: "dict_get (ho_trusted h) (fc_node_id c) = Some pm" "speaks_for (out_crypto E) pm c"
    and peer: "describes (out_crypto E) peer h" "urlparse (mb_members_url (mf_membership peer)) = Inr u"
      "us_path u = MEMBERS_ROUTE"
    and up: "ho_manifest h \<noteq> None" "next_nonce E c h \<notin> set (ho_nonces h)"
  obtains resp where "get_members E c peer None h = (Inr resp, spend (next_nonce E c h) h)"
    "mr_source_node_id resp = ho_node_id h" "mr_members resp = map trusted_ref (dict_values (ho_trusted h))"
    "response_signed_by (out_crypto E) peer dump_members_response mr_signature resp"
proof -
  let ?h = "spend (next_nonce E c h) h"
  obtain t env where headers: "signed_headers E c (ho_node_id h) ''GET'' MEMBERS_ROUTE [] h =
      (Inr [(SIGNATURE_HEADER, t)], h)"
    and t: "t \<noteq> []" "he_request_text V t = Inr env" "sr_source_node_id env = fc_node_id c"
    and verified: "host_verify V (out_now E h) (Some t) pm ''GET'' MEMBERS_ROUTE [] h = (Inr None, ?h)"
    by (rule request_arrives [OF jcs(1) trusted(2) up(2)])
  have auth: "authenticate_known_peer V (out_now E h) (Some t) ''GET'' MEMBERS_ROUTE [] h = (Inr (True, ''ok''), ?h)"
    using t trusted(1) verified by (simp add: authenticate_known_peer_def)
  obtain s where s: "sig_key_id s = ho_key_id h"
    "host_members_response V ?h = Inr (dump_members_response (trusted_members h\<lparr>mr_signature := Some s\<rparr>))"
    "verify_model (out_crypto E) dump_members_response (trusted_members h\<lparr>mr_signature := Some s\<rparr>)
       (public_jwk (out_crypto E) (ho_key h)) = Inr True"
    by (rule host_members_served [of V ?h ds]) (use crypto wire(4) jcs(2) up(1) in \<open>auto simp: trusted_members_def\<close>)
  let ?resp = "trusted_members h\<lparr>mr_signature := Some s\<rparr>"
  have "do_GET V (out_now E h) (us_path u) (Some t) h = (Inr (200, dump_members_response ?resp), ?h)"
    using auth s(2) up(1) by (auto simp: do_GET_def handle_members_def peer(3) MEMBERS_ROUTE_def MANIFEST_ROUTE_def)
  then have send: "client_send E c (ho_node_id h) ''GET'' (mb_members_url (mf_membership peer)) [] [] h =
      (Inr \<lparr>ht_status_error = None, ht_json = Inr (JObj (dump_members_response ?resp))\<rparr>, ?h)"
    by (intro call_answered [OF peer(2) _ headers [folded peer(3)]]) simp_all
  have "val_members_response E (JObj (dump_members_response ?resp)) = Inr ?resp"
    using wire(2) dec_dump_members_response by (simp add: reads_def)
  note answer = answer_accepted [OF s(3) _ s(1) peer(1), of mr_signature "val_members_response E", OF _ this]
  have "get_members E c peer None h = (Inr ?resp, ?h)"
    using peer(1) answer(1) by (simp add: get_members_def io_bind_def since_params_def send describes_def)
  then show ?thesis
    using answer(2) by (intro that [of ?resp]) (simp_all add: trusted_members_def)
qed

lemma introduction_answered:
  assumes jcs: "cl_jcs (out_crypto E) (JObj (unsigned_body (dump_signed_request
      (next_call E c h ''POST'' INTRODUCE_ROUTE body (out_now E h))))) = Inr dr"
    "cl_jcs (out_crypto E) (JObj (unsigned_body (dump_introduce_response
      (host_introduction (iq_manifest r) (trust (iq_manifest r) h))))) = Inr ds"
    and body: "body = encode_text (out_json_text E (JObj (dump_introduce_request r)))"
    and own: "check_manifest (out_crypto E) (out_now E h) (iq_manifest r) 300 = Inr (True, ''ok'')"
      "speaks_for (out_crypto E) (iq_manifest r) c" "manifest_ok (iq_manifest r)"
      "manifest_norm (iq_manifest r) = iq_manifest r" "dt_ok (iq_timestamp r)"
    and peer: "describes (out_crypto E) peer h" "urlparse (mb_introduce_url (mf_membership peer)) = Inr u"
      "us_path u = INTRODUCE_ROUTE"
    and fresh: "next_nonce E c h \<notin> set (ho_nonces h)"
  obtains resp where
    "client_introduce E c peer r h = (Inr resp, trust (iq_manifest r) (spend (next_nonce E c h) h))"
    "ir_accepted resp" "response_signed_by (out_crypto E) peer dump_introduce_response ir_signature resp"
proof -
  let ?m = "iq_manifest r" and ?h = "spend (next_nonce E c h) h"
  let ?h' = "trust ?m ?h" and ?answer = "host_introduction ?m (trust ?m h)"
  let ?s = "\<lparr>sig_key_id = ho_key_id h, sig_alg = ''EdDSA'', sig_sig = sign_bytes (out_crypto E) (ho_key h) ds\<rparr>"
  let ?resp = "?answer\<lparr>ir_signature := Some ?s\<rparr>"
  obtain t env where headers: "signed_headers E c (ho_node_id h) ''POST'' INTRODUCE_ROUTE body h =
      (Inr [(SIGNATURE_HEADER, t)], h)"
    and verified: "host_verify V (out_now E h) (Some t) ?m ''POST'' INTRODUCE_ROUTE body h = (Inr None, ?h)"
    by (rule request_arrives [OF jcs(1) own(2) fresh])
  have ok: "introduce_response_ok ?answer" and norm: "introduce_response_norm ?resp = ?resp"
    by (simp_all add: introduce_response_ok_def introduce_response_norm_def host_introduction_def times_ok_def)
  have same: "host_introduction ?m ?h' = ?answer" "ho_key ?h' = ho_key h" "ho_key_id ?h' = ho_key_id h"
    by (simp_all add: host_introduction_def trust_def)
  have sign: "sign_introduce_response (he_crypto V) (he_introduction V) (host_introduction ?m ?h') (ho_key ?h') (ho_key_id ?h') =
      Inr ?resp"
    using introduce_response_wire.sign_model_eq [OF ok wire(5) jcs(2), of "ho_key h" "ho_key_id h"] norm
    by (simp add: sign_introduce_response_def same crypto(1))
  have "he_introduce_text V body = Inr (r\<lparr>iq_timestamp := trunc_sec (iq_timestamp r)\<rparr>)"
    using introduce_text [OF own(3,5)] own(4) body by simp
  then have "handle_introduce V (out_now E h) body (Some t) h = (Inr (200, dump_introduce_response ?resp), ?h')"
    using own(1) verified sign by (simp add: handle_introduce_def crypto(1) Let_def)
  then have "do_POST V (out_now E h) (us_path u) body (Some t) h = (Inr (200, dump_introduce_response ?resp), ?h')"
    by (simp add: do_POST_def peer(3))
  then have send: "client_send E c (ho_node_id h) ''POST'' (mb_introduce_url (mf_membership peer)) body [] h =
      (Inr \<lparr>ht_status_error = None, ht_json = Inr (JObj (dump_introduce_response ?resp))\<rparr>, ?h')"
    by (intro call_answered [OF peer(2) _ headers [folded peer(3)]]) simp_all
  have "verify_model (out_crypto E) dump_introduce_response ?resp (public_jwk (out_crypto E) (ho_key h)) = Inr True"
    using introduce_response_wire.verify_sign_model [OF crypto(2) jcs(2), of "ho_key_id h" "ho_key h"] norm by simp
  moreover have "val_introduce_response E (JObj (dump_introduce_response ?resp)) = Inr ?resp"
    using wire(3) dec_dump_introduce_response [of ?resp] norm ok by (simp add: reads_def introduce_response_ok_def)
  ultimately have "client_introduce E c peer r h = (Inr ?resp, ?h')"
    and "response_signed_by (out_crypto E) peer dump_introduce_response ir_signature ?resp"
    using answer_accepted [of dump_introduce_response ?resp h ir_signature ?s peer "val_introduce_response E"] peer(1)
    by (simp_all add: client_introduce_def io_bind_def send [unfolded body] describes_def)
  then show ?thesis
    by (intro that [of ?resp]) (simp_all add: host_introduction_def)
qed

end

section \<open>A link\<close>

lemma unary_introduce_read:
  assumes "manifest_ok (iq_manifest r)" "dt_ok (iq_timestamp r)"
  shows "he_introduce_text toy_host_env (encode_text (unary_text (JObj (dump_introduce_request r)))) =
    Inr (r\<lparr>iq_manifest := manifest_norm (iq_manifest r), iq_timestamp := trunc_sec (iq_timestamp r)\<rparr>)"
  using dec_dump_introduce_request [of r] assms
  by (simp add: unary_text_def toy_host_env_def read_as_def encode_text_def del: replicate_Suc)

lemma toy_host_env_simps:
  "he_crypto toy_host_env = toy_crypto" "he_manifest toy_host_env = read_as dec_manifest"
  "he_members toy_host_env = read_as dec_members_response"
  "he_introduction toy_host_env = read_as dec_introduce_response"
  by (simp_all add: toy_host_env_def)

lemma toy_time: "dt_ok 7"
  by (simp add: dt_ok_def day_usec_def)

interpretation toy_link: host_link toy_host_env toy_host_out
  by (rule host_link.intro)
    (simp_all add: toy_host_out_def toy_host_env_simps toy_crypto_ok toy_time unary_text_read unary_introduce_read)

section \<open>Properties\<close>

text \<open>
  C16: The two halves fit: \<open>get_members\<close> of a client whose manifest the host trusts, sent to the
  host it addresses, returns, signed by that host, exactly the host's trusted peers, and costs
  the host one nonce. (Text and JSON are carried faithfully, the clock reads the same on both
  sides, and drawing an id leaves the host alone.)
\<close>

theorem members_exchange:
  assumes "host_link V E"
    and "cl_jcs (out_crypto E) (JObj (unsigned_body (dump_signed_request
      (next_call E c h ''GET'' MEMBERS_ROUTE [] (out_now E h))))) = Inr dr"
    and "cl_jcs (out_crypto E) (JObj (unsigned_body (dump_members_response (trusted_members h)))) = Inr ds"
    and "dict_get (ho_trusted h) (fc_node_id c) = Some pm" "speaks_for (out_crypto E) pm c"
    and "describes (out_crypto E) peer h" "urlparse (mb_members_url (mf_membership peer)) = Inr u"
    and "us_path u = MEMBERS_ROUTE" "ho_manifest h \<noteq> None" "next_nonce E c h \<notin> set (ho_nonces h)"
  shows "\<exists>resp. get_members E c peer None h = (Inr resp, h\<lparr>ho_nonces := next_nonce E c h # ho_nonces h\<rparr>) \<and>
    mr_source_node_id resp = ho_node_id h \<and> mr_members resp = map trusted_ref (dict_values (ho_trusted h)) \<and>
    response_signed_by (out_crypto E) peer dump_members_response mr_signature resp"
  by (rule host_link.members_answered [OF assms]) blast

lemma toy_ends:
  "speaks_for toy_crypto (toy_manifest ''me'' ''https://m'') toy_client"
  "describes toy_crypto (toy_manifest ''a'' endpoint) toy_host"
  "dict_get (ho_trusted toy_host) (fc_node_id toy_client) = Some (toy_manifest ''me'' ''https://m'')"
  "ho_manifest toy_host \<noteq> None" "ho_nonces toy_host = []"
  by (simp_all add: speaks_for_def describes_def toy_manifest_def toy_client_def toy_host_def)

lemma members_exchange_witness:
  "\<exists>resp h'. get_members toy_host_out toy_client (toy_manifest ''a'' ''https://h/federation/v1'') None toy_host =
      (Inr resp, h') \<and> map rf_node_id (mr_members resp) = [''me'']"
proof -
  let ?peer = "toy_manifest ''a'' ''https://h/federation/v1''"
  have "case urlparse ''https://h/federation/v1/members'' of
      Inr u \<Rightarrow> us_path u = MEMBERS_ROUTE | Inl e \<Rightarrow> False"
    by code_simp
  then obtain u where u: "urlparse (mb_members_url (mf_membership ?peer)) = Inr u" "us_path u = MEMBERS_ROUTE"
    by (auto simp: toy_manifest_def split: sum.splits)
  have "out_crypto toy_host_out = toy_crypto" by (simp add: toy_host_out_simps)
  then obtain resp where "get_members toy_host_out toy_client ?peer None toy_host =
      (Inr resp, toy_host\<lparr>ho_nonces := next_nonce toy_host_out toy_client toy_host # ho_nonces toy_host\<rparr>)"
    "mr_members resp = map trusted_ref (dict_values (ho_trusted toy_host))"
    using members_exchange [OF toy_link.host_link_axioms _ _ toy_ends(3) _ _ u toy_ends(4)] toy_ends toy_jcs
    by fastforce
  then show ?thesis
    by (auto simp: toy_host_def trusted_ref_def toy_manifest_def)
qed

text \<open>
  C18: An introduction takes a trusted id over: whoever the host trusted before under the client's
  id, a client that introduces a manifest of its own making, self-signed and in date, with a
  request signed under a key of that manifest, is accepted, and the host then trusts that
  manifest under the id.
\<close>

theorem introduction_exchange:
  assumes "host_link V E"
    and "cl_jcs (out_crypto E) (JObj (unsigned_body (dump_signed_request
      (next_call E c h ''POST'' INTRODUCE_ROUTE body (out_now E h))))) = Inr dr"
    and "cl_jcs (out_crypto E) (JObj (unsigned_body (dump_introduce_response
      (host_introduction (iq_manifest r) (trust (iq_manifest r) h))))) = Inr ds"
    and "body = encode_text (out_json_text E (JObj (dump_introduce_request r)))"
    and "check_manifest (out_crypto E) (out_now E h) (iq_manifest r) 300 = Inr (True, ''ok'')"
    and "speaks_for (out_crypto E) (iq_manifest r) c" "manifest_ok (iq_manifest r)"
    and "manifest_norm (iq_manifest r) = iq_manifest r" "dt_ok (iq_timestamp r)"
    and "describes (out_crypto E) peer h" "urlparse (mb_introduce_url (mf_membership peer)) = Inr u"
    and "us_path u = INTRODUCE_ROUTE" "next_nonce E c h \<notin> set (ho_nonces h)"
  shows "\<exists>resp h'. client_introduce E c peer r h = (Inr resp, h') \<and> ir_accepted resp \<and>
    response_signed_by (out_crypto E) peer dump_introduce_response ir_signature resp \<and>
    ho_trusted h' = dict_set (fc_node_id c) (iq_manifest r) (ho_trusted h)"
  by (rule host_link.introduction_answered [OF assms]) (use assms(6) in \<open>auto simp: trust_def speaks_for_def\<close>)

lemma introduction_exchange_witness:
  "\<exists>r resp h' m. client_introduce toy_host_out toy_client (toy_manifest ''a'' ''https://h/federation/v1/members'') r toy_host =
      (Inr resp, h') \<and> ir_accepted resp \<and> ho_trusted h' = [(''me'', m)] \<and>
    m \<noteq> toy_manifest ''me'' ''https://m'' \<and> mf_endpoint m = ''https://new''"
proof -
  let ?peer = "toy_manifest ''a'' ''https://h/federation/v1/members''" and ?m = "toy_signed (toy_manifest ''me'' ''https://new'')"
  let ?r = "toy_introduction\<lparr>iq_manifest := ?m\<rparr>"
  have "case urlparse ''https://h/federation/v1/members/introduce'' of
      Inr u \<Rightarrow> us_path u = INTRODUCE_ROUTE | Inl e \<Rightarrow> False"
    by code_simp
  then obtain u where u: "urlparse (mb_introduce_url (mf_membership ?peer)) = Inr u" "us_path u = INTRODUCE_ROUTE"
    by (auto simp: toy_manifest_def split: sum.splits)
  have m: "manifest_ok ?m" "manifest_norm ?m = ?m" "speaks_for toy_crypto ?m toy_client"
    "mf_endpoint ?m = ''https://new''" "fc_node_id toy_client = ''me''"
    by (simp_all add: manifest_ok_def manifest_norm_def toy_signed_def toy_manifest_def extra_ok_def times_ok_def
        drop_null_def speaks_for_def toy_client_def)
  have "\<exists>resp h'. client_introduce toy_host_out toy_client ?peer ?r toy_host = (Inr resp, h') \<and> ir_accepted resp \<and>
    response_signed_by (out_crypto toy_host_out) ?peer dump_introduce_response ir_signature resp \<and>
    ho_trusted h' = dict_set (fc_node_id toy_client) (iq_manifest ?r) (ho_trusted toy_host)"
    by (rule introduction_exchange [OF toy_link.host_link_axioms _ _ refl _ _ _ _ _ _ u, where dr = "[1, 2, 3]"
          and ds = "[1, 2, 3]"]; simp add: toy_host_out_simps toy_check m toy_ends)
      (simp add: toy_introduction_def dt_ok_def day_usec_def)
  then show ?thesis
    using m(4,5) by (fastforce simp: toy_host_def toy_manifest_def)
qed

end
