(* ===== verification/Host_Main.thy ===== *)
theory Host_Main
  imports Host_Exchange
begin

text \<open>
  The example program (\<^verbatim>\<open>main\<close> of \<^verbatim>\<open>examples/host.py\<close>): two hosts that publish, trust each other, and
  a signed \<^verbatim>\<open>get_members\<close> from one to the other, over the link of \<open>Host_Exchange\<close>. The
  addresses it serves under are parsed here, and what it signs is shown to be canonicalizable.
\<close>

section \<open>The program\<close>

text \<open>
  The keys are the ones \<^verbatim>\<open>generate_key\<close> draws and the ports the operating system's; host A is the
  caller, and the client's world is host B.
\<close>

definition main_client :: "host_node \<Rightarrow> manifest \<Rightarrow> federation_client" where
  "main_client a m = \<lparr>fc_node_id = ho_node_id a, fc_federation_id = ''example-federation'', fc_key = ho_key a,
     fc_key_id = ho_key_id a, fc_manifest_revision = mf_revision m, fc_allow_private = False\<rparr>"

definition main_text :: "host_node \<Rightarrow> host_node \<Rightarrow> members_response \<Rightarrow> string" where
  "main_text a b members = ho_node_id a @ '' authenticated to '' @ ho_node_id b @ ''; '' @ ho_node_id b @
     '' returned '' @ nat_text (length (mr_members members)) @ '' member ref(s).''"

definition host_main ::
    "host_env \<Rightarrow> host_node outside \<Rightarrow> datetime \<Rightarrow> datetime \<Rightarrow> bytes \<Rightarrow> bytes \<Rightarrow> nat \<Rightarrow> nat \<Rightarrow>
      (string \<times> host_node \<times> host_node) result" where
  "host_main V E now_a now_b key_a key_b port_a port_b =
     rbind (host_enter V now_a port_a (new_host ''node:org-a:prod'' ''org-a'' key_a)) (\<lambda>org_a.
     rbind (host_enter V now_b port_b (new_host ''node:org-b:prod'' ''org-b'' key_b)) (\<lambda>org_b.
       case (ho_manifest org_a, ho_manifest org_b) of
         (Some ma, Some mb) \<Rightarrow>
           let a = trust mb org_a; b = trust ma org_b in
           (case get_members E (main_client a ma) mb None b of
              (Inl e, _) \<Rightarrow> Inl e
            | (Inr members, b') \<Rightarrow> Inr (main_text a b' members, a, b'))
       | _ \<Rightarrow> Inl assertion_error))"

section \<open>Addresses on the loopback interface\<close>

lemma digit_text: "c \<in> set (nat_text n) \<Longrightarrow> is_digit c"
proof (induction n arbitrary: c rule: nat_text.induct)
  case (1 n)
  have "is_digit (char_of (48 + d))" if "d < 10" for d :: nat
    using that by (simp add: is_digit_def char_code_def)
  with 1 show ?case
    by (subst (asm) nat_text.simps) (auto split: if_splits)
qed

lemma takeWhile_stop: "\<forall>x \<in> set xs. P x \<Longrightarrow> \<not> P y \<Longrightarrow> takeWhile P (xs @ y # ys) = xs"
  by (induction xs) auto

lemma dropWhile_stop: "\<forall>x \<in> set xs. P x \<Longrightarrow> \<not> P y \<Longrightarrow> dropWhile P (xs @ y # ys) = y # ys"
  by (induction xs) auto

text \<open>A plain host and port, and a plain path: printable, without delimiters or brackets.\<close>

definition netloc_char :: "char \<Rightarrow> bool" where
  "netloc_char c \<longleftrightarrow> 32 < char_code c \<and> c \<notin> {CHR ''/'', CHR ''?'', CHR ''#'', CHR ''['', CHR '']''}"

definition path_char :: "char \<Rightarrow> bool" where
  "path_char c \<longleftrightarrow> 32 < char_code c \<and> c \<notin> {CHR ''?'', CHR ''#''}"

lemma urlparse_http:
  assumes "list_all netloc_char netloc" "list_all path_char path" "path = CHR ''/'' # rest" "drop_params path = path"
  shows "urlparse (''http://'' @ netloc @ path) = Inr \<lparr>us_scheme = ''http'', us_netloc = netloc, us_path = path\<rparr>"
proof -
  let ?url = "''http://'' @ netloc @ path"
  have "list_all (\<lambda>c. 32 < char_code c) ''http://''" by code_simp
  then have codes: "list_all (\<lambda>c. 32 < char_code c) ?url"
    using assms(1,2) unfolding list_all_append by (auto simp: list_all_iff netloc_char_def path_char_def)
  then have "dropWhile (\<lambda>c. char_code c \<le> 32) ?url = ?url"
    by (auto simp: dropWhile_eq_self_iff list_all_iff)
  moreover have "filter (\<lambda>c. char_code c \<notin> {9, 10, 13}) ?url = ?url"
    using codes unfolding filter_id_conv list_all_iff by fastforce
  ultimately have strip: "url_strip ?url = ?url"
    by (simp add: url_strip_def)
  have "is_alpha (CHR ''h'')" "list_all is_scheme_char ''http''" "str_lower ''http'' = ''http''" by code_simp+
  then have scheme: "split_scheme ?url = (''http'', ''//'' @ netloc @ path)"
    by (simp add: split_scheme_def str_partition_def)
  have net: "\<forall>c \<in> set netloc. c \<notin> {CHR ''/'', CHR ''?'', CHR ''#''}" "CHR ''['' \<notin> set netloc" "CHR '']'' \<notin> set netloc"
    using assms(1) by (auto simp: list_all_iff netloc_char_def)
  have "split_netloc (netloc @ path) = (netloc, path)"
    using net(1) unfolding split_netloc_def Let_def assms(3)
    by (subst takeWhile_stop dropWhile_stop; simp)+
  moreover have "netloc_ok netloc"
    using net(2,3) by (simp add: netloc_ok_def)
  moreover have "takeWhile (\<lambda>c. c \<notin> {CHR ''?'', CHR ''#''}) path = path"
    using assms(2) by (auto simp: takeWhile_eq_all_conv list_all_iff path_char_def)
  ultimately have "urlsplit ?url = Inr \<lparr>us_scheme = ''http'', us_netloc = netloc, us_path = path\<rparr>"
    unfolding urlsplit_def strip scheme by (simp add: str_startswith_def)
  then show ?thesis
    using assms(4) unfolding urlparse_def by (simp add: uses_params_def)
qed

lemma urlparse_loopback:
  assumes "list_all path_char path" "path = CHR ''/'' # rest" "drop_params path = path"
  shows "\<exists>u. urlparse (''http://127.0.0.1:'' @ nat_text n @ path) = Inr u \<and> us_path u = path"
proof -
  have "list_all netloc_char ''127.0.0.1:''" by code_simp
  moreover have "list_all netloc_char (nat_text n)"
    using digit_text [of _ n] by (fastforce simp: list_all_iff netloc_char_def is_digit_def char_code_def)
  ultimately have "list_all netloc_char (''127.0.0.1:'' @ nat_text n)"
    unfolding list_all_append by (rule conjI)
  from urlparse_http [OF this assms] show ?thesis by simp
qed

section \<open>Content that canonicalizes\<close>

text \<open>No floats, and integers within the range that RFC 8785 keeps exact.\<close>

fun plain_json :: "json \<Rightarrow> bool" where
  "plain_json (JInt i) \<longleftrightarrow> \<bar>i\<bar> < 2 ^ 53"
| "plain_json (JFloat f) \<longleftrightarrow> False"
| "plain_json (JArr js) \<longleftrightarrow> list_all plain_json js"
| "plain_json (JObj d) \<longleftrightarrow> list_all (\<lambda>(k, v). plain_json v) d"
| "plain_json _ \<longleftrightarrow> True"

definition plain_obj :: "obj \<Rightarrow> bool" where
  "plain_obj d \<longleftrightarrow> list_all (\<lambda>(k, v). plain_json v) d"

lemma plain_unsigned: "plain_obj d \<Longrightarrow> plain_json (JObj (unsigned_body d))"
  by (auto simp: plain_obj_def unsigned_body_def list_all_iff)

lemma plain_strs [simp]: "plain_json (json_strs xs)" "plain_json (json_str_dict d)" "plain_json (json_time t)"
  by (auto simp: json_strs_def json_str_dict_def json_time_def list_all_iff)

lemma plain_request:
  "\<bar>sr_source_manifest_revision r\<bar> < 2 ^ 53 \<Longrightarrow> sr_signature r = None \<Longrightarrow> plain_obj (dump_signed_request r)"
  by (simp add: plain_obj_def dump_signed_request_def)

lemma plain_members:
  assumes "\<forall>r \<in> set (mr_members m). \<forall>n. rf_manifest_revision r = Some n \<longrightarrow> \<bar>n\<bar> < 2 ^ 53"
    and "mr_signature m = None"
  shows "plain_obj (dump_members_response m)"
  using assms by (cases "mr_cursor m")
    (auto simp: plain_obj_def dump_members_response_def list_all_iff member_ref_json_def opt_field_def
      split: option.splits)

lemma plain_default_manifest:
  "plain_obj (dump_manifest (unsigned_manifest L key kid
     ((default_spec node_id org_id endpoint fs vs)\<lparr>ps_manifest_url := Some url\<rparr>) issued expires))"
  by (cases expires) (simp_all add: plain_obj_def dump_manifest_def unsigned_manifest_def default_spec_def Let_def
    public_key_json_def membership_json_def drop_null_def)

section \<open>What a started host publishes\<close>

definition main_base :: "nat \<Rightarrow> string" where
  "main_base port = ''http://127.0.0.1:'' @ nat_text port"

lemma rstrip_base: "str_rstrip (CHR ''/'') (main_base port @ ''/federation/v1'') = main_base port @ ''/federation/v1''"
  by (simp add: str_rstrip_def)

lemma host_enter_publishes:
  assumes "crypto_ok (he_crypto V)" "reads (he_manifest V) dec_manifest" "dt_ok now" "dt_ok (now + 7 * day_usec)"
    and "\<forall>j. plain_json j \<longrightarrow> (\<exists>d. cl_jcs (he_crypto V) j = Inr d)"
  obtains m where "host_enter V now port (new_host node_id org_id key) =
      Inr ((new_host node_id org_id key)\<lparr>ho_manifest := Some m\<rparr>)"
    "self_signed (he_crypto V) m" "mf_node_id m = node_id" "mf_revision m = 1"
    "find_jwk (mf_public_keys m) (node_id @ ''-k1'') = Some (public_jwk (he_crypto V) key)"
    "mb_members_url (mf_membership m) = main_base port @ MEMBERS_ROUTE"
proof -
  let ?h = "new_host node_id org_id key" and ?e = "now + 7 * day_usec"
  let ?p = "(default_spec node_id org_id (main_base port @ ''/federation/v1'') [''example-federation'']
    [''example-federation/1''])\<lparr>ps_manifest_url := Some (main_base port @ MANIFEST_ROUTE)\<rparr>"
  let ?m = "unsigned_manifest (he_crypto V) key (node_id @ ''-k1'') ?p now (Some ?e)"
  obtain data where data: "cl_jcs (he_crypto V) (JObj (unsigned_body (dump_manifest ?m))) = Inr data"
    using assms(5) plain_unsigned [OF plain_default_manifest] by blast
  have "manifest_ok ?m"
    by (rule unsigned_manifest_ok) (use assms(3,4) in \<open>simp_all add: times_ok_def default_spec_def\<close>)
  then obtain s where s: "sign_manifest (he_crypto V) (he_manifest V) ?m key (node_id @ ''-k1'') =
      Inr (manifest_norm (?m\<lparr>mf_signature := Some s\<rparr>))" "self_signed (he_crypto V) (manifest_norm (?m\<lparr>mf_signature := Some s\<rparr>))"
    by (rule sign_manifest_eq [OF assms(1,2) _ unsigned_manifest_key data])
  have "expiry_of ?p now = Inr (Some ?e)" "ps_issued_at ?p = None"
    using assms(4) by (simp_all add: expiry_of_def default_spec_def dt_add_def)
  then have "host_enter V now port ?h = Inr (?h\<lparr>ho_manifest := Some (manifest_norm (?m\<lparr>mf_signature := Some s\<rparr>))\<rparr>)"
    using s(1) by (simp add: host_enter_def publish_at_def build_signed_manifest_def new_host_def main_base_def)
  then show ?thesis
    using s(2) by (rule that)
      (simp_all add: manifest_norm_def unsigned_manifest_def default_spec_def Let_def or_else_def rstrip_base MEMBERS_ROUTE_def)
qed

section \<open>What the program prints\<close>

lemma members_address: "\<exists>u. urlparse (main_base port @ MEMBERS_ROUTE) = Inr u \<and> us_path u = MEMBERS_ROUTE"
proof -
  have "list_all path_char MEMBERS_ROUTE" "MEMBERS_ROUTE = CHR ''/'' # ''federation/v1/members''"
    "drop_params MEMBERS_ROUTE = MEMBERS_ROUTE"
    by code_simp+
  from urlparse_loopback [OF this] show ?thesis
    by (simp add: main_base_def)
qed

lemma nat_text_one: "nat_text (Suc 0) = ''1''"
  by (subst nat_text.simps) code_simp

context host_link
begin

lemma main_exchange:
  assumes jcs: "\<forall>j. plain_json j \<longrightarrow> (\<exists>d. cl_jcs (out_crypto E) j = Inr d)"
    and ma: "mf_node_id ma = ho_node_id a" "mf_revision ma = 1"
      "find_jwk (mf_public_keys ma) (ho_key_id a) = Some (public_jwk (out_crypto E) (ho_key a))"
    and mb: "describes (out_crypto E) mb b" "mb_members_url (mf_membership mb) = main_base port @ MEMBERS_ROUTE"
    and b: "ho_trusted b = [(ho_node_id a, ma)]" "ho_manifest b \<noteq> None" "ho_nonces b = []"
  obtains resp where "get_members E (main_client a ma) mb None b =
      (Inr resp, spend (next_nonce E (main_client a ma) b) b)" "length (mr_members resp) = 1"
proof -
  let ?c = "main_client a ma"
  have "plain_obj (dump_signed_request (next_call E ?c b ''GET'' MEMBERS_ROUTE [] (out_now E b)))"
    by (rule plain_request) (simp_all add: next_call_def unsigned_request_def main_client_def ma(2))
  then obtain dr where dr: "cl_jcs (out_crypto E) (JObj (unsigned_body (dump_signed_request
      (next_call E ?c b ''GET'' MEMBERS_ROUTE [] (out_now E b))))) = Inr dr"
    using jcs plain_unsigned by blast
  have "plain_obj (dump_members_response (trusted_members b))"
    by (rule plain_members) (simp_all add: trusted_members_def b(1) trusted_ref_def ma(2))
  then obtain ds where ds: "cl_jcs (out_crypto E) (JObj (unsigned_body
      (dump_members_response (trusted_members b)))) = Inr ds"
    using jcs plain_unsigned by blast
  obtain u where u: "urlparse (mb_members_url (mf_membership mb)) = Inr u" "us_path u = MEMBERS_ROUTE"
    using members_address mb(2) by auto
  have ends: "speaks_for (out_crypto E) ma ?c" "dict_get (ho_trusted b) (fc_node_id ?c) = Some ma"
    using ma by (simp_all add: speaks_for_def main_client_def b(1))
  show ?thesis
    by (rule members_answered [OF dr ds ends(2,1) mb(1) u b(2)]) (use that in \<open>simp_all add: b\<close>)
qed

end

text \<open>
  C17: The example program works: whatever keys it draws and ports it is given, when JSON of small
  integers canonicalizes and the clock leaves room for a week, it prints that node A
  authenticated to node B, which returned one member reference; each host then trusts exactly
  the other's self-signed manifest, and host B has seen one nonce.
\<close>

theorem host_main_prints:
  assumes "host_link V E"
    and "\<forall>j. plain_json j \<longrightarrow> (\<exists>d. cl_jcs (out_crypto E) j = Inr d)"
    and "dt_ok now_a" "dt_ok (now_a + 7 * day_usec)" "dt_ok now_b" "dt_ok (now_b + 7 * day_usec)"
  shows "\<exists>ma mb a b. host_main V E now_a now_b key_a key_b port_a port_b = Inr
      (''node:org-a:prod authenticated to node:org-b:prod; node:org-b:prod returned 1 member ref(s).'', a, b) \<and>
    ho_trusted a = [(''node:org-b:prod'', mb)] \<and> ho_trusted b = [(''node:org-a:prod'', ma)] \<and>
    self_signed (out_crypto E) ma \<and> self_signed (out_crypto E) mb \<and> length (ho_nonces b) = 1"
proof -
  note link = host_link.crypto [OF assms(1)] host_link.wire(6) [OF assms(1)]
  let ?a = "new_host ''node:org-a:prod'' ''org-a'' key_a" and ?b = "new_host ''node:org-b:prod'' ''org-b'' key_b"
  note publishes = host_enter_publishes [of V, unfolded link(1), OF link(2,3) _ _ assms(2)]
  obtain ma where ma: "host_enter V now_a port_a ?a = Inr (?a\<lparr>ho_manifest := Some ma\<rparr>)"
    "self_signed (out_crypto E) ma" "mf_node_id ma = ''node:org-a:prod''" "mf_revision ma = 1"
    "find_jwk (mf_public_keys ma) (''node:org-a:prod'' @ ''-k1'') = Some (public_jwk (out_crypto E) key_a)"
    by (rule publishes [OF assms(3,4)])
  obtain mb where mb: "host_enter V now_b port_b ?b = Inr (?b\<lparr>ho_manifest := Some mb\<rparr>)"
    "self_signed (out_crypto E) mb" "mf_node_id mb = ''node:org-b:prod''"
    "find_jwk (mf_public_keys mb) (''node:org-b:prod'' @ ''-k1'') = Some (public_jwk (out_crypto E) key_b)"
    "mb_members_url (mf_membership mb) = main_base port_b @ MEMBERS_ROUTE"
    by (rule publishes [OF assms(5,6)])
  let ?a' = "trust mb (?a\<lparr>ho_manifest := Some ma\<rparr>)" and ?b' = "trust ma (?b\<lparr>ho_manifest := Some mb\<rparr>)"
  obtain resp where "get_members E (main_client ?a' ma) mb None ?b' =
      (Inr resp, spend (next_nonce E (main_client ?a' ma) ?b') ?b')" "length (mr_members resp) = 1"
    by (rule host_link.main_exchange [OF assms(1,2), of ma ?a' mb ?b' port_b])
      (use ma mb in \<open>simp_all add: trust_def new_host_def describes_def\<close>)
  then show ?thesis
    using ma mb by (simp add: host_main_def Let_def main_text_def nat_text_one trust_def new_host_def
       )
qed

lemma host_main_prints_witness:
  "\<exists>a b. host_main toy_host_env toy_host_out 7 8 [1] [2] 8001 8002 = Inr
      (''node:org-a:prod authenticated to node:org-b:prod; node:org-b:prod returned 1 member ref(s).'', a, b)"
proof -
  have "\<forall>j. plain_json j \<longrightarrow> (\<exists>d. cl_jcs (out_crypto toy_host_out) j = Inr d)"
    by (simp add: toy_host_out_simps)
  with host_main_prints [OF toy_link.host_link_axioms, of 7 8 "[1]" "[2]" 8001 8002] show ?thesis
    by (auto simp: dt_ok_def day_usec_def)
qed

end
