(* ===== verification/Spec2Isabelle.thy ===== *)
theory Spec2Isabelle
  imports Auth_Properties Codec_Properties Orchestration_Properties Fanout Rate_Limit Certauth_Audit
    Node_Lineage Json_Stores Traffic Host_Main
begin

text \<open>
  A verification library for \<^verbatim>\<open>federlet\<close>, a Python toolkit for federating peer nodes without a
  hub (\<^verbatim>\<open>src/src/federlet\<close>, and the sample host \<^verbatim>\<open>src/examples/host.py\<close>). Nodes publish signed
  manifests, admit each other's manifests under local policies, sign every request with an
  envelope, exchange member lists as hints for discovery, refresh what they know of each other,
  and revoke.

  \<^bold>\<open>Conventions\<close> (theory \<^verbatim>\<open>Fed_Prelude\<close>). Exceptions are values of \<open>exc\<close>, one constructor per
  class that some handler tells apart; a function that may raise returns \<open>exc + 'a\<close>. Code that
  talks to the outside takes the state \<open>'w\<close> of an arbitrary world and returns it changed, also
  when it raises (\<open>('w, 'a) io\<close>, sequenced by \<open>io_bind\<close>). A
  dictionary is an association list in insertion order with distinct keys. A class is a record,
  one field per attribute, under a short prefix. Python integers are \<open>int\<close>; bytes are \<open>8 word\<close>;
  a \<^verbatim>\<open>datetime\<close> is its number of microseconds in UTC, and the additions that overflow in Python
  do so here. Loops are structural recursions over the list they walk, so every function is
  total and no fuel is used.

  \<^bold>\<open>Which theory models what.\<close>

  \<^item> \<^verbatim>\<open>Base64url\<close>, \<^verbatim>\<open>Sha256\<close>, \<^verbatim>\<open>Py_Time\<close>, \<^verbatim>\<open>Json\<close>: the codecs under \<^verbatim>\<open>crypto.py\<close> and
    \<^verbatim>\<open>_time.py\<close>, over models of the standard library's base64, SHA-256 and calendar. Lemmas:
    decoding inverts encoding, and an ISO text reads back as its instant.
  \<^item> \<^verbatim>\<open>Models\<close>, \<^verbatim>\<open>Wire\<close>, \<^verbatim>\<open>Operation_Models\<close>: the wire classes of \<^verbatim>\<open>models.py\<close> and
    \<^verbatim>\<open>operations.py\<close>; per class a record, its dump without null members, and a decoder of
    well-typed JSON. Lemmas: the decoder reads the dump, up to whole seconds.
  \<^item> \<^verbatim>\<open>Crypto_Sign\<close>, \<^verbatim>\<open>Signing\<close>: \<^verbatim>\<open>crypto.py\<close> and \<^verbatim>\<open>signing.py\<close>. Locale \<open>signed_model\<close> is the
    contract of a signed wire class, interpreted by all eight of them; its lemmas are signing,
    verifying, and what a verified signature says of the content.
  \<^item> \<^verbatim>\<open>Nonce\<close>: the nonce cache port (\<^verbatim>\<open>protocols/nonce.py\<close>) as locale \<open>nonce_cache\<close>, interpreted by
    the sample host's set and by a cache that forgets at expiry; its lemma is that no nonce is
    claimed twice within its life.
  \<^item> \<^verbatim>\<open>Auth_Properties\<close>, \<^verbatim>\<open>Codec_Properties\<close>: what the two layers above promise, and where
    the skew arithmetic breaks the promise.
  \<^item> \<^verbatim>\<open>Ports\<close>: the storage ports (\<^verbatim>\<open>protocols/membership_store.py\<close>, \<^verbatim>\<open>protocols/manifest_store.py\<close>)
    as contracts over what a store holds, which may be a rounded copy of what it was given.
    Locale \<open>store_port\<close>: a write that returns has happened, one that raises has happened or not;
    \<open>member_port\<close> adds the lookup; \<open>keyed_store\<close> is an in-memory store, and every such store is a
    port that never raises and rounds nothing (\<open>sublocale\<close>).
  \<^item> \<^verbatim>\<open>Membership\<close>: \<^verbatim>\<open>membership.py\<close> over the port record \<open>membership_store\<close>. Locale
    \<open>membership_port\<close> holds what eligibility and a revocation do to any such store;
    \<open>MembershipTable\<close> interprets it.
  \<^item> \<^verbatim>\<open>Py_Url\<close>, \<^verbatim>\<open>Net_Urls\<close>: URL splitting and IP literals as CPython 3.11 reads them, and on top
    \<^verbatim>\<open>net.py\<close> and \<^verbatim>\<open>urls.py\<close>.
  \<^item> \<^verbatim>\<open>Admission\<close>: \<^verbatim>\<open>admission.py\<close>, policies and key continuity; host verifiers are functions.
  \<^item> \<^verbatim>\<open>Client\<close>: \<^verbatim>\<open>client.py\<close> and \<^verbatim>\<open>reasons.py\<close> over the record \<open>outside\<close> (clock, ids, name
    resolution, transport, JSON text, validators).
  \<^item> \<^verbatim>\<open>Refresh\<close>, \<^verbatim>\<open>Discovery\<close>, \<^verbatim>\<open>Bootstrap\<close>, \<^verbatim>\<open>Fanout\<close>: the files of those names and
    \<^verbatim>\<open>health.py\<close>; their properties are in \<^verbatim>\<open>Orchestration_Properties\<close> and \<^verbatim>\<open>Fanout\<close>.
  \<^item> \<^verbatim>\<open>Py_Float\<close>, \<^verbatim>\<open>Rate_Limit\<close>, \<^verbatim>\<open>Certauth_Audit\<close>, \<^verbatim>\<open>Publication\<close>: Python's floats, as rationals rounded
    after every operation, and \<^verbatim>\<open>protocols/rate_limit.py\<close> over them;
    \<^verbatim>\<open>certauth.py\<close> and \<^verbatim>\<open>audit.py\<close>; \<^verbatim>\<open>publication.py\<close>, \<^verbatim>\<open>responses.py\<close> and the item helpers of
    \<^verbatim>\<open>operations.py\<close>.
  \<^item> \<^verbatim>\<open>Node\<close>: \<^verbatim>\<open>node.py\<close>, one function per method over the record \<open>ports\<close> of the two stores a host
    injects; every method may raise at every store operation. \<^verbatim>\<open>Node_Inv\<close>: locale \<open>node_ports\<close>
    (both ports keep their contracts), the view of a node (\<open>known\<close>, \<open>cached\<close>, \<open>stored\<close>), its
    invariant \<open>well_kept\<close>, and per operation which peers it \<open>touches\<close>; interpreted by in-memory
    stores and by a manifest store whose deletes fail. \<^verbatim>\<open>Node_Properties\<close>: the operations as a step
    relation, what holds along every sequence of them, and what a failed eviction leaves behind.
    \<^verbatim>\<open>Node_Race\<close>: the same at the granularity of the lifecycle lock, with the tasks that are
    between their reads and their writes, and the three interleavings that undo a revocation.
    \<^verbatim>\<open>Node_Gates\<close>: which manifests a step can bring in, and the two ways past a gate: admission
    without continuity, refresh without policy. \<^verbatim>\<open>Node_Runs\<close>: every operation is a run of the atomic
    steps, so what is shown of interleavings holds of operations; all manifests of a run are signed.
    \<^verbatim>\<open>Node_Lineage\<close>: refreshes keep the line of a peer's manifests, unless they overlap.
  \<^item> \<^verbatim>\<open>Json_Stores\<close>: the JSON form of membership records; locale \<open>serializer\<close> (a dump that reads back
    up to rounding) makes a dictionary of dumps a port, and a node over two such stores interprets
    \<open>node_ports\<close>, so all that is shown of nodes holds over stores that keep JSON.
  \<^item> \<^verbatim>\<open>Traffic\<close>: which URLs are requested. Locale \<open>request_log\<close> (the world remembers every URL it was
    asked for) is interpreted by \<open>logged\<close>, which adds that memory to any world.
  \<^item> \<^verbatim>\<open>Example_Host\<close>: state, handlers, routes and start-up of \<^verbatim>\<open>examples/host.py\<close>.
    \<^verbatim>\<open>Host_Exchange\<close>: locale \<open>host_link\<close>, a client and a host over a faithful transport, with the
    exchanges proved inside it, and its interpretation. \<^verbatim>\<open>Host_Main\<close>: the program's \<^verbatim>\<open>main\<close>.
  \<^item> \<^verbatim>\<open>Samples\<close>, \<^verbatim>\<open>Toy_Outside\<close>: concrete keys, manifests and worlds for the witnesses.

  \<^bold>\<open>What is shown.\<close> Requests: an inbound request is accepted exactly when authentic, and
  only once if it was stamped before its acceptance. Manifests: what is published is admitted, what is admitted is signed,
  fresh and public, and a refresh never accepts an older one. Membership: only trusted notices revoke;
  disclosure and backoff, with the failure count from which backoff overflows and the changes that
  JSON-keeping stores hide from cursors. Orchestration:
  every seed, reference and target ends in one bucket, only verified peers are added, and the
  exceptions that can leave a run are named. Nodes: revocation is terminal along every sequence of
  operations, whatever the stores raise, once the notice has been answered, and under every
  interleaving once no task for the peer is under way; a refresh, a batch or a discovery under
  way undoes it, and so does a restart after an eviction that failed. Whole operations are
  interleavings of their steps, and under every interleaving a request accepted in a peer's name is
  signed under a manifest of that peer. Refreshes that do not overlap lead from each manifest to a
  successor and never back, overlapping ones may go back; admission lets in what a refresh refused,
  and a refresh what admission would refuse. Traffic: discovery and bootstrap request
  only guarded URLs and those that the manifests they hold advertise, which nobody guards. The
  limiter grants what its windows allow, up to a bounded rounding error, and exactly that at times
  its doubles represent exactly. End to end, a client gets from the sample host
  what that host trusts, the sample program prints what it means to, and an introduction takes
  over an id that was trusted before.

  \<^bold>\<open>Parameters.\<close> Ed25519 and RFC 8785 are the record \<open>crypto_lib\<close>; \<open>crypto_ok\<close> (a signature
  verifies under its own key, keys have 32 bytes) and \<open>jcs_injective\<close> are assumed where they are
  needed. Pydantic's validation is one function per class; \<open>reads\<close> assumes that well-typed input
  is read as declared. \<^verbatim>\<open>datetime.fromisoformat\<close>, name resolution, the HTTP transport,
  \<^verbatim>\<open>asyncio.wait_for\<close>, the nonce cache, the manifest store and every host callback are
  parameters.

  \<^bold>\<open>Not modelled.\<close> The re-export modules (\<^verbatim>\<open>__init__.py\<close>, \<^verbatim>\<open>lowlevel.py\<close>, \<^verbatim>\<open>prelude.py\<close>) have no code
  of their own. \<open>gather\<close> runs its calls in list order: the event loop's own order shows only in
  which of several exceptions is reported. Infinite times in the rate limiter, text outside ASCII
  (case mapping, IDNA), pydantic's coercions of ill-typed input, the closing of HTTP clients, and
  the sockets and threads of the sample host's server are left out.
\<close>

end
